(* ===== verification/Prelude.thy ===== *)
theory Prelude
  imports Complex_Main "HOL-Library.Word" "HOL-Library.Multiset" "HOL-Library.AList"
begin

text \<open>
  What the components share: the collections of facts their proofs pass to the simplifier,
  the result type of fallible operations, generic lemmas on lists, options and maps, and the
  contract \<open>keyed_store\<close> (with its extension \<open>listed_store\<close>) that the three in-memory stores of
  the program meet: \<^verbatim>\<open>gpu.Store\<close>, \<^verbatim>\<open>diagnosis.Store\<close> and \<^verbatim>\<open>escalation.Store\<close>.
\<close>

named_theorems model_defs \<open>definitions a component's proofs unfold\<close>
named_theorems sim_inv \<open>facts on the invariant of the simulator's store\<close>
named_theorems frame \<open>what an operation leaves unchanged\<close>

type_synonym ('e, 'a) result = "'e + 'a"
type_synonym time = int  \<comment> \<open>nanoseconds\<close>

abbreviation second :: int where
  "second \<equiv> 1000000000"

section \<open>Generic lemmas\<close>

lemma sum_case_same [simp]: "(case x of Inl e \<Rightarrow> c | Inr a \<Rightarrow> c) = c"
  by (cases x) simp_all

lemma distinct_map_filter_ne:
  "distinct (map f xs) \<Longrightarrow> distinct (map f (filter P xs))"
  by (rule distinct_map_filter)

lemma set_drop_subset_map: "set (map f (drop n xs)) \<subseteq> set (map f xs)"
  by (auto dest: in_set_dropD)

lemma distinct_map_drop: "distinct (map f xs) \<Longrightarrow> distinct (map f (drop n xs))"
  by (simp add: drop_map [symmetric] del: drop_map) 

lemma mset_eq_distinct_map:
  assumes "mset xs = mset ys" and "distinct (map f ys)"
  shows "distinct (map f xs)"
  using assms by (metis mset_map distinct_count_atmost_1 mset_eq_imp_distinct_iff)

section \<open>The contract of a keyed store\<close>

text \<open>
  \<open>save\<close> files a record under the key it carries, \<open>get\<close> reads a key. The law is that a read
  sees the last record saved under its key and nothing else.
\<close>

locale keyed_store =
  fixes key :: "'v \<Rightarrow> 'k"
    and save :: "'v \<Rightarrow> 's \<Rightarrow> 's"
    and get :: "'s \<Rightarrow> 'k \<Rightarrow> 'v option"
  assumes get_save: "get (save v s) k = (if k = key v then Some v else get s k)"
begin

lemma get_save_same: "get (save v s) (key v) = Some v"
  by (simp add: get_save)

lemma get_save_other: "k \<noteq> key v \<Longrightarrow> get (save v s) k = get s k"
  by (simp add: get_save)

text \<open>After any sequence of saves a read returns the last record saved under the key.\<close>

lemma get_fold_save:
  "get (fold save vs s) k =
     (case List.find (\<lambda>v. key v = k) (rev vs) of Some v \<Rightarrow> Some v | None \<Rightarrow> get s k)"
proof (induction vs rule: rev_induct)
  case Nil
  then show ?case by simp
next
  case (snoc v vs)
  then show ?case by (auto simp: get_save split: option.splits)
qed

lemma save_overwrites: "key v = key w \<Longrightarrow> get (save v (save w s)) k = get (save v s) k"
  by (simp add: get_save)

lemma save_commutes:
  "key v \<noteq> key w \<Longrightarrow> get (save v (save w s)) k = get (save w (save v s)) k"
  by (auto simp: get_save)

end

text \<open>
  A store that can also be listed. The order of a listing is the iteration order of a Go map,
  which the language leaves open, so the laws speak of the listing as a set of records with
  distinct keys.
\<close>

locale listed_store = keyed_store key save get
  for key :: "'v \<Rightarrow> 'k" and save :: "'v \<Rightarrow> 's \<Rightarrow> 's" and get :: "'s \<Rightarrow> 'k \<Rightarrow> 'v option" +
  fixes invar :: "'s \<Rightarrow> bool"
    and listing :: "'s \<Rightarrow> 'v list"
  assumes invar_save: "invar s \<Longrightarrow> invar (save v s)"
    and listing_get: "invar s \<Longrightarrow> v \<in> set (listing s) \<longleftrightarrow> get s (key v) = Some v"
    and listing_distinct: "invar s \<Longrightarrow> distinct (map key (listing s))"
begin

lemma invar_fold_save: "invar s \<Longrightarrow> invar (fold save vs s)"
  by (induction vs arbitrary: s) (auto intro: invar_save)

lemma listing_save:
  assumes "invar s"
  shows "set (listing (save v s)) = insert v {w \<in> set (listing s). key w \<noteq> key v}"
  using assms by (auto simp: listing_get invar_save get_save split: if_splits)

lemma length_listing_save:
  assumes "invar s"
  shows "length (listing (save v s)) =
    (if key v \<in> key ` set (listing s) then length (listing s) else Suc (length (listing s)))"
proof -
  have card: "length (listing t) = card (key ` set (listing t))" if "invar t" for t
    using distinct_card [OF listing_distinct [OF that]] by simp
  have "key ` set (listing (save v s)) = insert (key v) (key ` set (listing s))"
    by (auto simp: listing_save [OF assms])
  then show ?thesis
    by (simp add: card [OF assms] card [OF invar_save [OF assms]] card_insert_if)
qed

end

text \<open>Association lists updated with \<^const>\<open>AList.update\<close> give the laws of a listed store.\<close>

definition filed :: "('v \<Rightarrow> 'k) \<Rightarrow> ('k \<times> 'v) list \<Rightarrow> bool" where
  "filed key xs \<longleftrightarrow> distinct (map fst xs) \<and> (\<forall>(k, v) \<in> set xs. k = key v)"

lemma filed_Nil [simp]: "filed key []"
  by (simp add: filed_def)

lemma set_alist_update: "set (AList.update k v xs) \<subseteq> insert (k, v) (set xs)"
  by (induction xs) auto

lemma filed_update: "filed key xs \<Longrightarrow> filed key (AList.update (key v) v xs)"
  using set_alist_update [of "key v" v xs] by (auto simp: filed_def distinct_update)

lemma filed_map_of:
  assumes "filed key xs"
  shows "v \<in> set (map snd xs) \<longleftrightarrow> map_of xs (key v) = Some v"
  using assms by (force simp: filed_def map_of_eq_Some_iff)

lemma filed_distinct:
  assumes "filed key xs"
  shows "distinct (map key (map snd xs))"
proof -
  have "map key (map snd xs) = map fst xs" using assms by (auto simp: filed_def)
  with assms show ?thesis by (simp add: filed_def del: map_map)
qed

end
