(* ===== verification/Go_Float.thy ===== *)
theory Go_Float
  imports Prelude "HOL-Library.Log_Nat"
begin

text \<open>
  Go's \<open>float64\<close>. A finite \<open>float64\<close> is its exact value, a \<^typ>\<open>rat\<close>; every arithmetic
  operation of the source is the exact operation followed by \<open>fl64\<close>, which rounds to the
  nearest value with a 53-bit significand and an exponent of at least -1074, ties to even.
  The simulator never leaves the finite range, so infinities and NaN are not values here.
  The locale \<open>rounding\<close> states what the bounds proofs of the other theories need of a
  rounding function; its interpretation \<open>f64\<close> discharges that for \<open>fl64\<close>.
\<close>

section \<open>Binary exponent and unit in the last place\<close>

text \<open>The integer \<open>e\<close> with \<open>2 powi e \<le> x < 2 powi (e + 1)\<close>, from the bit lengths of the fraction.\<close>

definition exponent2 :: "rat \<Rightarrow> int" where
  "exponent2 x =
     (let (p, q) = quotient_of x; e = bitlen p - bitlen q
      in if 2 powi e \<le> x then e else e - 1)"

definition ulp_exp :: "rat \<Rightarrow> int" where
  "ulp_exp x = max (exponent2 x - 52) (- 1074)"

definition ulp64 :: "rat \<Rightarrow> rat" where
  "ulp64 x = 2 powi ulp_exp x"

definition round_half_even :: "rat \<Rightarrow> int" where
  "round_half_even x =
     (let f = \<lfloor>x\<rfloor>; d = x - of_int f
      in if d < 1 / 2 then f else if 1 / 2 < d then f + 1 else if even f then f else f + 1)"

definition fl64 :: "rat \<Rightarrow> rat" where
  "fl64 x =
     (if x = 0 then 0
      else if x < 0 then - (of_int (round_half_even (- x / ulp64 (- x))) * ulp64 (- x))
      else of_int (round_half_even (x / ulp64 x)) * ulp64 x)"

lemma powi2_pos [simp]: "0 < (2 :: rat) powi k"
  by simp

lemma powi2_split: "(2 :: rat) powi (a + b) = 2 powi a * 2 powi b"
  by (simp add: power_int_add)

lemma powi2_less_iff [simp]: "(2 :: rat) powi a < 2 powi b \<longleftrightarrow> a < b"
  using power_int_strict_increasing [of a b "2 :: rat"] power_int_increasing [of b a "2 :: rat"]
  by (cases "a < b") auto

lemma powi2_le_iff [simp]: "(2 :: rat) powi a \<le> 2 powi b \<longleftrightarrow> a \<le> b"
  by (simp add: not_less [symmetric])

lemma powi2_int: "0 \<le> k \<Longrightarrow> (2 :: rat) powi k = of_int (2 ^ nat k)"
  by (simp add: power_int_def)

lemma bitlen_powi_bounds:
  assumes "0 < p"
  shows "(2 :: rat) powi (bitlen p - 1) \<le> of_int p" and "of_int p < (2 :: rat) powi bitlen p"
proof -
  have b: "2 ^ nat (bitlen p - 1) \<le> p" "p < 2 ^ nat (bitlen p)" "1 \<le> bitlen p"
    using bitlen_bounds [OF assms] assms bitlen_eq_zero_iff [of p] bitlen_nonneg [of p] by linarith+
  have "(2 :: rat) powi (bitlen p - 1) = of_int (2 ^ nat (bitlen p - 1))"
    using b by (intro powi2_int) simp
  also have "\<dots> \<le> of_int p" using b(1) by (simp only: of_int_le_iff)
  finally show "(2 :: rat) powi (bitlen p - 1) \<le> of_int p" .
  have "of_int p < (of_int (2 ^ nat (bitlen p)) :: rat)" using b(2) by (simp only: of_int_less_iff)
  also have "\<dots> = 2 powi bitlen p" using b by (intro powi2_int [symmetric]) simp
  finally show "of_int p < (2 :: rat) powi bitlen p" .
qed

lemma exponent2_bounds:
  assumes "0 < x"
  shows "2 powi exponent2 x \<le> x" and "x < 2 powi (exponent2 x + 1)"
proof -
  obtain p q where pq: "quotient_of x = (p, q)" by fastforce
  have q: "0 < q" and x: "x = of_int p / of_int q"
    using quotient_of_denom_pos [OF pq] quotient_of_div [OF pq] by auto
  have p: "0 < p" using assms q x by (simp add: zero_less_divide_iff)
  let ?e = "bitlen p - bitlen q"
  note bp = bitlen_powi_bounds [OF p] and bq = bitlen_powi_bounds [OF q]
  have q': "0 < (of_int q :: rat)" using q by simp
  have "(2 :: rat) powi (?e - 1) * of_int q \<le> 2 powi (?e - 1) * 2 powi bitlen q"
    using bq(2) by (intro mult_left_mono) (auto simp: less_imp_le)
  also have "\<dots> = 2 powi (bitlen p - 1)" by (simp add: powi2_split [symmetric] algebra_simps)
  also have "\<dots> \<le> of_int p" by (rule bp(1))
  finally have lo: "2 powi (?e - 1) \<le> x" using q' by (simp add: x pos_le_divide_eq)
  have "(of_int p :: rat) < 2 powi (?e + 1) * 2 powi (bitlen q - 1)"
    using bp(2) by (simp add: powi2_split [symmetric] algebra_simps)
  also have "\<dots> \<le> 2 powi (?e + 1) * of_int q" using bq(1) by (intro mult_left_mono) auto
  finally have hi: "x < 2 powi (?e + 1)" using q' by (simp add: x pos_divide_less_eq)
  show "2 powi exponent2 x \<le> x" and "x < 2 powi (exponent2 x + 1)"
    using lo hi by (auto simp: exponent2_def pq Let_def not_le)
qed

lemma exponent2_mono: "0 < x \<Longrightarrow> x \<le> y \<Longrightarrow> exponent2 x \<le> exponent2 y"
  using exponent2_bounds(1) [of x] exponent2_bounds(2) [of y]
  by (metis le_less_trans less_le_trans not_less powi2_less_iff zless_add1_eq order_less_le)

lemma ulp64_pos [simp]: "0 < ulp64 x"
  by (simp add: ulp64_def)

section \<open>Rounding to an integer\<close>

lemma round_half_even_le: "x \<le> of_int n \<Longrightarrow> round_half_even x \<le> n"
  unfolding round_half_even_def Let_def by (auto; linarith)

lemma round_half_even_ge: "of_int n \<le> x \<Longrightarrow> n \<le> round_half_even x"
  unfolding round_half_even_def Let_def by (auto simp: le_floor_iff; linarith)

lemma round_half_even_of_int [simp]: "round_half_even (of_int n) = n"
  by (simp add: round_half_even_def)

lemma round_half_even_mono:
  assumes "x \<le> y"
  shows "round_half_even x \<le> round_half_even y"
proof (cases "\<lfloor>x\<rfloor> = \<lfloor>y\<rfloor>")
  case True
  with assms show ?thesis by (auto simp: round_half_even_def Let_def)
next
  case False
  with floor_mono [OF assms] have "\<lfloor>x\<rfloor> + 1 \<le> \<lfloor>y\<rfloor>" by simp
  moreover have "round_half_even x \<le> \<lfloor>x\<rfloor> + 1" by (rule round_half_even_le) (simp, linarith)
  moreover have "\<lfloor>y\<rfloor> \<le> round_half_even y" by (rule round_half_even_ge) simp
  ultimately show ?thesis by linarith
qed

section \<open>Rounding to float64\<close>

lemma fl64_pos: "0 < x \<Longrightarrow> fl64 x = of_int (round_half_even (x / ulp64 x)) * ulp64 x"
  by (simp add: fl64_def)

lemma fl64_0 [simp]: "fl64 0 = 0"
  by (simp add: fl64_def)

lemma fl64_minus: "fl64 (- x) = - fl64 x"
  by (simp add: fl64_def)

lemma fl64_le_grid:
  assumes "0 < x" and "x \<le> of_int n * ulp64 x"
  shows "fl64 x \<le> of_int n * ulp64 x"
proof -
  have "round_half_even (x / ulp64 x) \<le> n"
    using assms by (intro round_half_even_le) (simp add: pos_divide_le_eq)
  then show ?thesis using assms(1) by (simp add: fl64_pos mult_right_mono less_imp_le)
qed

lemma fl64_ge_grid:
  assumes "0 < x" and "of_int n * ulp64 x \<le> x"
  shows "of_int n * ulp64 x \<le> fl64 x"
proof -
  have "n \<le> round_half_even (x / ulp64 x)"
    using assms by (intro round_half_even_ge) (simp add: pos_le_divide_eq)
  then show ?thesis using assms(1) by (simp add: fl64_pos mult_right_mono less_imp_le)
qed

lemma fl64_nonneg: "0 \<le> x \<Longrightarrow> 0 \<le> fl64 x"
  using fl64_ge_grid [of x 0] by (cases "x = 0") auto

lemma powi2_grid:
  assumes "k \<le> e"
  shows "(2 :: rat) powi e = of_int (2 ^ nat (e - k)) * 2 powi k"
proof -
  have "(2 :: rat) powi e = 2 powi (e - k) * 2 powi k" by (simp flip: powi2_split)
  then show ?thesis using powi2_int [of "e - k"] assms by simp
qed

lemma ulp_exp_mono: "0 < x \<Longrightarrow> x \<le> y \<Longrightarrow> ulp_exp x \<le> ulp_exp y"
  using exponent2_mono [of x y] by (simp add: ulp_exp_def max_def)

lemma ulp_exp_less: "ulp_exp x < ulp_exp y \<Longrightarrow> ulp_exp y \<le> exponent2 y \<and> exponent2 x < exponent2 y"
  by (auto simp: ulp_exp_def max_def split: if_splits)

lemma fl64_mono_pos:
  assumes "0 < x" and "x \<le> y"
  shows "fl64 x \<le> fl64 y"
proof (cases "ulp_exp x = ulp_exp y")
  case True
  have "x / ulp64 y \<le> y / ulp64 y" using assms by (intro divide_right_mono) (auto simp: less_imp_le)
  moreover have "ulp64 x = ulp64 y" by (simp add: ulp64_def True)
  ultimately show ?thesis
    using assms by (simp add: fl64_pos round_half_even_mono mult_right_mono less_imp_le)
next
  case False
  let ?B = "2 powi exponent2 y :: rat"
  have lt: "ulp_exp x < ulp_exp y" using ulp_exp_mono [OF assms] False by simp
  note e = ulp_exp_less [OF lt]
  have "x \<le> 2 powi (exponent2 x + 1)" using exponent2_bounds(2) [OF assms(1)] by simp
  also have "\<dots> \<le> ?B" using e by simp
  finally have "fl64 x \<le> ?B"
    using fl64_le_grid [OF assms(1), of "2 ^ nat (exponent2 y - ulp_exp x)"]
      powi2_grid [of "ulp_exp x" "exponent2 y"] e lt by (simp add: ulp64_def)
  also have "\<dots> \<le> fl64 y"
    using fl64_ge_grid [of y "2 ^ nat (exponent2 y - ulp_exp y)"] exponent2_bounds(1) [of y] assms
      powi2_grid [of "ulp_exp y" "exponent2 y"] e by (simp add: ulp64_def)
  finally show ?thesis .
qed

lemma fl64_mono:
  assumes "x \<le> y"
  shows "fl64 x \<le> fl64 y"
proof -
  consider "0 < x" | "x \<le> 0" "0 \<le> y" | "y < 0" by linarith
  then show ?thesis
  proof cases
    case 1
    then show ?thesis using assms by (rule fl64_mono_pos)
  next
    case 2
    then show ?thesis using fl64_nonneg [of "- x"] fl64_nonneg [of y] by (simp add: fl64_minus)
  next
    case 3
    then show ?thesis using assms fl64_mono_pos [of "- y" "- x"] by (simp add: fl64_minus)
  qed
qed

lemma fl64_exact_pos:
  assumes "0 < m" and "m < 2 ^ 53" and "- 1074 \<le> k"
  shows "fl64 (of_int m * 2 powi k) = of_int m * 2 powi k"
proof -
  define v :: rat where "v = of_int m * 2 powi k"
  have v: "0 < v" using assms(1) by (simp add: v_def)
  have "of_int m < (of_int (2 ^ 53) :: rat)" using assms(2) by (simp only: of_int_less_iff)
  also have "\<dots> = 2 powi 53" by (simp add: power_int_def)
  finally have "v < 2 powi 53 * 2 powi k" unfolding v_def by (rule mult_strict_right_mono) simp
  then have "(2 :: rat) powi exponent2 v < 2 powi (53 + k)"
    using exponent2_bounds(1) [OF v] by (simp only: powi2_split)
  then have "ulp_exp v \<le> k" using assms(3) by (simp add: ulp_exp_def)
  then have "(2 :: rat) powi k = of_int (2 ^ nat (k - ulp_exp v)) * ulp64 v"
    unfolding ulp64_def by (rule powi2_grid)
  then have g: "v = of_int (m * 2 ^ nat (k - ulp_exp v)) * ulp64 v"
    by (simp only: v_def of_int_mult mult.assoc)
  have "fl64 v = v"
    using fl64_le_grid [OF v, of "m * 2 ^ nat (k - ulp_exp v)"]
      fl64_ge_grid [OF v, of "m * 2 ^ nat (k - ulp_exp v)"] g by (metis order_antisym order_refl)
  then show ?thesis by (simp add: v_def)
qed

lemma fl64_exact:
  assumes "\<bar>m\<bar> < 2 ^ 53" and "- 1074 \<le> k"
  shows "fl64 (of_int m * 2 powi k) = of_int m * 2 powi k"
  using fl64_exact_pos [of m k] fl64_exact_pos [of "- m" k] assms fl64_minus [of "of_int m * 2 powi k"]
  by (cases m "0 :: int" rule: linorder_cases) auto

lemma fl64_of_int: "\<bar>m\<bar> < 2 ^ 53 \<Longrightarrow> fl64 (of_int m) = of_int m"
  using fl64_exact [of m 0] by simp

section \<open>What the bounds proofs need of a rounding function\<close>

locale rounding =
  fixes rnd :: "rat \<Rightarrow> rat"
  assumes rnd_mono: "x \<le> y \<Longrightarrow> rnd x \<le> rnd y"
    and rnd_int: "\<bar>m\<bar> < 2 ^ 53 \<Longrightarrow> rnd (of_int m) = of_int m"
begin

lemma rnd_between:
  assumes "of_int a \<le> x" and "x \<le> of_int b" and "\<bar>a\<bar> < 2 ^ 53" and "\<bar>b\<bar> < 2 ^ 53"
  shows "of_int a \<le> rnd x \<and> rnd x \<le> of_int b"
  using rnd_mono [OF assms(1)] rnd_mono [OF assms(2)] rnd_int assms(3,4) by simp

text \<open>The product of a random draw and a width stays between zero and the width.\<close>

lemma rnd_scale:
  assumes "0 \<le> r" and "r \<le> 1" and "0 \<le> w" and "w < 2 ^ 53"
  shows "0 \<le> rnd (r * of_int w) \<and> rnd (r * of_int w) \<le> of_int w"
proof -
  have "r * of_int w \<le> 1 * of_int w" using assms by (intro mult_right_mono) auto
  with assms show ?thesis using rnd_between [of 0 "r * of_int w" w] by simp
qed

text \<open>\<open>Float64() * w + c\<close>, the shape of every reading the simulator draws.\<close>

lemma rnd_affine:
  assumes "0 \<le> r" and "r \<le> 1" and "0 \<le> w" and "0 \<le> c" and "w + c < 2 ^ 53"
  shows "of_int c \<le> rnd (rnd (r * of_int w) + of_int c) \<and> rnd (rnd (r * of_int w) + of_int c) \<le> of_int (w + c)"
  using rnd_between [of c "rnd (r * of_int w) + of_int c" "w + c"] rnd_scale [of r w] assms by simp

text \<open>\<open>lo + Float64() * (hi - lo)\<close>, with the width rounded too.\<close>

lemma rnd_lerp:
  assumes "0 \<le> r" and "r \<le> 1" and "0 \<le> lo" and "lo \<le> hi" and "hi < 2 ^ 53"
  shows "of_int lo \<le> rnd (of_int lo + rnd (r * rnd (of_int hi - of_int lo)))
    \<and> rnd (of_int lo + rnd (r * rnd (of_int hi - of_int lo))) \<le> of_int hi"
proof -
  have "rnd (of_int hi - of_int lo) = of_int (hi - lo)" using rnd_int [of "hi - lo"] assms by simp
  then show ?thesis using rnd_affine [of r "hi - lo" lo] assms by (simp add: add.commute)
qed

end

interpretation f64: rounding fl64
  by unfold_locales (auto intro: fl64_mono fl64_of_int)

end
