(* ===== verification/Go_Fmt.thy ===== *)
theory Go_Fmt
  imports Go_Float
begin

text \<open>
  The parts of Go's package \<^verbatim>\<open>fmt\<close> that the program's identifiers and messages go through:
  decimal output with zero padding (\<^verbatim>\<open>%d\<close>, \<^verbatim>\<open>%04d\<close>, \<^verbatim>\<open>%05d\<close>), \<^verbatim>\<open>%.1f\<close>, and the scanning of
  a decimal \<open>uint16\<close> by \<^verbatim>\<open>Sscanf\<close>. Strings are byte strings (\<^typ>\<open>string\<close>). The scanner treats
  the ASCII spaces as Go does; a non-ASCII space character is an ordinary byte here, and such
  an identifier is refused by the caller in either case.
\<close>

section \<open>Decimal output\<close>

definition digit_char :: "nat \<Rightarrow> char" where
  "digit_char d = char_of (48 + d)"

fun show_dec :: "nat \<Rightarrow> string" where
  "show_dec n = (if n < 10 then [digit_char n] else show_dec (n div 10) @ [digit_char (n mod 10)])"

declare show_dec.simps [simp del]

definition pad_dec :: "nat \<Rightarrow> nat \<Rightarrow> string" where
  "pad_dec w n = replicate (w - length (show_dec n)) (CHR ''0'') @ show_dec n"

text \<open>\<^verbatim>\<open>%.1f\<close>: the exact value rounded to one decimal place, ties to even.\<close>

definition fmt_1f :: "rat \<Rightarrow> string" where
  "fmt_1f x =
     (let n = nat (round_half_even (\<bar>x\<bar> * 10))
      in (if x < 0 then ''-'' else []) @ show_dec (n div 10) @ ''.'' @ show_dec (n mod 10))"

section \<open>Scanning\<close>

definition is_digit :: "char \<Rightarrow> bool" where
  "is_digit c \<longleftrightarrow> 48 \<le> (of_char c :: nat) \<and> (of_char c :: nat) \<le> 57"

definition read_dec :: "string \<Rightarrow> nat" where
  "read_dec s = foldl (\<lambda>a c. 10 * a + (of_char c - 48)) 0 s"

text \<open>\<^verbatim>\<open>ss.SkipSpace\<close> when a newline does not count as a space: a newline is an error (\<open>None\<close>).\<close>

fun skip_space :: "string \<Rightarrow> string option" where
  "skip_space [] = Some []"
| "skip_space (c # cs) =
     (if c = CHR 0x0A then None
      else if c \<in> {CHR '' '', CHR 0x09, CHR 0x0B, CHR 0x0C, CHR 0x0D} then skip_space cs
      else Some (c # cs))"

text \<open>
  \<^verbatim>\<open>Sscanf(s, lit + "%d", &id)\<close> for an \<^verbatim>\<open>id uint16\<close>: the literal must match, spaces before the
  number are skipped, the longest run of digits is read and must be non-empty and fit 16 bits;
  what follows the number is ignored.
\<close>

definition sscanf_u16 :: "string \<Rightarrow> string \<Rightarrow> 16 word option" where
  "sscanf_u16 lit s =
     (if take (length lit) s \<noteq> lit then None
      else case skip_space (drop (length lit) s) of
        None \<Rightarrow> None
      | Some rest \<Rightarrow>
          (let tok = takeWhile is_digit rest
           in if tok = [] then None
              else if 2 ^ 16 \<le> read_dec tok then None
              else Some (of_nat (read_dec tok))))"

section \<open>What is printed is read back\<close>

lemma is_digit_digit_char [simp]: "d < 10 \<Longrightarrow> is_digit (digit_char d)"
  by (simp add: is_digit_def digit_char_def of_char_of)

lemma of_char_digit_char [simp]: "d < 10 \<Longrightarrow> (of_char (digit_char d) :: nat) = 48 + d"
  by (simp add: digit_char_def of_char_of)

lemma show_dec_digits: "\<forall>c \<in> set (show_dec n). is_digit c"
proof (induction n rule: show_dec.induct)
  case (1 n)
  then show ?case by (subst show_dec.simps) auto
qed

lemma show_dec_not_Nil [simp]: "show_dec n \<noteq> []"
  by (subst show_dec.simps) simp

lemma read_dec_snoc: "read_dec (s @ [c]) = 10 * read_dec s + (of_char c - 48)"
  by (simp add: read_dec_def)

lemma read_dec_zeros: "read_dec (replicate k (CHR ''0'') @ s) = read_dec s"
  by (induction k) (simp_all add: read_dec_def)

lemma read_show_dec: "read_dec (show_dec n) = n"
proof (induction n rule: show_dec.induct)
  case (1 n)
  show ?case
  proof (cases "n < 10")
    case True
    then show ?thesis by (subst show_dec.simps) (simp add: read_dec_def)
  next
    case False
    with 1 show ?thesis by (subst show_dec.simps) (simp add: read_dec_snoc)
  qed
qed

lemma read_pad_dec [simp]: "read_dec (pad_dec w n) = n"
  by (simp add: pad_dec_def read_dec_zeros read_show_dec)

lemma pad_dec_digits: "\<forall>c \<in> set (pad_dec w n). is_digit c"
  using show_dec_digits [of n] by (auto simp: pad_dec_def is_digit_def)

lemma pad_dec_not_Nil [simp]: "pad_dec w n \<noteq> []"
  by (simp add: pad_dec_def)

lemma pad_dec_inject [simp]: "pad_dec w n = pad_dec w m \<longleftrightarrow> n = m"
  by (metis read_pad_dec)

lemma skip_space_digit: "is_digit c \<Longrightarrow> skip_space (c # cs) = Some (c # cs)"
  by (auto simp: is_digit_def)

lemma skip_space_pad_dec: "skip_space (pad_dec w n) = Some (pad_dec w n)"
  using pad_dec_digits [of w n] by (cases "pad_dec w n") (auto simp: skip_space_digit simp del: skip_space.simps)

lemma takeWhile_pad_dec: "takeWhile is_digit (pad_dec w n) = pad_dec w n"
  using pad_dec_digits by (simp add: takeWhile_eq_all_conv)

lemma sscanf_pad_dec:
  "n < 2 ^ 16 \<Longrightarrow> sscanf_u16 lit (lit @ pad_dec w n) = Some (of_nat n)"
  by (simp add: sscanf_u16_def skip_space_pad_dec takeWhile_pad_dec)

lemma length_show_dec: "n < 10 ^ Suc k \<Longrightarrow> length (show_dec n) \<le> Suc k"
proof (induction k arbitrary: n)
  case 0
  then show ?case by (subst show_dec.simps) simp
next
  case (Suc k)
  have "n div 10 < 10 ^ Suc k" using Suc.prems by (simp add: less_mult_imp_div_less)
  with Suc.IH have "length (show_dec (n div 10)) \<le> Suc k" by blast
  then show ?case by (subst show_dec.simps) simp
qed

lemma length_pad_dec: "n < 10 ^ Suc k \<Longrightarrow> length (pad_dec (Suc k) n) = Suc k"
  using length_show_dec [of n k] by (simp add: pad_dec_def)

end
