(* ===== verification/Gpu_Types.thy ===== *)
theory Gpu_Types
  imports Go_Fmt
begin

text \<open>
  The data of package \<^verbatim>\<open>gpu\<close>: the health snapshot (\<^verbatim>\<open>internal/gpu/model.go\<close>) and the hardware
  specifications (\<^verbatim>\<open>internal/gpu/specs.go\<close>). The string-based enumerations are datatypes with a
  constructor for every other string a client may send. Integers keep their width.
\<close>

section \<open>model.go\<close>

datatype HealthStatus = StatusHealthy | StatusWarning | StatusCritical | StatusOther string

datatype FailureType =
  FailureTypeNone | FailureTypeThermal | FailureTypePower | FailureTypeECCSingle | FailureTypeECCDouble
| FailureTypeOther string

definition ModelH100 :: string where "ModelH100 = ''H100''"
definition ModelA100 :: string where "ModelA100 = ''A100''"
definition ModelV100 :: string where "ModelV100 = ''V100''"
definition ModelA30 :: string where "ModelA30 = ''A30''"

lemmas model_names = ModelH100_def ModelA100_def ModelV100_def ModelA30_def

record Temperature =
  GPUCoreCelsius :: rat
  MemoryCelsius :: rat
  GPUCoreWarningThreshold :: rat
  GPUCoreCriticalThreshold :: rat
  MemoryWarningThreshold :: rat
  MemoryCriticalThreshold :: rat
  Throttling :: bool

record Memory =
  TotalBytes :: "64 word"
  UsedBytes :: "64 word"
  FreeBytes :: "64 word"
  MemUtilization :: rat
  ECCSingleBitErrors :: "8 word"
  ECCDoubleBitErrors :: "8 word"

record Power =
  DrawWatts :: rat
  LimitWatts :: rat
  PowUtilization :: rat
  PowerCapped :: bool

record GPUHealth =
  GPUID :: string
  NodeID :: string
  Slot :: "16 word"
  Model :: string
  Health :: HealthStatus
  Failure :: FailureType
  Timestamp :: time
  Utilization :: rat
  Temp :: Temperature
  Mem :: Memory
  Pow :: Power

section \<open>specs.go\<close>

record range64 =
  RMin :: rat
  RMax :: rat

definition mk_range :: "rat \<Rightarrow> rat \<Rightarrow> range64" where
  "mk_range lo hi = \<lparr>RMin = lo, RMax = hi\<rparr>"

text \<open>A Go map from the three statuses; a missing key reads as the zero range.\<close>

definition status_map :: "range64 \<Rightarrow> range64 \<Rightarrow> range64 \<Rightarrow> HealthStatus \<Rightarrow> range64" where
  "status_map h w c s =
     (case s of StatusHealthy \<Rightarrow> h | StatusWarning \<Rightarrow> w | StatusCritical \<Rightarrow> c | StatusOther _ \<Rightarrow> mk_range 0 0)"

definition defaultTempRanges :: "HealthStatus \<Rightarrow> range64" where
  "defaultTempRanges = status_map (mk_range 40 75) (mk_range 75 84) (mk_range 84 95)"

record GPUSpec =
  spec_model :: string
  maxPowerWatts :: rat
  memoryBytes :: "64 word"
  power :: "HealthStatus \<Rightarrow> range64"
  temperature :: "HealthStatus \<Rightarrow> range64"

definition GB :: "64 word" where
  "GB = 1024 * 1024 * 1024"

definition specH100 :: GPUSpec where
  "specH100 = \<lparr>spec_model = ModelH100, maxPowerWatts = 700, memoryBytes = 80 * GB,
     power = status_map (mk_range 400 650) (mk_range 650 680) (mk_range 680 700),
     temperature = defaultTempRanges\<rparr>"

definition specA100 :: GPUSpec where
  "specA100 = \<lparr>spec_model = ModelA100, maxPowerWatts = 400, memoryBytes = 80 * GB,
     power = status_map (mk_range 200 350) (mk_range 350 370) (mk_range 370 400),
     temperature = defaultTempRanges\<rparr>"

definition specV100 :: GPUSpec where
  "specV100 = \<lparr>spec_model = ModelV100, maxPowerWatts = 300, memoryBytes = 32 * GB,
     power = status_map (mk_range 150 270) (mk_range 270 290) (mk_range 290 300),
     temperature = defaultTempRanges\<rparr>"

definition specA30 :: GPUSpec where
  "specA30 = \<lparr>spec_model = ModelA30, maxPowerWatts = 165, memoryBytes = 24 * GB,
     power = status_map (mk_range 80 145) (mk_range 145 160) (mk_range 160 165),
     temperature = defaultTempRanges\<rparr>"

definition gpuSpecs :: "string \<rightharpoonup> GPUSpec" where
  "gpuSpecs = [ModelH100 \<mapsto> specH100, ModelA100 \<mapsto> specA100, ModelV100 \<mapsto> specV100, ModelA30 \<mapsto> specA30]"

definition SpecForModel :: "string \<Rightarrow> (string, GPUSpec) result" where
  "SpecForModel model =
     (case gpuSpecs model of
        None \<Rightarrow> Inl (model @ '' not found in GPU specs'')
      | Some gpuSpec \<Rightarrow> Inr gpuSpec)"

lemmas spec_defs [model_defs] = specH100_def specA100_def specV100_def specA30_def

lemma SpecForModel_known:
  "SpecForModel ModelH100 = Inr specH100" "SpecForModel ModelA100 = Inr specA100"
  "SpecForModel ModelV100 = Inr specV100" "SpecForModel ModelA30 = Inr specA30"
  by (simp_all add: SpecForModel_def gpuSpecs_def model_names)

text \<open>The four specifications are the only ones a lookup returns.\<close>

lemma SpecForModel_cases:
  assumes "SpecForModel m = Inr spec"
  obtains "spec = specH100" | "spec = specA100" | "spec = specV100" | "spec = specA30"
  using assms by (auto simp: SpecForModel_def gpuSpecs_def split: option.splits if_splits)

text \<open>
  The shape every specification has: the three ranges of a quantity abut, their end points
  are whole numbers, the hottest power range ends at the power limit.
\<close>

definition contiguous :: "(HealthStatus \<Rightarrow> range64) \<Rightarrow> bool" where
  "contiguous m \<longleftrightarrow>
     0 \<le> RMin (m StatusHealthy) \<and> RMin (m StatusHealthy) < RMax (m StatusHealthy) \<and>
     RMax (m StatusHealthy) = RMin (m StatusWarning) \<and> RMin (m StatusWarning) < RMax (m StatusWarning) \<and>
     RMax (m StatusWarning) = RMin (m StatusCritical) \<and> RMin (m StatusCritical) < RMax (m StatusCritical)"

lemma defaultTempRanges_simps [simp]:
  "defaultTempRanges StatusHealthy = mk_range 40 75"
  "defaultTempRanges StatusWarning = mk_range 75 84"
  "defaultTempRanges StatusCritical = mk_range 84 95"
  "defaultTempRanges (StatusOther s) = mk_range 0 0"
  by (simp_all add: defaultTempRanges_def status_map_def)

lemma mk_range_simps [simp]: "RMin (mk_range a b) = a" "RMax (mk_range a b) = b"
  by (simp_all add: mk_range_def)

lemma spec_temperature: "SpecForModel m = Inr spec \<Longrightarrow> temperature spec = defaultTempRanges"
  by (elim SpecForModel_cases) (simp_all add: spec_defs)

lemma spec_contiguous:
  assumes "SpecForModel m = Inr spec"
  shows "contiguous (power spec) \<and> contiguous (temperature spec)
    \<and> RMax (power spec StatusCritical) = maxPowerWatts spec"
  using assms by (elim SpecForModel_cases) (simp_all add: spec_defs contiguous_def status_map_def)

end
