(* ===== verification/Api_Types.thy ===== *)
theory Api_Types
  imports Gpu_Types
begin

text \<open>
  The custom resource of the operator (\<^verbatim>\<open>api/v1alpha1/gpuhealth_types.go\<close>): its specification, its
  status, and the string enumerations, each with a constructor for every other string the API
  server could hand out. Counters and timeouts are the 32-bit and generations the 64-bit signed
  integers of the source; optional timestamps are options.
\<close>

datatype RemediationPolicy =
  RemediationPolicyNone | RemediationPolicyDrain | RemediationPolicyReplace | RemediationPolicyEscalate
| RemediationPolicyOther string

datatype GPUPhase =
  PhaseNewCR | PhaseHealthy | PhaseWarning | PhaseCritical | PhaseDraining | PhaseRecovering
| PhaseReplacing | PhaseRejoining | PhaseFailed | PhaseOther string

datatype FindingType =
  FindingXIDError | FindingECCSingleBitError | FindingECCDoubleBitError | FindingGPUThermalThrottle
| FindingMemoryThermalThrottle | FindingMemoryLeak | FindingPowerCapped | FindingLowUtilization
| FindingUnknown | FindingOther string

definition FindingSeverityWarning :: string where "FindingSeverityWarning = ''Warning''"
definition FindingSeverityCritical :: string where "FindingSeverityCritical = ''Critical''"

record CRFinding =
  Type :: FindingType
  CRSeverity :: string
  Message :: string
  Count :: "32 word"
  ObservedAt :: time

definition ConditionGPUHealthy :: string where "ConditionGPUHealthy = ''GPUHealthy''"
definition ConditionRemediationInProgress :: string where "ConditionRemediationInProgress = ''RemediationInProgress''"
definition ConditionEscalationRequired :: string where "ConditionEscalationRequired = ''EscalationRequired''"

lemmas condition_types = ConditionGPUHealthy_def ConditionRemediationInProgress_def ConditionEscalationRequired_def

text \<open>The fields of \<^verbatim>\<open>metav1.Condition\<close> that the controller sets, and the time the library keeps.\<close>

record Condition =
  CondType :: string
  CondStatus :: bool  \<comment> \<open>\<^verbatim>\<open>metav1.ConditionTrue\<close> or \<^verbatim>\<open>metav1.ConditionFalse\<close>\<close>
  CondObservedGeneration :: "64 word"
  Reason :: string
  CondMessage :: string
  CondTransition :: time

record GPUHealthSpec =
  NodeName :: string
  SpecGPUID :: string
  RemediationPolicy :: RemediationPolicy
  MaxRemediationAttempts :: "32 word"
  ReplacementTimeoutSeconds :: "32 word"
  RejoiningTimeoutSeconds :: "32 word"

record GPUHealthStatus =
  Phase :: GPUPhase
  ReplacementStartedAt :: "time option"
  Conditions :: "Condition list"
  StatusFindings :: "CRFinding list"
  RemediationAttempts :: "32 word"
  LastTransitionTime :: "time option"
  ObservedGeneration :: "64 word"

text \<open>The resource, with the fields of its metadata that the controller or the API server reads.\<close>

record GPUHealthCR =
  Name :: string
  UID :: string
  ResourceVersion :: string
  Generation :: "64 word"
  Spec :: GPUHealthSpec
  Status :: GPUHealthStatus

abbreviation phase :: "GPUHealthCR \<Rightarrow> GPUPhase" where
  "phase cr \<equiv> Phase (Status cr)"

abbreviation attempts_of :: "GPUHealthCR \<Rightarrow> 32 word" where
  "attempts_of cr \<equiv> RemediationAttempts (Status cr)"

abbreviation policy :: "GPUHealthCR \<Rightarrow> RemediationPolicy" where
  "policy cr \<equiv> RemediationPolicy (Spec cr)"

text \<open>Assignments to fields of \<^verbatim>\<open>gpuCR.Status\<close>.\<close>

definition set_phase :: "GPUPhase \<Rightarrow> GPUHealthCR \<Rightarrow> GPUHealthCR" where
  "set_phase p cr = cr\<lparr>Status := (Status cr)\<lparr>Phase := p\<rparr>\<rparr>"

definition set_attempts :: "32 word \<Rightarrow> GPUHealthCR \<Rightarrow> GPUHealthCR" where
  "set_attempts n cr = cr\<lparr>Status := (Status cr)\<lparr>RemediationAttempts := n\<rparr>\<rparr>"

definition set_started :: "time option \<Rightarrow> GPUHealthCR \<Rightarrow> GPUHealthCR" where
  "set_started t cr = cr\<lparr>Status := (Status cr)\<lparr>ReplacementStartedAt := t\<rparr>\<rparr>"

definition set_transition :: "time option \<Rightarrow> GPUHealthCR \<Rightarrow> GPUHealthCR" where
  "set_transition t cr = cr\<lparr>Status := (Status cr)\<lparr>LastTransitionTime := t\<rparr>\<rparr>"

definition set_conditions :: "Condition list \<Rightarrow> GPUHealthCR \<Rightarrow> GPUHealthCR" where
  "set_conditions cs cr = cr\<lparr>Status := (Status cr)\<lparr>Conditions := cs\<rparr>\<rparr>"

definition set_findings :: "CRFinding list \<Rightarrow> GPUHealthCR \<Rightarrow> GPUHealthCR" where
  "set_findings fs cr = cr\<lparr>Status := (Status cr)\<lparr>StatusFindings := fs\<rparr>\<rparr>"

definition set_observed :: "64 word \<Rightarrow> GPUHealthCR \<Rightarrow> GPUHealthCR" where
  "set_observed n cr = cr\<lparr>Status := (Status cr)\<lparr>ObservedGeneration := n\<rparr>\<rparr>"

lemmas set_status_defs = set_phase_def set_attempts_def set_started_def set_transition_def
  set_conditions_def set_findings_def set_observed_def

end
