(* ===== verification/Findings.thy ===== *)
theory Findings
  imports Api_Types
begin

text \<open>
  The findings the operator records in the status of a resource (\<^verbatim>\<open>mergeFindings\<close> of
  \<^verbatim>\<open>internal/controller/gpuhealth_controller.go\<close>). A merge keeps one finding per type, moves what
  was seen again to the tail, and drops the oldest beyond the limit; the lemmas state this as the
  effect on the list seen as a map by type.
\<close>

section \<open>Candidates\<close>

definition candidate :: "FindingType \<Rightarrow> string \<Rightarrow> string \<Rightarrow> 32 word \<Rightarrow> CRFinding" where
  "candidate ty sev msg n = \<lparr>Type = ty, CRSeverity = sev, Message = msg, Count = n, ObservedAt = 0\<rparr>"

definition ecc_candidates :: "GPUHealth \<Rightarrow> CRFinding list" where
  "ecc_candidates tel =
     (if ECCSingleBitErrors (Mem tel) \<ge> 6 then
        [candidate FindingECCSingleBitError FindingSeverityWarning ''ECC single-bit errors detected''
           (ucast (ECCSingleBitErrors (Mem tel)))] else []) @
     (if ECCDoubleBitErrors (Mem tel) > 0 then
        [candidate FindingECCDoubleBitError FindingSeverityCritical
           ''ECC double-bit errors detected, immediate action required'' (ucast (ECCDoubleBitErrors (Mem tel)))] else [])"

definition core_candidates :: "GPUHealth \<Rightarrow> CRFinding list" where
  "core_candidates tel =
     (let t = Temp tel
      in if GPUCoreCriticalThreshold t > 0 \<and> GPUCoreCelsius t \<ge> GPUCoreCriticalThreshold t then
           [candidate FindingGPUThermalThrottle FindingSeverityCritical ''GPU core temperature critical'' 0]
         else if GPUCoreWarningThreshold t > 0 \<and> GPUCoreCelsius t \<ge> GPUCoreWarningThreshold t then
           [candidate FindingGPUThermalThrottle FindingSeverityWarning ''GPU core temperature elevated'' 0]
         else [])"

definition memory_candidates :: "GPUHealth \<Rightarrow> CRFinding list" where
  "memory_candidates tel =
     (let t = Temp tel
      in if MemoryCriticalThreshold t > 0 \<and> MemoryCelsius t \<ge> MemoryCriticalThreshold t then
           [candidate FindingMemoryThermalThrottle FindingSeverityCritical ''Memory temperature critical'' 0]
         else if MemoryWarningThreshold t > 0 \<and> MemoryCelsius t \<ge> MemoryWarningThreshold t then
           [candidate FindingMemoryThermalThrottle FindingSeverityWarning ''Memory temperature elevated'' 0]
         else [])"

definition power_candidates :: "GPUHealth \<Rightarrow> CRFinding list" where
  "power_candidates tel =
     (if PowerCapped (Pow tel) then [candidate FindingPowerCapped FindingSeverityCritical ''GPU power capped'' 0] else [])"

definition candidates :: "GPUHealth \<Rightarrow> CRFinding list" where
  "candidates tel = ecc_candidates tel @ core_candidates tel @ memory_candidates tel @ power_candidates tel"

section \<open>Merging\<close>

fun IndexFunc :: "('a \<Rightarrow> bool) \<Rightarrow> 'a list \<Rightarrow> nat option" where
  "IndexFunc P [] = None"
| "IndexFunc P (x # xs) = (if P x then Some 0 else map_option Suc (IndexFunc P xs))"

definition seen_again :: "time \<Rightarrow> CRFinding \<Rightarrow> CRFinding \<Rightarrow> CRFinding" where
  "seen_again ts c f =
     (if 0 <s Count c then f\<lparr>Count := Count c, ObservedAt := ts\<rparr>
      else f\<lparr>Count := Count f + 1, CRSeverity := CRSeverity c, Message := Message c, ObservedAt := ts\<rparr>)"

definition first_seen :: "time \<Rightarrow> CRFinding \<Rightarrow> CRFinding" where
  "first_seen ts c =
     \<lparr>Type = Type c, CRSeverity = CRSeverity c, Message = Message c,
      Count = (if 1 <s Count c then Count c else 1), ObservedAt = ts\<rparr>"

definition merge_one :: "time \<Rightarrow> CRFinding \<Rightarrow> CRFinding list \<Rightarrow> CRFinding list" where
  "merge_one ts c existing =
     (case IndexFunc (\<lambda>f. Type f = Type c) existing of
        Some i \<Rightarrow> take i existing @ drop (Suc i) existing @ [seen_again ts c (existing ! i)]
      | None \<Rightarrow> existing @ [first_seen ts c])"

definition mergeFindings :: "time \<Rightarrow> CRFinding list \<Rightarrow> GPUHealth \<Rightarrow> nat \<Rightarrow> CRFinding list" where
  "mergeFindings ts existing tel maxSize =
     (let existing = fold (merge_one ts) (candidates tel) existing
      in if length existing > maxSize then drop (length existing - maxSize) existing else existing)"

section \<open>The list as a map by type\<close>

definition finding_of :: "CRFinding list \<Rightarrow> FindingType \<Rightarrow> CRFinding option" where
  "finding_of fs ty = map_of (map (\<lambda>f. (Type f, f)) fs) ty"

abbreviation one_per_type :: "CRFinding list \<Rightarrow> bool" where
  "one_per_type fs \<equiv> distinct (map Type fs)"

lemma candidate_groups:
  "map Type (ecc_candidates tel) \<in> {[], [FindingECCSingleBitError], [FindingECCDoubleBitError],
     [FindingECCSingleBitError, FindingECCDoubleBitError]}"
  "map Type (core_candidates tel) \<in> {[], [FindingGPUThermalThrottle]}"
  "map Type (memory_candidates tel) \<in> {[], [FindingMemoryThermalThrottle]}"
  "map Type (power_candidates tel) \<in> {[], [FindingPowerCapped]}"
  by (simp_all add: ecc_candidates_def core_candidates_def memory_candidates_def power_candidates_def candidate_def Let_def)

lemma candidates_one_per_type: "one_per_type (candidates tel)"
  using candidate_groups [of tel] unfolding candidates_def map_append by (elim insertE emptyE) simp_all

lemma length_candidates: "length (candidates tel) \<le> 5"
  by (simp add: candidates_def ecc_candidates_def core_candidates_def memory_candidates_def
      power_candidates_def Let_def)

lemma IndexFunc_None: "IndexFunc P xs = None \<longleftrightarrow> (\<forall>x \<in> set xs. \<not> P x)"
  by (induction xs) auto

lemma IndexFunc_Some:
  "IndexFunc P xs = Some i \<Longrightarrow> i < length xs \<and> P (xs ! i) \<and> (\<forall>j < i. \<not> P (xs ! j)) \<and>
     xs = take i xs @ xs ! i # drop (Suc i) xs"
proof (induction xs arbitrary: i)
  case (Cons x xs)
  then show ?case by (auto split: if_splits simp: less_Suc_eq_0_disj)
qed simp

lemma Type_seen_again [simp]: "Type (seen_again ts c f) = Type f"
  by (simp add: seen_again_def)

lemma Type_first_seen [simp]: "Type (first_seen ts c) = Type c"
  by (simp add: first_seen_def)

lemma finding_of_append:
  "finding_of (xs @ ys) ty = (case finding_of xs ty of None \<Rightarrow> finding_of ys ty | Some f \<Rightarrow> Some f)"
  by (simp add: finding_of_def map_add_def split: option.splits)

lemma finding_of_None: "finding_of fs ty = None \<longleftrightarrow> ty \<notin> Type ` set fs"
  by (auto simp: finding_of_def map_of_eq_None_iff image_image)

lemma finding_of_Some: "one_per_type fs \<Longrightarrow> finding_of fs ty = Some f \<longleftrightarrow> f \<in> set fs \<and> Type f = ty"
proof -
  assume "one_per_type fs"
  then have "distinct (map fst (map (\<lambda>f. (Type f, f)) fs))" by (simp add: comp_def)
  then show ?thesis by (auto simp: finding_of_def dest: map_of_SomeD)
qed

section \<open>Reference definition of a merge\<close>

definition merged :: "time \<Rightarrow> CRFinding list \<Rightarrow> CRFinding \<Rightarrow> CRFinding" where
  "merged ts fs c = (case finding_of fs (Type c) of None \<Rightarrow> first_seen ts c | Some f \<Rightarrow> seen_again ts c f)"

definition merge_spec :: "time \<Rightarrow> CRFinding list \<Rightarrow> CRFinding list \<Rightarrow> CRFinding list" where
  "merge_spec ts cs fs = filter (\<lambda>f. Type f \<notin> Type ` set cs) fs @ map (merged ts fs) cs"

lemma Type_merged [simp]: "one_per_type fs \<Longrightarrow> Type (merged ts fs c) = Type c"
  by (auto simp: merged_def finding_of_Some split: option.splits)

lemma filter_other_types:
  assumes "one_per_type (xs @ f # ys)"
  shows "filter (\<lambda>g. Type g \<noteq> Type f) (xs @ f # ys) = xs @ ys"
proof -
  have "Type f \<notin> Type ` set xs" "Type f \<notin> Type ` set ys" using assms by simp_all
  then have "filter (\<lambda>g. Type g \<noteq> Type f) xs = xs" "filter (\<lambda>g. Type g \<noteq> Type f) ys = ys"
    unfolding filter_id_conv by (metis image_eqI)+
  then show ?thesis by simp
qed

lemma merge_one_eq:
  assumes "one_per_type fs"
  shows "merge_one ts c fs = filter (\<lambda>f. Type f \<noteq> Type c) fs @ [merged ts fs c]"
proof (cases "IndexFunc (\<lambda>f. Type f = Type c) fs")
  case None
  then have none: "\<forall>f \<in> set fs. Type f \<noteq> Type c" by (simp add: IndexFunc_None)
  then have "finding_of fs (Type c) = None" by (auto simp: finding_of_None)
  then show ?thesis using None none by (simp add: merge_one_def merged_def)
next
  case (Some i)
  define f where "f = fs ! i"
  have f: "Type f = Type c" "f \<in> set fs" and split: "fs = take i fs @ f # drop (Suc i) fs"
    using IndexFunc_Some [OF Some] unfolding f_def by (blast intro: nth_mem)+
  have "finding_of fs (Type c) = Some f" using finding_of_Some [OF assms] f by simp
  moreover have "filter (\<lambda>g. Type g \<noteq> Type c) fs = take i fs @ drop (Suc i) fs"
    using filter_other_types [of "take i fs" f "drop (Suc i) fs", folded split, OF assms] f(1) by simp
  ultimately show ?thesis using Some by (simp add: merge_one_def merged_def f_def)
qed

lemma one_per_type_merge_one:
  assumes "one_per_type fs"
  shows "one_per_type (merge_one ts c fs)"
  using assms by (auto simp: merge_one_eq distinct_map_filter)

lemma finding_of_other:
  "Type c \<noteq> ty \<Longrightarrow> finding_of (filter (\<lambda>f. Type f \<noteq> Type c) fs @ [g]) ty = (if Type g = ty \<and> finding_of fs ty = None then Some g else finding_of fs ty)"
  by (induction fs) (auto simp: finding_of_def)

lemma fold_merge_one:
  "one_per_type fs \<Longrightarrow> one_per_type cs \<Longrightarrow> fold (merge_one ts) cs fs = merge_spec ts cs fs"
proof (induction cs arbitrary: fs)
  case (Cons c cs)
  let ?fs = "merge_one ts c fs"
  have c: "Type c \<notin> Type ` set cs" using Cons.prems(2) by simp
  have "merged ts ?fs c' = merged ts fs c'" if "c' \<in> set cs" for c'
  proof -
    have "Type c \<noteq> Type c'" using c that by force
    then show ?thesis using Cons.prems(1) by (simp add: merged_def [of ts _ c'] merge_one_eq finding_of_other)
  qed
  moreover have "filter (\<lambda>f. Type f \<notin> Type ` set cs) ?fs =
      filter (\<lambda>f. Type f \<notin> Type ` set (c # cs)) fs @ [merged ts fs c]"
    using c Cons.prems(1) by (simp add: merge_one_eq conj_commute)
  ultimately show ?case
    using Cons.IH [OF one_per_type_merge_one [OF Cons.prems(1)]] Cons.prems by (simp add: merge_spec_def cong: map_cong)
qed (simp add: merge_spec_def)

lemma mergeFindings_eq:
  assumes "one_per_type fs"
  shows "mergeFindings ts fs tel n =
    drop (length (merge_spec ts (candidates tel) fs) - n) (merge_spec ts (candidates tel) fs)"
  using assms by (simp add: mergeFindings_def fold_merge_one candidates_one_per_type Let_def)

lemma length_mergeFindings: "length (mergeFindings ts fs tel n) \<le> n"
  by (simp add: mergeFindings_def Let_def)

lemma merge_spec_one_per_type:
  assumes "one_per_type fs" and "one_per_type cs"
  shows "one_per_type (merge_spec ts cs fs)"
  using assms by (auto simp: merge_spec_def distinct_map_filter comp_def)

lemma mergeFindings_one_per_type: "one_per_type fs \<Longrightarrow> one_per_type (mergeFindings ts fs tel n)"
  using merge_spec_one_per_type [OF _ candidates_one_per_type]
  by (simp add: mergeFindings_eq distinct_map_drop del: drop_map)

text \<open>Nothing seen in this snapshot is dropped: the limit is larger than what one snapshot can add.\<close>

lemma mergeFindings_tail:
  assumes "one_per_type fs" and "5 \<le> n"
  shows "\<exists>kept. mergeFindings ts fs tel n = kept @ map (merged ts fs) (candidates tel)"
proof -
  let ?k = "filter (\<lambda>f. Type f \<notin> Type ` set (candidates tel)) fs"
  have "length (merge_spec ts (candidates tel) fs) - n \<le> length ?k"
    using length_candidates [of tel] assms(2) by (simp add: merge_spec_def)
  then show ?thesis unfolding mergeFindings_eq [OF assms(1)] by (auto simp: merge_spec_def)
qed

end
