(* ===== verification/Kube.thy ===== *)
theory Kube
  imports Findings
begin

text \<open>
  What the operator calls and is not part of the program: the Kubernetes API server, the HTTP
  client, the clock and \<^verbatim>\<open>meta.SetStatusCondition\<close>. They are the fields of a record \<open>kube\<close> of functions on
  an arbitrary world, a parameter of every operation of the controller; a computation of the
  controller passes the world along, may end in an error, and returns the list of the calls it
  made with the replies. Statements about the controller are statements about that list. The named
  hypotheses on the record are \<open>faithful_server\<close> and \<open>condition_law\<close>.
\<close>

section \<open>Objects and errors\<close>

record Node =
  NodeNm :: string
  NodeVersion :: string
  Unschedulable :: bool
  NodeConditions :: "(string \<times> string) list"  \<comment> \<open>type and status\<close>

record Pod =
  PodName :: string
  PodNamespace :: string
  OwnerKinds :: "string list"
  PodPhase :: string

datatype kerror = KNotFound | KConflict | KTooManyRequests | KOther string

datatype http_method = MethodGet | MethodPut

record http_reply =
  StatusCode :: nat
  Body :: "GPUHealth option"  \<comment> \<open>what decoding the body as a health snapshot yields\<close>

datatype cerror =
  ApiError kerror
| UpdatingStatus string cerror
| Uncordoning string
| BuildingRequest string string
| RequestFailed string string
| UnexpectedCode string nat
| DecodingTelemetry string
| GPUUnrecoverable string
| UnexpectedHealth HealthStatus
| UnexpectedPolicy RemediationPolicy
| UnexpectedPhase GPUPhase
| NilDereference

record 'w kube =
  get_cr :: "string \<Rightarrow> 'w \<Rightarrow> (kerror, GPUHealthCR) result \<times> 'w"
  get_node :: "string \<Rightarrow> 'w \<Rightarrow> (kerror, Node) result \<times> 'w"
  update_node :: "Node \<Rightarrow> 'w \<Rightarrow> kerror option \<times> 'w"
  list_pods :: "string \<Rightarrow> 'w \<Rightarrow> (kerror, Pod list) result \<times> 'w"
  create_eviction :: "string \<Rightarrow> string \<Rightarrow> 'w \<Rightarrow> kerror option \<times> 'w"
  update_status :: "GPUHealthCR \<Rightarrow> 'w \<Rightarrow> (kerror, GPUHealthCR) result \<times> 'w"
  valid_url :: "string \<Rightarrow> bool"
  http_do :: "http_method \<Rightarrow> string \<Rightarrow> 'w \<Rightarrow> (string, http_reply) result \<times> 'w"
  read_clock :: "'w \<Rightarrow> time \<times> 'w"
  set_condition :: "Condition \<Rightarrow> Condition list \<Rightarrow> 'w \<Rightarrow> Condition list \<times> 'w"

section \<open>Calls\<close>

datatype call =
  GotCR string "(kerror, GPUHealthCR) result"
| GotNode string "(kerror, Node) result"
| PutNode Node "kerror option"
| Listed string "(kerror, Pod list) result"
| Evict string string "kerror option"
| PutStatus GPUHealthCR "(kerror, GPUHealthCR) result"
| InSync GPUHealthCR  \<comment> \<open>no call: the status computed is the one the server has\<close>
| Http http_method string "(string, http_reply) result"
| ReadClock time

type_synonym ('w, 'a) comp = "'w \<Rightarrow> (cerror, 'a) result \<times> call list \<times> 'w"

definition ret :: "'a \<Rightarrow> ('w, 'a) comp" where
  "ret a = (\<lambda>w. (Inr a, [], w))"

definition fail :: "cerror \<Rightarrow> ('w, 'a) comp" where
  "fail e = (\<lambda>w. (Inl e, [], w))"

definition bindE :: "('w, 'a) comp \<Rightarrow> ('a \<Rightarrow> ('w, 'b) comp) \<Rightarrow> ('w, 'b) comp" where
  "bindE m f = (\<lambda>w. case m w of
       (Inl e, cs, w') \<Rightarrow> (Inl e, cs, w')
     | (Inr a, cs, w') \<Rightarrow> (case f a w' of (r, cs', w'') \<Rightarrow> (r, cs @ cs', w'')))"

definition tried :: "('w, 'a) comp \<Rightarrow> ('w, (cerror, 'a) result) comp" where
  "tried m = (\<lambda>w. case m w of (r, cs, w') \<Rightarrow> (Inr r, cs, w'))"

definition wrap :: "(cerror \<Rightarrow> cerror) \<Rightarrow> ('w, 'a) comp \<Rightarrow> ('w, 'a) comp" where
  "wrap h m = (\<lambda>w. case m w of (Inl e, cs, w') \<Rightarrow> (Inl (h e), cs, w') | (Inr a, cs, w') \<Rightarrow> (Inr a, cs, w'))"

definition emit :: "call \<Rightarrow> ('w, unit) comp" where
  "emit c = (\<lambda>w. (Inr (), [c], w))"

text \<open>The calls themselves; the last three hand their reply on for the caller to inspect.\<close>

definition getCR :: "'w kube \<Rightarrow> string \<Rightarrow> ('w, GPUHealthCR) comp" where
  "getCR k n = (\<lambda>w. case get_cr k n w of (r, w') \<Rightarrow> (map_sum ApiError id r, [GotCR n r], w'))"

definition getNode :: "'w kube \<Rightarrow> string \<Rightarrow> ('w, Node) comp" where
  "getNode k n = (\<lambda>w. case get_node k n w of (r, w') \<Rightarrow> (map_sum ApiError id r, [GotNode n r], w'))"

definition listPods :: "'w kube \<Rightarrow> string \<Rightarrow> ('w, Pod list) comp" where
  "listPods k n = (\<lambda>w. case list_pods k n w of (r, w') \<Rightarrow> (map_sum ApiError id r, [Listed n r], w'))"

definition putStatus :: "'w kube \<Rightarrow> GPUHealthCR \<Rightarrow> ('w, GPUHealthCR) comp" where
  "putStatus k cr = (\<lambda>w. case update_status k cr w of (r, w') \<Rightarrow> (map_sum ApiError id r, [PutStatus cr r], w'))"

definition putNode :: "'w kube \<Rightarrow> Node \<Rightarrow> ('w, kerror option) comp" where
  "putNode k nd = (\<lambda>w. case update_node k nd w of (r, w') \<Rightarrow> (Inr r, [PutNode nd r], w'))"

definition evict :: "'w kube \<Rightarrow> Pod \<Rightarrow> ('w, kerror option) comp" where
  "evict k p = (\<lambda>w. case create_eviction k (PodNamespace p) (PodName p) w of
     (r, w') \<Rightarrow> (Inr r, [Evict (PodNamespace p) (PodName p) r], w'))"

definition httpDo :: "'w kube \<Rightarrow> http_method \<Rightarrow> string \<Rightarrow> ('w, (string, http_reply) result) comp" where
  "httpDo k m url = (\<lambda>w. case http_do k m url w of (r, w') \<Rightarrow> (Inr r, [Http m url r], w'))"

definition timeNow :: "'w kube \<Rightarrow> ('w, time) comp" where
  "timeNow k = (\<lambda>w. case read_clock k w of (t, w') \<Rightarrow> (Inr t, [ReadClock t], w'))"

definition SetStatusCondition :: "'w kube \<Rightarrow> Condition \<Rightarrow> GPUHealthCR \<Rightarrow> ('w, GPUHealthCR) comp" where
  "SetStatusCondition k c cr =
     (\<lambda>w. case set_condition k c (Conditions (Status cr)) w of (cs, w') \<Rightarrow> (Inr (set_conditions cs cr), [], w'))"

section \<open>What the controller relies on\<close>

text \<open>
  An accepted status update hands back the object as stored: the same object and specification, the status as written
  except that timestamps are stored with less precision. A read of a node returns that node.
\<close>

definition stored_as :: "GPUHealthCR \<Rightarrow> GPUHealthCR \<Rightarrow> bool" where
  "stored_as c c' \<longleftrightarrow> Name c' = Name c \<and> UID c' = UID c \<and> Generation c' = Generation c \<and> Spec c' = Spec c \<and>
     phase c' = phase c \<and> attempts_of c' = attempts_of c \<and>
     ObservedGeneration (Status c') = ObservedGeneration (Status c) \<and>
     (ReplacementStartedAt (Status c') = None \<longleftrightarrow> ReplacementStartedAt (Status c) = None)"

definition faithful_server :: "'w kube \<Rightarrow> bool" where
  "faithful_server k \<longleftrightarrow>
     (\<forall>c w c'. fst (update_status k c w) = Inr c' \<longrightarrow> stored_as c c') \<and>
     (\<forall>n w nd. fst (get_node k n w) = Inr nd \<longrightarrow> NodeNm nd = n)"

text \<open>
  \<^verbatim>\<open>SetStatusCondition\<close>: the condition of that type gets the given status, the others stay, and a type that
  had one entry keeps one (\<^verbatim>\<open>+listMapKey=type\<close>).
\<close>

definition cond_status :: "Condition list \<Rightarrow> string \<Rightarrow> bool option" where
  "cond_status cs ty = map_of (map (\<lambda>c. (CondType c, CondStatus c)) cs) ty"

definition keeps_keys :: "Condition list \<Rightarrow> Condition list \<Rightarrow> bool" where
  "keeps_keys cs cs' \<longleftrightarrow> (distinct (map CondType cs) \<longrightarrow> distinct (map CondType cs'))"

definition condition_law :: "'w kube \<Rightarrow> bool" where
  "condition_law k \<longleftrightarrow>
     (\<forall>c cs w. cond_status (fst (set_condition k c cs w)) = (cond_status cs)(CondType c \<mapsto> CondStatus c) \<and>
        keeps_keys cs (fst (set_condition k c cs w)))"

end
