(* ===== verification/Controller.thy ===== *)
theory Controller
  imports Kube
begin

text \<open>
  The reconciler of the operator (\<^verbatim>\<open>internal/controller/gpuhealth_controller.go\<close>), one definition per
  method, in the order in which they call each other. A method takes the resource it mutates and
  returns the mutated resource where its caller goes on using it. Log lines are left out.
\<close>

section \<open>Reasons and the pieces of a request\<close>

definition reasonGPUCritical :: string where "reasonGPUCritical = ''GPUCritical''"
definition reasonGPURecovering :: string where "reasonGPURecovering = ''GPURecovering''"
definition reasonGPUHealthy :: string where "reasonGPUHealthy = ''GPUHealthy''"
definition reasonGPURejoining :: string where "reasonGPURejoining = ''GPURejoining''"
definition reasonGPUDegraded :: string where "reasonGPUDegraded = ''GPUDegraded''"
definition reasonGPUOperational :: string where "reasonGPUOperational = ''GPUOperational''"
definition reasonGPUFailed :: string where "reasonGPUFailed = ''GPUFailed''"

record 'w GPUHealthReconciler =
  Client :: "'w kube"
  TelemetryURL :: string

record Result =
  RequeueAfter :: time

definition requeue :: "int \<Rightarrow> Result" where
  "requeue s = \<lparr>RequeueAfter = s * second\<rparr>"

definition condition :: "string \<Rightarrow> bool \<Rightarrow> string \<Rightarrow> string \<Rightarrow> GPUHealthCR \<Rightarrow> Condition" where
  "condition ty st reason msg cr = \<lparr>CondType = ty, CondStatus = st, CondObservedGeneration = Generation cr,
     Reason = reason, CondMessage = msg, CondTransition = 0\<rparr>"

definition recover_url :: "'w GPUHealthReconciler \<Rightarrow> GPUHealthCR \<Rightarrow> string" where
  "recover_url r cr = TelemetryURL r @ ''/v1/simulation/gpus/'' @ SpecGPUID (Spec cr) @ ''/recover''"

definition replace_url :: "'w GPUHealthReconciler \<Rightarrow> GPUHealthCR \<Rightarrow> string" where
  "replace_url r cr = TelemetryURL r @ ''/v1/simulation/gpus/'' @ SpecGPUID (Spec cr) @ ''/replace''"

definition telemetry_url :: "'w GPUHealthReconciler \<Rightarrow> GPUHealthCR \<Rightarrow> string" where
  "telemetry_url r cr = TelemetryURL r @ ''/v1/gpus/'' @ SpecGPUID (Spec cr)"

section \<open>Nodes\<close>

definition isNodeReady :: "'w GPUHealthReconciler \<Rightarrow> GPUHealthCR \<Rightarrow> ('w, bool) comp" where
  "isNodeReady r cr = bindE (getNode (Client r) (NodeName (Spec cr))) (\<lambda>node.
     ret (list_ex (\<lambda>(ty, st). ty = ''Ready'' \<and> st = ''True'') (NodeConditions node)))"

definition set_unschedulable :: "'w GPUHealthReconciler \<Rightarrow> bool \<Rightarrow> Node \<Rightarrow> ('w, unit) comp" where
  "set_unschedulable r b node =
     (if Unschedulable node \<noteq> b then
        bindE (putNode (Client r) (node\<lparr>Unschedulable := b\<rparr>)) (\<lambda>err.
          case err of
            Some e \<Rightarrow> if e \<noteq> KConflict then fail (ApiError e) else ret ()
          | None \<Rightarrow> ret ())
      else ret ())"

definition cordonNode :: "'w GPUHealthReconciler \<Rightarrow> GPUHealthCR \<Rightarrow> ('w, unit) comp" where
  "cordonNode r cr = bindE (getNode (Client r) (NodeName (Spec cr))) (set_unschedulable r True)"

definition uncordonNode :: "'w GPUHealthReconciler \<Rightarrow> GPUHealthCR \<Rightarrow> ('w, unit) comp" where
  "uncordonNode r cr = bindE (getNode (Client r) (NodeName (Spec cr))) (set_unschedulable r False)"

definition left_alone :: "Pod \<Rightarrow> bool" where
  "left_alone pod \<longleftrightarrow> list_ex (\<lambda>kind. kind = ''DaemonSet'') (OwnerKinds pod) \<or>
     PodPhase pod = ''Succeeded'' \<or> PodPhase pod = ''Failed'' \<or> PodPhase pod = ''Unknown''"

fun evict_all :: "'w GPUHealthReconciler \<Rightarrow> Pod list \<Rightarrow> ('w, bool) comp" where
  "evict_all r [] = ret True"
| "evict_all r (pod # pods) = bindE (evict (Client r) pod) (\<lambda>err.
     case err of
       Some e \<Rightarrow> if e = KTooManyRequests then evict_all r pods
                 else if e = KNotFound then evict_all r pods
                 else fail (ApiError e)
     | None \<Rightarrow> evict_all r pods)"

definition drainNode :: "'w GPUHealthReconciler \<Rightarrow> GPUHealthCR \<Rightarrow> ('w, bool) comp" where
  "drainNode r cr =
     bindE (cordonNode r cr) (\<lambda>_.
     bindE (listPods (Client r) (NodeName (Spec cr))) (\<lambda>podList.
     let items = filter (\<lambda>pod. \<not> left_alone pod) podList
     in if items = [] then ret False else evict_all r items))"

section \<open>The telemetry service\<close>

definition recoverGPU :: "'w GPUHealthReconciler \<Rightarrow> GPUHealthCR \<Rightarrow> ('w, unit) comp" where
  "recoverGPU r cr =
     (if \<not> valid_url (Client r) (recover_url r cr) then fail (BuildingRequest ''recover'' (SpecGPUID (Spec cr)))
      else bindE (httpDo (Client r) MethodPut (recover_url r cr)) (\<lambda>resp.
        case resp of
          Inl e \<Rightarrow> fail (RequestFailed (SpecGPUID (Spec cr)) e)
        | Inr resp \<Rightarrow>
            if StatusCode resp = 409 then fail (GPUUnrecoverable (SpecGPUID (Spec cr)))
            else if StatusCode resp \<noteq> 204 then fail (UnexpectedCode (SpecGPUID (Spec cr)) (StatusCode resp))
            else ret ()))"

definition replaceGPU :: "'w GPUHealthReconciler \<Rightarrow> GPUHealthCR \<Rightarrow> ('w, unit) comp" where
  "replaceGPU r cr =
     (if \<not> valid_url (Client r) (replace_url r cr) then fail (BuildingRequest ''replace'' (SpecGPUID (Spec cr)))
      else bindE (httpDo (Client r) MethodPut (replace_url r cr)) (\<lambda>resp.
        case resp of
          Inl e \<Rightarrow> fail (RequestFailed (SpecGPUID (Spec cr)) e)
        | Inr resp \<Rightarrow>
            if StatusCode resp \<noteq> 204 then fail (UnexpectedCode (SpecGPUID (Spec cr)) (StatusCode resp))
            else ret ()))"

definition fetchTelemetry :: "'w GPUHealthReconciler \<Rightarrow> GPUHealthCR \<Rightarrow> ('w, GPUHealth) comp" where
  "fetchTelemetry r cr =
     (if \<not> valid_url (Client r) (telemetry_url r cr) then fail (BuildingRequest ''telemetry'' (SpecGPUID (Spec cr)))
      else bindE (httpDo (Client r) MethodGet (telemetry_url r cr)) (\<lambda>resp.
        case resp of
          Inl e \<Rightarrow> fail (RequestFailed (SpecGPUID (Spec cr)) e)
        | Inr resp \<Rightarrow>
            if StatusCode resp \<noteq> 200 then fail (UnexpectedCode (SpecGPUID (Spec cr)) (StatusCode resp))
            else (case Body resp of None \<Rightarrow> fail (DecodingTelemetry (SpecGPUID (Spec cr))) | Some h \<Rightarrow> ret h)))"

section \<open>Status\<close>

definition syncStatus :: "'w GPUHealthReconciler \<Rightarrow> GPUHealthCR \<Rightarrow> ('w, GPUHealthCR) comp" where
  "syncStatus r cr =
     (let cr = set_observed (Generation cr) cr
      in bindE (getCR (Client r) (Name cr)) (\<lambda>live.
         if Status live = Status cr then bindE (emit (InSync cr)) (\<lambda>_. ret cr)
         else if phase live \<noteq> phase cr then
           bindE (timeNow (Client r)) (\<lambda>t. putStatus (Client r) (set_transition (Some t) cr))
         else putStatus (Client r) cr))"

definition sync_wrapped :: "'w GPUHealthReconciler \<Rightarrow> GPUHealthCR \<Rightarrow> ('w, GPUHealthCR) comp" where
  "sync_wrapped r cr = wrap (UpdatingStatus (SpecGPUID (Spec cr))) (syncStatus r cr)"

section \<open>Failed\<close>

definition returnFailedToService :: "'w GPUHealthReconciler \<Rightarrow> GPUHealthCR \<Rightarrow> string \<Rightarrow> ('w, Result) comp" where
  "returnFailedToService r cr message =
     bindE (SetStatusCondition (Client r) (condition ConditionGPUHealthy True reasonGPUHealthy message cr)
              (set_phase PhaseHealthy (set_attempts 0 cr))) (\<lambda>cr.
     bindE (sync_wrapped r cr) (\<lambda>cr.
     bindE (wrap (\<lambda>_. Uncordoning (UID cr)) (uncordonNode r cr)) (\<lambda>_.
     ret (requeue 30))))"

definition handleFailed :: "'w GPUHealthReconciler \<Rightarrow> GPUHealthCR \<Rightarrow> ('w, Result) comp" where
  "handleFailed r cr =
     (if ObservedGeneration (Status cr) <s Generation cr then
        returnFailedToService r cr ''GPU node transitioned from failed to healthy due to spec change''
      else bindE (fetchTelemetry r cr) (\<lambda>telemetry.
        if Health telemetry = StatusHealthy then
          returnFailedToService r cr ''GPU node transitioned from failed to healthy based on telemetry''
        else ret (requeue 120)))"

section \<open>Remediation\<close>

definition count_attempt :: "GPUHealthCR \<Rightarrow> GPUHealthCR" where
  "count_attempt cr =
     (let cr = (if ObservedGeneration (Status cr) <s Generation cr then set_attempts 0 cr else cr)
      in set_attempts (attempts_of cr + 1) cr)"

definition after_attempt ::
  "'w GPUHealthReconciler \<Rightarrow> GPUPhase \<Rightarrow> string \<Rightarrow> GPUHealthCR \<Rightarrow> ('w, Result) comp" where
  "after_attempt r next_phase message cr =
     (let cr = count_attempt cr
      in if MaxRemediationAttempts (Spec cr) \<le>s attempts_of cr then
           bindE (SetStatusCondition (Client r)
                    (condition ConditionEscalationRequired True reasonGPUFailed ''GPU has failed and requires replacement'' cr)
                    (set_phase PhaseFailed cr)) (\<lambda>cr.
           bindE (sync_wrapped r cr) (\<lambda>cr. handleFailed r cr))
         else
           bindE (SetStatusCondition (Client r)
                    (condition ConditionRemediationInProgress True reasonGPUCritical message cr)
                    (set_phase next_phase cr)) (\<lambda>cr.
           bindE (sync_wrapped r cr) (\<lambda>_. ret (requeue 30))))"

definition handleRemediationPolicyDrain :: "'w GPUHealthReconciler \<Rightarrow> GPUHealthCR \<Rightarrow> ('w, Result) comp" where
  "handleRemediationPolicyDrain r cr =
     bindE (drainNode r cr) (\<lambda>isStillDraining.
       if isStillDraining then ret (requeue 15)
       else after_attempt r PhaseDraining ''GPU is experiencing critical errors and requires draining'' cr)"

definition handleRemediationPolicyReplacing :: "'w GPUHealthReconciler \<Rightarrow> GPUHealthCR \<Rightarrow> ('w, Result) comp" where
  "handleRemediationPolicyReplacing r cr =
     bindE (cordonNode r cr) (\<lambda>_.
       after_attempt r PhaseReplacing ''GPU is experiencing critical errors and requires replacing'' cr)"

definition handleRemediationPolicyEscalate :: "'w GPUHealthReconciler \<Rightarrow> GPUHealthCR \<Rightarrow> ('w, Result) comp" where
  "handleRemediationPolicyEscalate r cr =
     bindE (SetStatusCondition (Client r)
              (condition ConditionEscalationRequired True reasonGPUCritical
                 ''GPU is experiencing critical errors and requires escalating the issue'' cr)
              (set_phase PhaseCritical cr)) (\<lambda>cr.
     bindE (sync_wrapped r cr) (\<lambda>_. ret (requeue 30)))"

definition handleRemediationPolicyNone :: "'w GPUHealthReconciler \<Rightarrow> GPUHealthCR \<Rightarrow> ('w, Result) comp" where
  "handleRemediationPolicyNone r cr =
     bindE (SetStatusCondition (Client r)
              (condition ConditionGPUHealthy False reasonGPUCritical ''GPU is experiencing critical errors'' cr)
              (set_phase PhaseCritical cr)) (\<lambda>cr.
     bindE (sync_wrapped r cr) (\<lambda>_. ret (requeue 30)))"

definition handleRemediation :: "'w GPUHealthReconciler \<Rightarrow> GPUHealthCR \<Rightarrow> ('w, Result) comp" where
  "handleRemediation r cr =
     (case policy cr of
        RemediationPolicyDrain \<Rightarrow> handleRemediationPolicyDrain r cr
      | RemediationPolicyReplace \<Rightarrow> handleRemediationPolicyReplacing r cr
      | RemediationPolicyEscalate \<Rightarrow> handleRemediationPolicyEscalate r cr
      | RemediationPolicyNone \<Rightarrow> handleRemediationPolicyNone r cr
      | p \<Rightarrow> fail (UnexpectedPolicy p))"

section \<open>The other phases\<close>

fun is_unrecoverable :: "cerror \<Rightarrow> bool" where
  "is_unrecoverable (GPUUnrecoverable _) = True"
| "is_unrecoverable (UpdatingStatus _ e) = is_unrecoverable e"
| "is_unrecoverable _ = False"

definition handleDraining :: "'w GPUHealthReconciler \<Rightarrow> GPUHealthCR \<Rightarrow> ('w, Result) comp" where
  "handleDraining r cr =
     bindE (drainNode r cr) (\<lambda>isStillDraining.
     if isStillDraining then ret (requeue 10)
     else bindE (tried (recoverGPU r cr)) (\<lambda>err.
       if (case err of Inl e \<Rightarrow> is_unrecoverable e | Inr _ \<Rightarrow> False) then
         bindE (SetStatusCondition (Client r)
                  (condition ConditionRemediationInProgress True reasonGPUCritical
                     ''GPU drain revealed unrecoverable hardware failure, escalating to replacement'' cr)
                  (set_phase PhaseReplacing cr)) (\<lambda>cr.
         bindE (sync_wrapped r cr) (\<lambda>_. ret (requeue 30)))
       else
         bindE (SetStatusCondition (Client r)
                  (condition ConditionRemediationInProgress True reasonGPURecovering
                     ''GPU node drain complete, entering recovery'' cr)
                  (set_phase PhaseRecovering cr)) (\<lambda>cr.
         bindE (sync_wrapped r cr) (\<lambda>_. ret (requeue 30)))))"

definition handleRecovering :: "'w GPUHealthReconciler \<Rightarrow> GPUHealthCR \<Rightarrow> ('w, Result) comp" where
  "handleRecovering r cr =
     bindE (fetchTelemetry r cr) (\<lambda>telemetry.
     case Health telemetry of
       StatusCritical \<Rightarrow> handleRemediation r cr
     | StatusWarning \<Rightarrow>
         bindE (SetStatusCondition (Client r)
                  (condition ConditionRemediationInProgress True reasonGPURecovering ''GPU is recovering'' cr)
                  (set_phase PhaseRecovering cr)) (\<lambda>cr.
         bindE (syncStatus r cr) (\<lambda>_. ret (requeue 30)))
     | StatusHealthy \<Rightarrow>
         bindE (uncordonNode r cr) (\<lambda>_.
         bindE (SetStatusCondition (Client r)
                  (condition ConditionGPUHealthy True reasonGPUHealthy ''GPU is Healthy'' cr)
                  (set_attempts 0 (set_phase PhaseHealthy cr))) (\<lambda>cr.
         bindE (syncStatus r cr) (\<lambda>_. ret (requeue 30))))
     | h \<Rightarrow> fail (UnexpectedHealth h))"

definition timeout :: "32 word \<Rightarrow> time" where
  "timeout s = sint s * second"

definition handleReplacing_down :: "'w GPUHealthReconciler \<Rightarrow> GPUHealthCR \<Rightarrow> ('w, Result) comp" where
  "handleReplacing_down r cr =
     bindE (if ReplacementStartedAt (Status cr) = None then
              bindE (timeNow (Client r)) (\<lambda>ts. syncStatus r (set_started (Some ts) cr))
            else ret cr) (\<lambda>cr.
     case ReplacementStartedAt (Status cr) of
       None \<Rightarrow> fail NilDereference
     | Some started \<Rightarrow>
         bindE (timeNow (Client r)) (\<lambda>t.
         if t > started + timeout (ReplacementTimeoutSeconds (Spec cr))
         then handleRemediation r (set_started None cr)
         else ret (requeue 15)))"

definition handleReplacing :: "'w GPUHealthReconciler \<Rightarrow> GPUHealthCR \<Rightarrow> ('w, Result) comp" where
  "handleReplacing r cr =
     bindE (cordonNode r cr) (\<lambda>_.
     bindE (isNodeReady r cr) (\<lambda>ready.
     if \<not> ready then handleReplacing_down r cr
     else if ReplacementStartedAt (Status cr) \<noteq> None then
       bindE (tried (replaceGPU r cr)) (\<lambda>_.
       bindE (SetStatusCondition (Client r)
                (condition ConditionRemediationInProgress True reasonGPURejoining ''GPU is rejoining'' cr)
                (set_phase PhaseRejoining (set_started None cr))) (\<lambda>cr.
       bindE (syncStatus r cr) (\<lambda>_. ret (requeue 30))))
     else
       bindE (tried (replaceGPU r cr)) (\<lambda>_.
       bindE (SetStatusCondition (Client r)
                (condition ConditionRemediationInProgress True reasonGPURejoining ''GPU hardware replaced, rejoining fleet'' cr)
                (set_phase PhaseRejoining cr)) (\<lambda>cr.
       bindE (syncStatus r cr) (\<lambda>_. ret (requeue 30))))))"

definition handleRejoining_warning :: "'w GPUHealthReconciler \<Rightarrow> GPUHealthCR \<Rightarrow> ('w, Result) comp" where
  "handleRejoining_warning r cr =
     bindE (if LastTransitionTime (Status cr) = None then
              bindE (timeNow (Client r)) (\<lambda>t. ret (set_transition (Some t) cr))
            else ret cr) (\<lambda>cr.
     case LastTransitionTime (Status cr) of
       None \<Rightarrow> fail NilDereference
     | Some since \<Rightarrow>
         bindE (timeNow (Client r)) (\<lambda>t.
         if since + timeout (RejoiningTimeoutSeconds (Spec cr)) > t then ret (requeue 30)
         else
           bindE (SetStatusCondition (Client r)
                    (condition ConditionEscalationRequired True reasonGPUFailed
                       ''GPU has failed to rejoin within the allowed timeout'' cr)
                    (set_phase PhaseFailed cr)) (\<lambda>cr.
           bindE (syncStatus r cr) (\<lambda>_. ret (requeue 30)))))"

definition handleRejoining :: "'w GPUHealthReconciler \<Rightarrow> GPUHealthCR \<Rightarrow> ('w, Result) comp" where
  "handleRejoining r cr =
     bindE (fetchTelemetry r cr) (\<lambda>telemetry.
     case Health telemetry of
       StatusCritical \<Rightarrow> handleRemediation r cr
     | StatusWarning \<Rightarrow> handleRejoining_warning r cr
     | StatusHealthy \<Rightarrow>
         bindE (uncordonNode r cr) (\<lambda>_.
         bindE (SetStatusCondition (Client r)
                  (condition ConditionGPUHealthy True reasonGPUHealthy ''GPU is operating within normal parameters'' cr)
                  (set_attempts 0 (set_phase PhaseHealthy cr))) (\<lambda>cr.
         bindE (syncStatus r cr) (\<lambda>_. ret (requeue 30))))
     | h \<Rightarrow> fail (UnexpectedHealth h))"

definition handleObserving :: "'w GPUHealthReconciler \<Rightarrow> GPUHealthCR \<Rightarrow> ('w, Result) comp" where
  "handleObserving r cr =
     bindE (fetchTelemetry r cr) (\<lambda>telemetry.
     case Health telemetry of
       StatusCritical \<Rightarrow>
         bindE (timeNow (Client r)) (\<lambda>ts.
         handleRemediation r (set_findings (mergeFindings ts (StatusFindings (Status cr)) telemetry 100) cr))
     | StatusWarning \<Rightarrow>
         bindE (SetStatusCondition (Client r)
                  (condition ConditionGPUHealthy False reasonGPUDegraded ''GPU metrics are outside normal parameters'' cr)
                  (set_phase PhaseWarning cr)) (\<lambda>cr.
         bindE (sync_wrapped r cr) (\<lambda>_. ret (requeue 30)))
     | StatusHealthy \<Rightarrow>
         bindE (SetStatusCondition (Client r)
                  (condition ConditionGPUHealthy True reasonGPUOperational ''GPU is operating within normal parameters'' cr)
                  (set_phase PhaseHealthy (set_attempts 0 cr))) (\<lambda>cr.
         bindE (sync_wrapped r cr) (\<lambda>_. ret (requeue 30)))
     | h \<Rightarrow> fail (UnexpectedHealth h))"

section \<open>Reconcile\<close>

definition observingPhases :: "GPUPhase list" where
  "observingPhases = [PhaseNewCR, PhaseHealthy, PhaseWarning, PhaseCritical]"

definition reconcile_phase :: "'w GPUHealthReconciler \<Rightarrow> GPUHealthCR \<Rightarrow> ('w, Result) comp" where
  "reconcile_phase r cr =
     (if phase cr \<in> set observingPhases then handleObserving r cr
      else case phase cr of
        PhaseFailed \<Rightarrow> handleFailed r cr
      | PhaseDraining \<Rightarrow> handleDraining r cr
      | PhaseRecovering \<Rightarrow> handleRecovering r cr
      | PhaseReplacing \<Rightarrow> handleReplacing r cr
      | PhaseRejoining \<Rightarrow> handleRejoining r cr
      | p \<Rightarrow> fail (UnexpectedPhase p))"

definition Reconcile :: "'w GPUHealthReconciler \<Rightarrow> string \<Rightarrow> ('w, Result) comp" where
  "Reconcile r name =
     bindE (tried (getCR (Client r) name)) (\<lambda>got.
     case got of
       Inl err \<Rightarrow> if err = ApiError KNotFound then ret \<lparr>RequeueAfter = 0\<rparr> else fail err
     | Inr cr \<Rightarrow> reconcile_phase r cr)"

end
