(* ===== verification/Protocol.thy ===== *)
theory Protocol
  imports Controller
begin

text \<open>
  The abstract specification of the operator: an automaton that reads the calls of one reconcile
  run and accepts those a correct operator may make. It says when the node may be cordoned or put
  back into service, which pods may be evicted, when the telemetry service may be told to recover
  or replace a GPU, and which status may follow which, on what evidence and with which attempt count. The controller is
  shown to make only accepted runs, whatever the API server, the telemetry service and the clock answer.
\<close>

section \<open>State of the automaton\<close>

record mon =
  cur :: GPUHealthCR  \<comment> \<open>the resource as read or last written in this run\<close>
  released :: bool  \<comment> \<open>a failed GPU whose specification changed\<close>
  reading :: "GPUHealth option"  \<comment> \<open>the last telemetry\<close>
  cordoned :: bool  \<comment> \<open>the node was seen or made unschedulable in this run\<close>
  node :: "Node option"
  pods :: "Pod list option"
  refused :: bool  \<comment> \<open>the telemetry service answered that the GPU cannot recover\<close>
  seen_times :: "time set"

definition spec_changed :: "GPUHealthCR \<Rightarrow> bool" where
  "spec_changed cr \<longleftrightarrow> ObservedGeneration (Status cr) <s Generation cr"

definition start :: "GPUHealthCR \<Rightarrow> mon" where
  "start cr = \<lparr>cur = cr, released = (phase cr = PhaseFailed \<and> spec_changed cr), reading = None, cordoned = False,
     node = None, pods = None, refused = False, seen_times = {}\<rparr>"

definition reads :: "HealthStatus \<Rightarrow> mon \<Rightarrow> bool" where
  "reads st s \<longleftrightarrow> map_option Health (reading s) = Some st"

definition observing :: "GPUPhase \<Rightarrow> bool" where
  "observing p \<longleftrightarrow> p \<in> {PhaseNewCR, PhaseHealthy, PhaseWarning, PhaseCritical}"

definition automated :: "GPUHealthCR \<Rightarrow> bool" where
  "automated cr \<longleftrightarrow> policy cr \<in> {RemediationPolicyDrain, RemediationPolicyReplace}"

definition node_ready :: "Node \<Rightarrow> bool" where
  "node_ready nd \<longleftrightarrow> (''Ready'', ''True'') \<in> set (NodeConditions nd)"

definition ready :: "mon \<Rightarrow> bool" where
  "ready s \<longleftrightarrow> (case node s of None \<Rightarrow> False | Some nd \<Rightarrow> node_ready nd)"

definition drained :: "mon \<Rightarrow> bool" where
  "drained s \<longleftrightarrow> cordoned s \<and> (case pods s of None \<Rightarrow> False | Some ps \<Rightarrow> \<forall>p \<in> set ps. left_alone p)"

section \<open>What may be done when\<close>

definition replacement_overdue :: "mon \<Rightarrow> bool" where
  "replacement_overdue s \<longleftrightarrow> phase (cur s) = PhaseReplacing \<and>
     (case ReplacementStartedAt (Status (cur s)) of None \<Rightarrow> False
      | Some t0 \<Rightarrow> \<exists>t \<in> seen_times s. t0 + timeout (ReplacementTimeoutSeconds (Spec (cur s))) < t)"

definition rejoining_overdue :: "mon \<Rightarrow> bool" where
  "rejoining_overdue s \<longleftrightarrow> phase (cur s) = PhaseRejoining \<and> reads StatusWarning s \<and>
     (case LastTransitionTime (Status (cur s)) of None \<Rightarrow> True
      | Some t0 \<Rightarrow> \<exists>t \<in> seen_times s. t0 + timeout (RejoiningTimeoutSeconds (Spec (cur s))) \<le> t)"

definition needs_remedy :: "mon \<Rightarrow> bool" where
  "needs_remedy s \<longleftrightarrow>
     reads StatusCritical s \<and> (observing (phase (cur s)) \<or> phase (cur s) \<in> {PhaseRecovering, PhaseRejoining}) \<or>
     replacement_overdue s"

definition may_cordon :: "mon \<Rightarrow> bool" where
  "may_cordon s \<longleftrightarrow> phase (cur s) \<in> {PhaseDraining, PhaseReplacing} \<or> needs_remedy s \<and> automated (cur s)"

definition may_uncordon :: "mon \<Rightarrow> bool" where
  "may_uncordon s \<longleftrightarrow> reads StatusHealthy s \<or> released s"

definition counted :: "mon \<Rightarrow> GPUHealthCR \<Rightarrow> bool" where
  "counted s c \<longleftrightarrow> attempts_of c = (if spec_changed (cur s) then 0 else attempts_of (cur s)) + 1"

definition uncounted :: "mon \<Rightarrow> GPUHealthCR \<Rightarrow> bool" where
  "uncounted s c \<longleftrightarrow> attempts_of c = attempts_of (cur s)"

definition exhausted :: "GPUHealthCR \<Rightarrow> bool" where
  "exhausted c \<longleftrightarrow> MaxRemediationAttempts (Spec c) \<le>s attempts_of c"

text \<open>The timestamp of a replacement is set while the node is down and cleared on the way out.\<close>

definition stamps :: "mon \<Rightarrow> GPUHealthCR \<Rightarrow> bool" where
  "stamps s c \<longleftrightarrow> phase (cur s) = PhaseReplacing \<and> ReplacementStartedAt (Status (cur s)) = None \<and>
     ReplacementStartedAt (Status c) \<noteq> None \<and> phase c = PhaseReplacing \<and> cordoned s \<and> \<not> ready s \<and> uncounted s c"

definition clears :: "mon \<Rightarrow> GPUHealthCR \<Rightarrow> bool" where
  "clears s c \<longleftrightarrow> ReplacementStartedAt (Status c) =
     (if phase (cur s) = PhaseReplacing then None else ReplacementStartedAt (Status (cur s)))"

definition status_of :: "GPUHealthCR \<Rightarrow> string \<Rightarrow> bool option" where
  "status_of c = cond_status (Conditions (Status c))"

fun phase_ok :: "mon \<Rightarrow> GPUHealthCR \<Rightarrow> GPUPhase \<Rightarrow> bool" where
  "phase_ok s c PhaseHealthy \<longleftrightarrow> attempts_of c = 0 \<and> status_of c ConditionGPUHealthy = Some True \<and>
     (reads StatusHealthy s \<and> (observing (phase (cur s)) \<or> phase (cur s) \<in> {PhaseRecovering, PhaseRejoining, PhaseFailed})
      \<or> released s \<and> phase (cur s) = PhaseFailed)"
| "phase_ok s c PhaseWarning \<longleftrightarrow> uncounted s c \<and> status_of c ConditionGPUHealthy = Some False \<and>
     reads StatusWarning s \<and> observing (phase (cur s))"
| "phase_ok s c PhaseCritical \<longleftrightarrow> uncounted s c \<and> needs_remedy s \<and>
     (policy c = RemediationPolicyNone \<and> status_of c ConditionGPUHealthy = Some False \<or>
      policy c = RemediationPolicyEscalate \<and> status_of c ConditionEscalationRequired = Some True)"
| "phase_ok s c PhaseDraining \<longleftrightarrow> counted s c \<and> \<not> exhausted c \<and> needs_remedy s \<and> drained s \<and>
     policy c = RemediationPolicyDrain \<and> status_of c ConditionRemediationInProgress = Some True"
| "phase_ok s c PhaseReplacing \<longleftrightarrow> status_of c ConditionRemediationInProgress = Some True \<and>
     (counted s c \<and> \<not> exhausted c \<and> needs_remedy s \<and> cordoned s \<and> policy c = RemediationPolicyReplace \<or>
      uncounted s c \<and> phase (cur s) = PhaseDraining \<and> drained s \<and> refused s)"
| "phase_ok s c PhaseRecovering \<longleftrightarrow> uncounted s c \<and> status_of c ConditionRemediationInProgress = Some True \<and>
     (phase (cur s) = PhaseDraining \<and> drained s \<and> \<not> refused s \<or> phase (cur s) = PhaseRecovering \<and> reads StatusWarning s)"
| "phase_ok s c PhaseRejoining \<longleftrightarrow> uncounted s c \<and> status_of c ConditionRemediationInProgress = Some True \<and>
     phase (cur s) = PhaseReplacing \<and> cordoned s \<and> ready s"
| "phase_ok s c PhaseFailed \<longleftrightarrow> status_of c ConditionEscalationRequired = Some True \<and>
     (counted s c \<and> exhausted c \<and> needs_remedy s \<and> cordoned s \<and> automated c \<or> uncounted s c \<and> rejoining_overdue s)"
| "phase_ok s c _ \<longleftrightarrow> False"

definition findings_ok :: "mon \<Rightarrow> GPUHealthCR \<Rightarrow> bool" where
  "findings_ok s c \<longleftrightarrow> StatusFindings (Status c) = StatusFindings (Status (cur s)) \<or>
     reads StatusCritical s \<and> observing (phase (cur s)) \<and>
     (\<exists>t \<in> seen_times s. StatusFindings (Status c) =
        mergeFindings t (StatusFindings (Status (cur s))) (the (reading s)) 100)"

definition same_object :: "GPUHealthCR \<Rightarrow> GPUHealthCR \<Rightarrow> bool" where
  "same_object c d \<longleftrightarrow> Name c = Name d \<and> UID c = UID d \<and> Generation c = Generation d \<and> Spec c = Spec d"

definition write_ok :: "mon \<Rightarrow> GPUHealthCR \<Rightarrow> bool" where
  "write_ok s c \<longleftrightarrow> same_object c (cur s) \<and> ObservedGeneration (Status c) = Generation c \<and> findings_ok s c \<and>
     keeps_keys (Conditions (Status (cur s))) (Conditions (Status c)) \<and>
     (stamps s c \<or> clears s c \<and> phase_ok s c (phase c))"

section \<open>The automaton\<close>

definition node_change_ok :: "mon \<Rightarrow> Node \<Rightarrow> bool" where
  "node_change_ok s nd \<longleftrightarrow> NodeNm nd = NodeName (Spec (cur s)) \<and>
     (case node s of None \<Rightarrow> False | Some old \<Rightarrow> nd = old\<lparr>Unschedulable := \<not> Unschedulable old\<rparr>) \<and>
     (if Unschedulable nd then may_cordon s else may_uncordon s)"

definition evictable :: "mon \<Rightarrow> string \<Rightarrow> string \<Rightarrow> bool" where
  "evictable s ns n \<longleftrightarrow> (case pods s of None \<Rightarrow> False
     | Some ps \<Rightarrow> \<exists>p \<in> set ps. \<not> left_alone p \<and> PodNamespace p = ns \<and> PodName p = n)"

fun mstep :: "'w GPUHealthReconciler \<Rightarrow> mon \<Rightarrow> call \<Rightarrow> mon option" where
  "mstep r s (GotCR n _) = (if n = Name (cur s) then Some s else None)"
| "mstep r s (GotNode n res) =
     (if n = NodeName (Spec (cur s)) then
        Some (case res of Inl _ \<Rightarrow> s | Inr nd \<Rightarrow> s\<lparr>node := Some nd, cordoned := cordoned s \<or> Unschedulable nd\<rparr>)
      else None)"
| "mstep r s (PutNode nd err) =
     (if node_change_ok s nd then
        Some (if err \<in> {None, Some KConflict} then s\<lparr>cordoned := Unschedulable nd\<rparr> else s)
      else None)"
| "mstep r s (Listed n res) =
     (if n = NodeName (Spec (cur s)) \<and> cordoned s then
        Some (case res of Inl _ \<Rightarrow> s | Inr ps \<Rightarrow> s\<lparr>pods := Some ps\<rparr>)
      else None)"
| "mstep r s (Evict ns n _) = (if cordoned s \<and> may_cordon s \<and> evictable s ns n then Some s else None)"
| "mstep r s (PutStatus c res) =
     (if write_ok s c \<and> (case res of Inl _ \<Rightarrow> True | Inr c' \<Rightarrow> stored_as c c') then
        Some (case res of Inl _ \<Rightarrow> s | Inr c' \<Rightarrow> s\<lparr>cur := c'\<rparr>)
      else None)"
| "mstep r s (InSync c) = (if write_ok s c then Some (s\<lparr>cur := c\<rparr>) else None)"
| "mstep r s (Http MethodGet url res) =
     (if url = telemetry_url r (cur s) then
        Some (s\<lparr>reading := (case res of Inl _ \<Rightarrow> None | Inr rep \<Rightarrow> if StatusCode rep = 200 then Body rep else None)\<rparr>)
      else None)"
| "mstep r s (Http MethodPut url res) =
     (if url = recover_url r (cur s) \<and> phase (cur s) = PhaseDraining \<and> drained s then
        Some (s\<lparr>refused := (case res of Inl _ \<Rightarrow> False | Inr rep \<Rightarrow> StatusCode rep = 409)\<rparr>)
      else if url = replace_url r (cur s) \<and> phase (cur s) = PhaseReplacing \<and> cordoned s \<and> ready s then Some s
      else None)"
| "mstep r s (ReadClock t) = Some (s\<lparr>seen_times := insert t (seen_times s)\<rparr>)"

fun mrun :: "'w GPUHealthReconciler \<Rightarrow> mon \<Rightarrow> call list \<Rightarrow> mon option" where
  "mrun r s [] = Some s"
| "mrun r s (c # cs) = (case mstep r s c of None \<Rightarrow> None | Some s' \<Rightarrow> mrun r s' cs)"

definition accepted :: "'w GPUHealthReconciler \<Rightarrow> mon \<Rightarrow> call list \<Rightarrow> bool" where
  "accepted r s cs \<longleftrightarrow> mrun r s cs \<noteq> None"

lemma mrun_append:
  "mrun r s (cs @ ds) = (case mrun r s cs of None \<Rightarrow> None | Some s' \<Rightarrow> mrun r s' ds)"
  by (induction cs arbitrary: s) (auto split: option.splits)

section \<open>Computations that make accepted runs\<close>

definition valid :: "'w GPUHealthReconciler \<Rightarrow> mon \<Rightarrow> ('w, 'a) comp \<Rightarrow> ((cerror, 'a) result \<Rightarrow> mon \<Rightarrow> bool) \<Rightarrow> bool" where
  "valid r s m Q \<longleftrightarrow> (\<forall>w. case m w of (x, cs, w') \<Rightarrow> \<exists>s'. mrun r s cs = Some s' \<and> Q x s')"

lemma validD: "valid r s m Q \<Longrightarrow> m w = (x, cs, w') \<Longrightarrow> \<exists>s'. mrun r s cs = Some s' \<and> Q x s'"
  unfolding valid_def by (drule spec [of _ w]) simp

named_theorems vcg \<open>rules for valid computations\<close>

lemma valid_ret [vcg]: "Q (Inr a) s \<Longrightarrow> valid r s (ret a) Q"
  by (simp add: valid_def ret_def)

lemma valid_fail [vcg]: "Q (Inl e) s \<Longrightarrow> valid r s (fail e) Q"
  by (simp add: valid_def fail_def)

lemma valid_bindE:
  assumes "valid r s m (\<lambda>x s'. case x of Inl e \<Rightarrow> Q (Inl e) s' | Inr a \<Rightarrow> valid r s' (f a) Q)"
  shows "valid r s (bindE m f) Q"
  unfolding valid_def
proof (intro allI)
  fix w
  obtain x cs w' where m: "m w = (x, cs, w')" by (metis prod.exhaust)
  obtain s' where s': "mrun r s cs = Some s'" "case x of Inl e \<Rightarrow> Q (Inl e) s' | Inr a \<Rightarrow> valid r s' (f a) Q"
    using validD [OF assms m] by blast
  show "case bindE m f w of (x, cs, w') \<Rightarrow> \<exists>s'. mrun r s cs = Some s' \<and> Q x s'"
  proof (cases x)
    case (Inl e)
    then show ?thesis using m s' by (simp add: bindE_def)
  next
    case (Inr a)
    then have "case f a w' of (y, ds, w'') \<Rightarrow> \<exists>s''. mrun r s' ds = Some s'' \<and> Q y s''"
      using s'(2) by (simp add: valid_def)
    then show ?thesis using m s'(1) Inr by (auto simp: bindE_def mrun_append split: prod.splits)
  qed
qed

lemma valid_tried: "valid r s m (\<lambda>x s'. Q (Inr x) s') \<Longrightarrow> valid r s (tried m) Q"
  by (simp add: valid_def tried_def split_def)

lemma valid_wrap:
  "valid r s m (\<lambda>x s'. case x of Inl e \<Rightarrow> Q (Inl (h e)) s' | Inr a \<Rightarrow> Q (Inr a) s') \<Longrightarrow> valid r s (wrap h m) Q"
  by (fastforce simp: valid_def wrap_def split: prod.splits sum.splits)

lemma valid_if: "(b \<Longrightarrow> valid r s m Q) \<Longrightarrow> (\<not> b \<Longrightarrow> valid r s m' Q) \<Longrightarrow> valid r s (if b then m else m') Q"
  by simp

lemma valid_mono: "valid r s m Q \<Longrightarrow> (\<And>x s'. Q x s' \<Longrightarrow> Q' x s') \<Longrightarrow> valid r s m Q'"
  unfolding valid_def by (fastforce split: prod.splits)

subsection \<open>Calls\<close>

lemma valid_emit [vcg]: "mstep r s c = Some s' \<Longrightarrow> Q (Inr ()) s' \<Longrightarrow> valid r s (emit c) Q"
  by (simp add: valid_def emit_def)

lemma valid_getCR:
  "n = Name (cur s) \<Longrightarrow> (\<And>e. Q (Inl (ApiError e)) s) \<Longrightarrow> (\<And>live. Q (Inr live) s) \<Longrightarrow> valid r s (getCR k n) Q"
  by (auto simp: valid_def getCR_def map_sum_def split: prod.splits sum.splits)

lemma valid_getNode:
  assumes "faithful_server k" and "n = NodeName (Spec (cur s))" and "\<And>e. Q (Inl (ApiError e)) s"
    and "\<And>nd. NodeNm nd = n \<Longrightarrow> Q (Inr nd) (s\<lparr>node := Some nd, cordoned := cordoned s \<or> Unschedulable nd\<rparr>)"
  shows "valid r s (getNode k n) Q"
proof -
  have "NodeNm nd = n" if "get_node k n w = (Inr nd, w')" for w nd w'
    using assms(1) that unfolding faithful_server_def by (metis fst_conv)
  then show ?thesis using assms(2-4) by (fastforce simp: valid_def getNode_def split: prod.splits sum.splits)
qed

lemma valid_putNode:
  "node_change_ok s nd \<Longrightarrow>
    (\<And>err. Q (Inr err) (if err \<in> {None, Some KConflict} then s\<lparr>cordoned := Unschedulable nd\<rparr> else s)) \<Longrightarrow>
    valid r s (putNode k nd) Q"
  by (auto simp: valid_def putNode_def split: prod.splits)

lemma valid_listPods:
  "n = NodeName (Spec (cur s)) \<Longrightarrow> cordoned s \<Longrightarrow> (\<And>e. Q (Inl (ApiError e)) s) \<Longrightarrow>
    (\<And>ps. Q (Inr ps) (s\<lparr>pods := Some ps\<rparr>)) \<Longrightarrow> valid r s (listPods k n) Q"
  by (auto simp: valid_def listPods_def split: prod.splits sum.splits)

lemma valid_evict:
  "cordoned s \<Longrightarrow> may_cordon s \<Longrightarrow> evictable s (PodNamespace p) (PodName p) \<Longrightarrow> (\<And>err. Q (Inr err) s) \<Longrightarrow> valid r s (evict k p) Q"
  by (auto simp: valid_def evict_def split: prod.splits)

lemma valid_putStatus:
  assumes "faithful_server k" and "write_ok s c" and "\<And>e. Q (Inl (ApiError e)) s"
    and "\<And>c'. stored_as c c' \<Longrightarrow> Q (Inr c') (s\<lparr>cur := c'\<rparr>)"
  shows "valid r s (putStatus k c) Q"
proof -
  have "stored_as c c'" if "update_status k c w = (Inr c', w')" for w c' w'
    using assms(1) that unfolding faithful_server_def by (metis fst_conv)
  then show ?thesis using assms(2-4) by (fastforce simp: valid_def putStatus_def split: prod.splits sum.splits)
qed

lemma valid_timeNow [vcg]:
  "(\<And>t. Q (Inr t) (s\<lparr>seen_times := insert t (seen_times s)\<rparr>)) \<Longrightarrow> valid r s (timeNow k) Q"
  by (auto simp: valid_def timeNow_def split: prod.splits)

lemma valid_SetStatusCondition:
  assumes "condition_law k"
    and "\<And>cs. cond_status cs = (cond_status (Conditions (Status cr)))(CondType c \<mapsto> CondStatus c) \<Longrightarrow>
      keeps_keys (Conditions (Status cr)) cs \<Longrightarrow> Q (Inr (set_conditions cs cr)) s"
  shows "valid r s (SetStatusCondition k c cr) Q"
proof -
  have "cond_status cs = (cond_status (Conditions (Status cr)))(CondType c \<mapsto> CondStatus c) \<and> keeps_keys (Conditions (Status cr)) cs"
    if "set_condition k c (Conditions (Status cr)) w = (cs, w')" for w cs w'
    using assms(1) that unfolding condition_law_def by (metis fst_conv)
  then show ?thesis using assms(2) by (auto simp: valid_def SetStatusCondition_def split: prod.splits)
qed

lemma valid_httpGet:
  "url = telemetry_url r (cur s) \<Longrightarrow>
    (\<And>res. Q (Inr res) (s\<lparr>reading := (case res of Inl _ \<Rightarrow> None | Inr rep \<Rightarrow> if StatusCode rep = 200 then Body rep else None)\<rparr>)) \<Longrightarrow>
    valid r s (httpDo k MethodGet url) Q"
  by (auto simp: valid_def httpDo_def split: prod.splits)

subsection \<open>Methods on nodes\<close>

lemma node_change_flip:
  "NodeNm nd = NodeName (Spec (cur s)) \<Longrightarrow> node s = Some nd \<Longrightarrow> Unschedulable nd \<noteq> b \<Longrightarrow>
    (if b then may_cordon s else may_uncordon s) \<Longrightarrow> node_change_ok s (nd\<lparr>Unschedulable := b\<rparr>)"
  by (cases nd) (auto simp: node_change_ok_def)

lemma may_frame [simp]:
  "may_cordon (s\<lparr>node := nd\<rparr>) = may_cordon s"
  "may_uncordon (s\<lparr>node := nd\<rparr>) = may_uncordon s"
  "may_uncordon (s\<lparr>cordoned := b\<rparr>) = may_uncordon s"
  "may_cordon (s\<lparr>pods := ps\<rparr>) = may_cordon s"
  "may_cordon (s\<lparr>cordoned := b\<rparr>) = may_cordon s"
  by (simp_all add: may_cordon_def may_uncordon_def needs_remedy_def replacement_overdue_def reads_def cong: option.case_cong)

lemma valid_set_unschedulable:
  assumes "NodeNm nd = NodeName (Spec (cur s))" and "node s = Some nd"
    and "if b then may_cordon s else may_uncordon s"
    and "\<And>e. Q (Inl (ApiError e)) s" and "Unschedulable nd = b \<Longrightarrow> Q (Inr ()) s" and "Q (Inr ()) (s\<lparr>cordoned := b\<rparr>)"
  shows "valid r s (set_unschedulable r b nd) Q"
  unfolding set_unschedulable_def
proof (rule valid_if)
  assume "Unschedulable nd \<noteq> b"
  then have "node_change_ok s (nd\<lparr>Unschedulable := b\<rparr>)" using assms(1-3) by (intro node_change_flip)
  then show "valid r s (bindE (putNode (Client r) (nd\<lparr>Unschedulable := b\<rparr>)) (\<lambda>err.
          case err of Some e \<Rightarrow> if e \<noteq> KConflict then fail (ApiError e) else ret () | None \<Rightarrow> ret ())) Q"
    by (intro valid_bindE valid_putNode) (auto intro!: vcg assms split: option.splits)
qed (auto intro: vcg assms)

lemma valid_cordonNode:
  assumes "faithful_server (Client r)" and "Spec cr = Spec (cur s)" and "may_cordon s"
    and "\<And>e nd b. Q (Inl (ApiError e)) (s\<lparr>node := nd, cordoned := b\<rparr>)"
    and "\<And>nd. Q (Inr ()) (s\<lparr>node := Some nd, cordoned := True\<rparr>)"
  shows "valid r s (cordonNode r cr) Q"
  unfolding cordonNode_def
proof (intro valid_bindE valid_getNode, goal_cases)
  case (3 e)
  then show ?case using assms(4) [where e = e and nd = "node s" and b = "cordoned s"] by simp
next
  case (4 nd)
  let ?s = "s\<lparr>node := Some nd, cordoned := cordoned s \<or> Unschedulable nd\<rparr>"
  have "Q (Inr ()) ?s" if "Unschedulable nd" using assms(5) that by simp
  then show ?case using 4 assms by (simp, intro valid_set_unschedulable) auto
qed (use assms in auto)

lemma valid_uncordonNode:
  assumes "faithful_server (Client r)" and "Spec cr = Spec (cur s)" and "may_uncordon s"
    and "\<And>e nd b. Q (Inl (ApiError e)) (s\<lparr>node := nd, cordoned := b\<rparr>)"
    and "\<And>nd b. Q (Inr ()) (s\<lparr>node := Some nd, cordoned := b\<rparr>)"
  shows "valid r s (uncordonNode r cr) Q"
  unfolding uncordonNode_def
proof (intro valid_bindE valid_getNode, goal_cases)
  case (3 e)
  then show ?case using assms(4) [where e = e and nd = "node s" and b = "cordoned s"] by simp
next
  case (4 nd)
  have "Q (Inr ()) (s\<lparr>node := Some nd, cordoned := cordoned s \<or> Unschedulable nd\<rparr>)" by (rule assms(5))
  then show ?case using 4 assms by (simp, intro valid_set_unschedulable) auto
qed (use assms in auto)

lemma valid_isNodeReady:
  assumes "faithful_server (Client r)" and "Spec cr = Spec (cur s)"
    and "\<And>e. Q (Inl (ApiError e)) s"
    and "\<And>nd b. (cordoned s \<longrightarrow> b) \<Longrightarrow> Q (Inr (node_ready nd)) (s\<lparr>node := Some nd, cordoned := b\<rparr>)"
  shows "valid r s (isNodeReady r cr) Q"
proof -
  have "list_ex (\<lambda>(ty, st). ty = ''Ready'' \<and> st = ''True'') (NodeConditions nd) = node_ready nd" for nd
    by (auto simp: node_ready_def list_ex_iff)
  then show ?thesis unfolding isNodeReady_def
    by (intro valid_bindE valid_getNode) (auto intro!: vcg assms simp: assms(2))
qed

lemma valid_evict_all:
  assumes "cordoned s" and "may_cordon s" and "\<And>p. p \<in> set ps \<Longrightarrow> evictable s (PodNamespace p) (PodName p)"
    and "\<And>e. Q (Inl (ApiError e)) s" and "Q (Inr True) s"
  shows "valid r s (evict_all r ps) Q"
  using assms(3)
proof (induction ps)
  case (Cons p ps)
  then show ?case
    by (simp, intro valid_bindE valid_evict) (auto intro!: vcg assms(1,2,4,5) split: option.splits)
qed (auto intro: vcg assms)

lemma valid_drainNode:
  assumes "faithful_server (Client r)" and "Spec cr = Spec (cur s)" and "may_cordon s"
    and "\<And>e nd b ps. Q (Inl (ApiError e)) (s\<lparr>node := nd, cordoned := b, pods := ps\<rparr>)"
    and "\<And>nd ps. Q (Inr True) (s\<lparr>node := nd, cordoned := True, pods := ps\<rparr>)"
    and "\<And>nd ps. \<forall>p \<in> set ps. left_alone p \<Longrightarrow> Q (Inr False) (s\<lparr>node := nd, cordoned := True, pods := Some ps\<rparr>)"
  shows "valid r s (drainNode r cr) Q"
  unfolding drainNode_def
proof (intro valid_bindE valid_cordonNode, goal_cases)
  case (4 e nd b)
  then show ?case using assms(4) [where e = e and nd = nd and b = b and ps = "pods s"] by simp
next
  case (5 nd)
  let ?s = "s\<lparr>node := Some nd, cordoned := True\<rparr>"
  have cur: "NodeName (Spec cr) = NodeName (Spec (cur ?s))" using assms(2) by simp
  have "valid r ?s (bindE (listPods (Client r) (NodeName (Spec cr))) (\<lambda>podList.
     let items = filter (\<lambda>pod. \<not> left_alone pod) podList
     in if items = [] then ret False else evict_all r items)) Q"
  proof (intro valid_bindE valid_listPods, goal_cases)
    case (3 e)
    then show ?case using assms(4) [where e = e and nd = "Some nd" and b = True and ps = "pods s"] by simp
  next
    case (4 ps)
    have "valid r (?s\<lparr>pods := Some ps\<rparr>) (if filter (\<lambda>pod. \<not> left_alone pod) ps = [] then ret False
        else evict_all r (filter (\<lambda>pod. \<not> left_alone pod) ps)) Q"
      using assms(3-6)
      by (intro valid_if valid_ret valid_evict_all) (auto simp: filter_empty_conv evictable_def)
    then show ?case by (simp add: Let_def)
  qed (use cur in auto)
  then show ?case by simp
qed (use assms in auto)

subsection \<open>Requests to the telemetry service\<close>

fun panics :: "cerror \<Rightarrow> bool" where
  "panics NilDereference = True"
| "panics (UpdatingStatus _ e) = panics e"
| "panics _ = False"

fun plain :: "cerror \<Rightarrow> bool" where
  "plain NilDereference = False"
| "plain (Uncordoning _) = False"
| "plain (UpdatingStatus _ e) = plain e"
| "plain _ = True"

lemma plain_no_panic: "plain e \<Longrightarrow> \<not> panics e"
  by (induction e rule: plain.induct) simp_all

lemma valid_fetchTelemetry:
  assumes "Spec cr = Spec (cur s)" and "\<And>e h. plain e \<Longrightarrow> Q (Inl e) (s\<lparr>reading := h\<rparr>)"
    and "\<And>h. Q (Inr h) (s\<lparr>reading := Some h\<rparr>)"
  shows "valid r s (fetchTelemetry r cr) Q"
proof -
  have err: "Q (Inl e) s" if "plain e" for e using assms(2) [OF that, of "reading s"] by simp
  have "telemetry_url r cr = telemetry_url r (cur s)" using assms(1) by (simp add: telemetry_url_def)
  then show ?thesis unfolding fetchTelemetry_def
    by (intro valid_if valid_bindE valid_httpGet)
       (auto intro!: vcg assms(2,3) err split: sum.splits option.splits)
qed

lemma valid_recoverGPU:
  assumes "Spec cr = Spec (cur s)" and "phase (cur s) = PhaseDraining" and "drained s" and "\<not> refused s"
    and "\<And>x. Q (Inr x) (s\<lparr>refused := (case x of Inl e \<Rightarrow> is_unrecoverable e | Inr _ \<Rightarrow> False)\<rparr>)"
  shows "valid r s (tried (recoverGPU r cr)) Q"
proof -
  have url: "recover_url r cr = recover_url r (cur s)" using assms(1) by (simp add: recover_url_def)
  have put: "valid r s (httpDo (Client r) MethodPut (recover_url r cr)) Q'"
    if "\<And>res. Q' (Inr res) (s\<lparr>refused := (case res of Inl _ \<Rightarrow> False | Inr rep \<Rightarrow> StatusCode rep = 409)\<rparr>)" for Q'
    using that assms(2,3) url by (auto simp: valid_def httpDo_def split: prod.splits)
  have same: "s\<lparr>refused := False\<rparr> = s" using assms(4) by (cases s) simp
  have err: "Q (Inr (Inl e)) (s\<lparr>refused := False\<rparr>)" if "\<not> is_unrecoverable e" for e using assms(5) [of "Inl e"] that by simp
  moreover have "Q (Inr (Inl e)) s" if "\<not> is_unrecoverable e" for e using err [OF that] same by simp
  moreover have "Q (Inr (Inl (GPUUnrecoverable i))) (s\<lparr>refused := True\<rparr>)" for i using assms(5) [of "Inl (GPUUnrecoverable i)"] by simp
  moreover have "Q (Inr (Inr ())) (s\<lparr>refused := False\<rparr>)" using assms(5) [of "Inr ()"] by simp
  ultimately show ?thesis unfolding recoverGPU_def
    by (intro valid_tried valid_if valid_bindE put) (auto intro!: vcg split: sum.splits)
qed

lemma valid_replaceGPU:
  assumes "Spec cr = Spec (cur s)" and "phase (cur s) = PhaseReplacing" and "cordoned s" and "ready s"
    and "\<And>x. Q (Inr x) s"
  shows "valid r s (tried (replaceGPU r cr)) Q"
proof -
  have url: "replace_url r cr = replace_url r (cur s)" using assms(1) by (simp add: replace_url_def)
  have put: "valid r s (httpDo (Client r) MethodPut (replace_url r cr)) Q'" if "\<And>res. Q' (Inr res) s" for Q'
    using that assms(2-4) url by (auto simp: valid_def httpDo_def split: prod.splits)
  show ?thesis unfolding replaceGPU_def
    by (intro valid_tried valid_if valid_bindE put) (auto intro!: vcg assms(5) split: sum.splits)
qed

subsection \<open>Writing the status\<close>

lemma observed_simps [simp]:
  "Name (set_observed n c) = Name c" "Spec (set_observed n c) = Spec c" "Generation (set_observed n c) = Generation c"
  "UID (set_observed n c) = UID c" "phase (set_observed n c) = phase c" "attempts_of (set_observed n c) = attempts_of c"
  "ReplacementStartedAt (Status (set_observed n c)) = ReplacementStartedAt (Status c)"
  "Conditions (Status (set_observed n c)) = Conditions (Status c)"
  "StatusFindings (Status (set_observed n c)) = StatusFindings (Status c)"
  "ObservedGeneration (Status (set_observed n c)) = n"
  by (simp_all add: set_observed_def)

lemma transition_simps [simp]:
  "Name (set_transition t c) = Name c" "Spec (set_transition t c) = Spec c" "Generation (set_transition t c) = Generation c"
  "UID (set_transition t c) = UID c" "phase (set_transition t c) = phase c" "attempts_of (set_transition t c) = attempts_of c"
  "ReplacementStartedAt (Status (set_transition t c)) = ReplacementStartedAt (Status c)"
  "Conditions (Status (set_transition t c)) = Conditions (Status c)"
  "StatusFindings (Status (set_transition t c)) = StatusFindings (Status c)"
  "ObservedGeneration (Status (set_transition t c)) = ObservedGeneration (Status c)"
  "LastTransitionTime (Status (set_transition t c)) = t"
  by (simp_all add: set_transition_def)

lemma phase_ok_cong:
  assumes "attempts_of c' = attempts_of c" and "Conditions (Status c') = Conditions (Status c)" and "Spec c' = Spec c"
  shows "phase_ok s c' p = phase_ok s c p"
  using assms by (cases p) (simp_all add: status_of_def uncounted_def counted_def exhausted_def automated_def)

lemma write_ok_transition [simp]: "write_ok s (set_transition t c) = write_ok s c"
  by (simp add: write_ok_def same_object_def findings_ok_def stamps_def clears_def uncounted_def
      phase_ok_cong [of "set_transition t c" c])

lemma needs_remedy_later: "needs_remedy s \<Longrightarrow> needs_remedy (s\<lparr>seen_times := insert t (seen_times s)\<rparr>)"
  by (auto simp: needs_remedy_def replacement_overdue_def reads_def split: option.splits)

lemma rejoining_overdue_later: "rejoining_overdue s \<Longrightarrow> rejoining_overdue (s\<lparr>seen_times := insert t (seen_times s)\<rparr>)"
  by (auto simp: rejoining_overdue_def reads_def split: option.splits)

lemma phase_ok_later: "phase_ok s c p \<Longrightarrow> phase_ok (s\<lparr>seen_times := insert t (seen_times s)\<rparr>) c p"
  using needs_remedy_later [of s t] rejoining_overdue_later [of s t]
  by (cases p) (auto simp: uncounted_def counted_def reads_def drained_def ready_def)

lemma write_ok_later: "write_ok s c \<Longrightarrow> write_ok (s\<lparr>seen_times := insert t (seen_times s)\<rparr>) c"
  using phase_ok_later [of s c "phase c" t]
  by (auto simp: write_ok_def findings_ok_def stamps_def clears_def ready_def uncounted_def reads_def)

lemma stored_as_refl [simp]: "stored_as c c"
  by (simp add: stored_as_def)

lemma stored_as_transition: "stored_as (set_transition t c) c' \<longleftrightarrow> stored_as c c'"
  by (simp add: stored_as_def)

lemma valid_syncStatus:
  assumes "faithful_server (Client r)" and "write_ok s (set_observed (Generation cr) cr)"
    and "\<And>e ts. Q (Inl (ApiError e)) (s\<lparr>seen_times := ts\<rparr>)"
    and "\<And>c ts. stored_as (set_observed (Generation cr) cr) c \<Longrightarrow> Q (Inr c) (s\<lparr>seen_times := ts, cur := c\<rparr>)"
  shows "valid r s (syncStatus r cr) Q"
proof -
  let ?c = "set_observed (Generation cr) cr"
  have name: "Name cr = Name (cur s)" using assms(2) by (simp add: write_ok_def same_object_def)
  have err: "Q (Inl (ApiError e)) s" for e using assms(3) [of e "seen_times s"] by simp
  have same: "Q (Inr c) (s\<lparr>cur := c\<rparr>)" if "stored_as ?c c" for c using assms(4) [OF that, of "seen_times s"] by simp
  have insync: "valid r s (bindE (emit (InSync ?c)) (\<lambda>_. ret ?c)) Q"
    using assms(2) same [of ?c] by (intro valid_bindE valid_emit) (auto intro: vcg)
  have put: "valid r s (putStatus (Client r) ?c) Q"
    using assms(2) err same by (intro valid_putStatus [OF assms(1)]) auto
  have "valid r s (bindE (timeNow (Client r)) (\<lambda>t. putStatus (Client r) (set_transition (Some t) ?c))) Q"
    using write_ok_later [OF assms(2)] assms(3,4)
    by (intro valid_bindE valid_timeNow) (auto simp: stored_as_transition intro!: valid_putStatus [OF assms(1)])
  with insync put show ?thesis unfolding syncStatus_def Let_def
    by (intro valid_bindE valid_getCR) (auto simp: name err)
qed

lemma valid_sync_wrapped:
  assumes "faithful_server (Client r)" and "write_ok s (set_observed (Generation cr) cr)"
    and "\<And>e ts. plain e \<Longrightarrow> Q (Inl e) (s\<lparr>seen_times := ts\<rparr>)"
    and "\<And>c ts. stored_as (set_observed (Generation cr) cr) c \<Longrightarrow> Q (Inr c) (s\<lparr>seen_times := ts, cur := c\<rparr>)"
  shows "valid r s (sync_wrapped r cr) Q"
  unfolding sync_wrapped_def
  by (intro valid_wrap valid_syncStatus [OF assms(1,2)]) (auto intro: assms(3,4))

end
