(* ===== verification/Refinement.thy ===== *)
theory Refinement
  imports Protocol
begin

text \<open>
  The reconciler refines the protocol of the operator: every run of \<^verbatim>\<open>Reconcile\<close> is accepted by the
  automaton of theory \<open>Protocol\<close>, ends without a nil dereference, and asks to be called again.
\<close>

definition outcome :: "(cerror, Result) result \<Rightarrow> mon \<Rightarrow> bool" where
  "outcome x s \<longleftrightarrow> (case x of Inl e \<Rightarrow> plain e \<or> (\<exists>u. e = Uncordoning u) \<and> phase (cur s) = PhaseHealthy
     | Inr res \<Rightarrow> RequeueAfter res \<in> {10 * second, 15 * second, 30 * second, 120 * second} \<and>
         (RequeueAfter res = 120 * second \<longrightarrow> phase (cur s) = PhaseFailed))"

lemma outcome_error [simp]:
  "plain e \<Longrightarrow> outcome (Inl e) s" "outcome (Inl (Uncordoning u)) s \<longleftrightarrow> phase (cur s) = PhaseHealthy"
  by (simp_all add: outcome_def)

lemma outcome_requeue [simp]:
  "outcome (Inr (requeue 10)) s" "outcome (Inr (requeue 15)) s" "outcome (Inr (requeue 30)) s"
  "outcome (Inr (requeue 120)) s \<longleftrightarrow> phase (cur s) = PhaseFailed"
  by (simp_all add: outcome_def requeue_def)

section \<open>Writing a status and leaving\<close>

definition conditions_set :: "Condition \<Rightarrow> GPUHealthCR \<Rightarrow> Condition list \<Rightarrow> bool" where
  "conditions_set c cr cs \<longleftrightarrow> cond_status cs = (cond_status (Conditions (Status cr)))(CondType c \<mapsto> CondStatus c) \<and>
     keeps_keys (Conditions (Status cr)) cs"

lemma conditions_set_keys: "conditions_set c cr cs \<Longrightarrow> keeps_keys (Conditions (Status cr)) cs"
  by (simp add: conditions_set_def)

definition written :: "GPUHealthCR \<Rightarrow> Condition list \<Rightarrow> GPUHealthCR" where
  "written cr cs = set_observed (Generation cr) (set_conditions cs cr)"

lemma written_simps [simp]:
  "Name (written c cs) = Name c" "Spec (written c cs) = Spec c" "Generation (written c cs) = Generation c"
  "UID (written c cs) = UID c" "phase (written c cs) = phase c" "attempts_of (written c cs) = attempts_of c"
  "ReplacementStartedAt (Status (written c cs)) = ReplacementStartedAt (Status c)"
  "Conditions (Status (written c cs)) = cs"
  "StatusFindings (Status (written c cs)) = StatusFindings (Status c)"
  "ObservedGeneration (Status (written c cs)) = Generation c"
  by (simp_all add: written_def set_conditions_def set_observed_def)

lemma set_simps [simp]:
  "Name (set_phase p c) = Name c" "Spec (set_phase p c) = Spec c" "Generation (set_phase p c) = Generation c"
  "UID (set_phase p c) = UID c" "phase (set_phase p c) = p" "attempts_of (set_phase p c) = attempts_of c"
  "ReplacementStartedAt (Status (set_phase p c)) = ReplacementStartedAt (Status c)"
  "Conditions (Status (set_phase p c)) = Conditions (Status c)"
  "StatusFindings (Status (set_phase p c)) = StatusFindings (Status c)"
  "ObservedGeneration (Status (set_phase p c)) = ObservedGeneration (Status c)"
  "Name (set_attempts n c) = Name c" "Spec (set_attempts n c) = Spec c" "Generation (set_attempts n c) = Generation c"
  "UID (set_attempts n c) = UID c" "phase (set_attempts n c) = phase c" "attempts_of (set_attempts n c) = n"
  "ReplacementStartedAt (Status (set_attempts n c)) = ReplacementStartedAt (Status c)"
  "Conditions (Status (set_attempts n c)) = Conditions (Status c)"
  "StatusFindings (Status (set_attempts n c)) = StatusFindings (Status c)"
  "ObservedGeneration (Status (set_attempts n c)) = ObservedGeneration (Status c)"
  "Name (set_started t c) = Name c" "Spec (set_started t c) = Spec c" "Generation (set_started t c) = Generation c"
  "UID (set_started t c) = UID c" "phase (set_started t c) = phase c" "attempts_of (set_started t c) = attempts_of c"
  "ReplacementStartedAt (Status (set_started t c)) = t"
  "Conditions (Status (set_started t c)) = Conditions (Status c)"
  "StatusFindings (Status (set_started t c)) = StatusFindings (Status c)"
  "ObservedGeneration (Status (set_started t c)) = ObservedGeneration (Status c)"
  "Name (set_findings f c) = Name c" "Spec (set_findings f c) = Spec c" "Generation (set_findings f c) = Generation c"
  "UID (set_findings f c) = UID c" "phase (set_findings f c) = phase c" "attempts_of (set_findings f c) = attempts_of c"
  "ReplacementStartedAt (Status (set_findings f c)) = ReplacementStartedAt (Status c)"
  "StatusFindings (Status (set_findings f c)) = f"
  "Conditions (Status (set_findings f c)) = Conditions (Status c)"
  "ObservedGeneration (Status (set_findings f c)) = ObservedGeneration (Status c)"
  by (simp_all add: set_status_defs)

lemma status_of_written:
  "conditions_set (condition ty st reason msg d) cr cs \<Longrightarrow> status_of (written c cs) ty = Some st"
  by (simp add: conditions_set_def condition_def status_of_def)

lemma valid_condition_then:
  assumes "condition_law (Client r)" and "\<And>cs. conditions_set c cr cs \<Longrightarrow> valid r s (f (set_conditions cs cr)) Q"
  shows "valid r s (bindE (SetStatusCondition (Client r) c cr) f) Q"
  using assms by (intro valid_bindE valid_SetStatusCondition) (auto simp: conditions_set_def)

lemma valid_leave:
  assumes "faithful_server (Client r)" and "condition_law (Client r)"
    and "\<And>cs. conditions_set c cr cs \<Longrightarrow> write_ok s (written cr cs)"
  shows "valid r s (bindE (SetStatusCondition (Client r) c cr) (\<lambda>cr. bindE (sync_wrapped r cr) (\<lambda>_. ret (requeue 30)))) outcome"
    and "valid r s (bindE (SetStatusCondition (Client r) c cr) (\<lambda>cr. bindE (syncStatus r cr) (\<lambda>_. ret (requeue 30)))) outcome"
proof -
  have g: "write_ok s (set_observed (Generation (set_conditions cs cr)) (set_conditions cs cr))" if "conditions_set c cr cs" for cs
    using assms(3) [OF that] by (simp add: written_def set_conditions_def)
  show "valid r s (bindE (SetStatusCondition (Client r) c cr) (\<lambda>cr. bindE (sync_wrapped r cr) (\<lambda>_. ret (requeue 30)))) outcome"
    using g by (intro valid_condition_then valid_bindE valid_sync_wrapped assms(1,2)) (auto intro: vcg)
  show "valid r s (bindE (SetStatusCondition (Client r) c cr) (\<lambda>cr. bindE (syncStatus r cr) (\<lambda>_. ret (requeue 30)))) outcome"
    using g by (intro valid_condition_then valid_bindE valid_syncStatus assms(1,2)) (auto intro: vcg)
qed

section \<open>Failed\<close>

lemma write_ok_same:
  assumes "same_object c (cur s)" and "StatusFindings (Status c) = StatusFindings (Status (cur s))" and "clears s c"
    and "phase_ok s (written c cs) (phase c)" and "keeps_keys (Conditions (Status (cur s))) cs"
  shows "write_ok s (written c cs)"
  using assms by (simp add: write_ok_def same_object_def findings_ok_def clears_def)

lemma stored_phase: "stored_as (set_observed g (set_conditions cs c)) d \<Longrightarrow> phase d = phase c"
  by (simp add: stored_as_def set_conditions_def)

lemma valid_returnFailed:
  assumes "faithful_server (Client r)" and "condition_law (Client r)" and "cur s = cr" and "phase cr = PhaseFailed"
    and "reads StatusHealthy s \<or> released s"
  shows "valid r s (returnFailedToService r cr msg) outcome"
proof -
  let ?c = "set_phase PhaseHealthy (set_attempts 0 cr)"
  have w: "write_ok s (written ?c cs)" if "conditions_set (condition ConditionGPUHealthy True reasonGPUHealthy msg cr) ?c cs" for cs
    using assms(3-5) status_of_written [OF that, of ?c] conditions_set_keys [OF that]
    by (intro write_ok_same) (auto simp: same_object_def clears_def)
  then have w: "write_ok s (set_observed (Generation (set_conditions cs ?c)) (set_conditions cs ?c))"
    if "conditions_set (condition ConditionGPUHealthy True reasonGPUHealthy msg cr) ?c cs" for cs
    using that by (simp add: written_def set_conditions_def)
  have "valid r (s\<lparr>seen_times := ts, cur := c\<rparr>)
      (bindE (wrap (\<lambda>_. Uncordoning (UID c)) (uncordonNode r c)) (\<lambda>_. ret (requeue 30))) outcome"
    if "phase c = PhaseHealthy" for ts c
    using that assms(5) by (intro valid_bindE valid_wrap valid_uncordonNode assms(1)) (auto intro: vcg simp: may_uncordon_def reads_def)
  with w show ?thesis unfolding returnFailedToService_def
    by (intro valid_condition_then valid_bindE valid_sync_wrapped assms(1,2)) (auto dest!: stored_phase)
qed

lemma valid_handleFailed:
  assumes "faithful_server (Client r)" and "condition_law (Client r)" and "cur s = cr" and "phase cr = PhaseFailed"
    and "spec_changed cr \<longrightarrow> released s"
  shows "valid r s (handleFailed r cr) outcome"
proof -
  have "valid r (s\<lparr>reading := Some h\<rparr>) (returnFailedToService r cr msg) outcome" if "Health h = StatusHealthy" for h msg
    using assms that by (intro valid_returnFailed) (simp_all add: reads_def)
  then show ?thesis unfolding handleFailed_def using assms
    by (intro valid_if valid_returnFailed valid_bindE valid_fetchTelemetry) (auto simp: spec_changed_def intro!: vcg)
qed

section \<open>Remediation\<close>

definition remedy_due :: "mon \<Rightarrow> GPUHealthCR \<Rightarrow> bool" where
  "remedy_due s cr \<longleftrightarrow> same_object cr (cur s) \<and> phase cr = phase (cur s) \<and> attempts_of cr = attempts_of (cur s) \<and>
     ObservedGeneration (Status cr) = ObservedGeneration (Status (cur s)) \<and> findings_ok s cr \<and> clears s cr \<and> needs_remedy s \<and>
     Conditions (Status cr) = Conditions (Status (cur s))"

lemma needs_remedy_frame [simp]:
  "needs_remedy (s\<lparr>node := nd\<rparr>) = needs_remedy s" "needs_remedy (s\<lparr>cordoned := b\<rparr>) = needs_remedy s"
  "needs_remedy (s\<lparr>pods := ps\<rparr>) = needs_remedy s"
  by (simp_all add: needs_remedy_def replacement_overdue_def reads_def cong: option.case_cong)

lemma remedy_due_frame [simp]:
  "remedy_due (s\<lparr>node := nd\<rparr>) cr = remedy_due s cr" "remedy_due (s\<lparr>cordoned := b\<rparr>) cr = remedy_due s cr"
  "remedy_due (s\<lparr>pods := ps\<rparr>) cr = remedy_due s cr"
  by (simp_all add: remedy_due_def findings_ok_def clears_def reads_def)

lemma remedy_due_write:
  assumes "remedy_due s cr" and "phase_ok s (written (set_phase p c) cs) p" and "same_object c cr"
    and "StatusFindings (Status c) = StatusFindings (Status cr)"
    and "ReplacementStartedAt (Status c) = ReplacementStartedAt (Status cr)"
    and "keeps_keys (Conditions (Status cr)) cs"
  shows "write_ok s (written (set_phase p c) cs)"
  using assms by (auto simp: write_ok_def remedy_due_def same_object_def findings_ok_def clears_def)

lemma count_attempt_simps [simp]:
  "Name (count_attempt c) = Name c" "Spec (count_attempt c) = Spec c" "Generation (count_attempt c) = Generation c"
  "UID (count_attempt c) = UID c" "phase (count_attempt c) = phase c"
  "attempts_of (count_attempt c) = (if spec_changed c then 0 else attempts_of c) + 1"
  "ReplacementStartedAt (Status (count_attempt c)) = ReplacementStartedAt (Status c)"
  "StatusFindings (Status (count_attempt c)) = StatusFindings (Status c)"
  "Conditions (Status (count_attempt c)) = Conditions (Status c)"
  by (simp_all add: count_attempt_def Let_def spec_changed_def)

lemma counted_attempt:
  assumes "remedy_due s cr"
  shows "counted s (written (set_phase p (count_attempt cr)) cs)"
  using assms by (simp add: counted_def remedy_due_def same_object_def spec_changed_def)

lemma valid_after_attempt:
  assumes "faithful_server (Client r)" and "condition_law (Client r)" and "remedy_due s cr"
    and "p = PhaseDraining \<and> drained s \<and> policy cr = RemediationPolicyDrain \<or>
         p = PhaseReplacing \<and> cordoned s \<and> policy cr = RemediationPolicyReplace"
  shows "valid r s (after_attempt r p msg cr) outcome"
  unfolding after_attempt_def Let_def
proof (intro valid_if)
  let ?c = "count_attempt cr"
  assume ex: "MaxRemediationAttempts (Spec ?c) \<le>s attempts_of ?c"
  let ?f = "set_phase PhaseFailed ?c"
  let ?cond = "condition ConditionEscalationRequired True reasonGPUFailed ''GPU has failed and requires replacement'' ?c"
  have w: "write_ok s (written ?f cs)" if "conditions_set ?cond ?f cs" for cs
    using assms(3,4) ex status_of_written [OF that, of ?f] conditions_set_keys [OF that] counted_attempt [OF assms(3), of PhaseFailed cs]
    by (intro remedy_due_write [OF assms(3)])
       (auto simp: exhausted_def automated_def remedy_due_def same_object_def drained_def)
  have failed: "valid r (s\<lparr>seen_times := ts, cur := c\<rparr>) (handleFailed r c) outcome"
    if "stored_as (written ?f cs) c" for ts c cs
    using that by (intro valid_handleFailed assms(1,2)) (auto simp: stored_as_def spec_changed_def)
  show "valid r s (bindE (SetStatusCondition (Client r) ?cond ?f) (\<lambda>cr. bindE (sync_wrapped r cr) (handleFailed r))) outcome"
    using w failed by (intro valid_condition_then valid_bindE valid_sync_wrapped assms(1,2))
      (auto simp: written_def set_conditions_def)
next
  let ?c = "count_attempt cr"
  assume ex: "\<not> MaxRemediationAttempts (Spec ?c) \<le>s attempts_of ?c"
  show "valid r s (bindE (SetStatusCondition (Client r)
      (condition ConditionRemediationInProgress True reasonGPUCritical msg ?c) (set_phase p ?c))
      (\<lambda>cr. bindE (sync_wrapped r cr) (\<lambda>_. ret (requeue 30)))) outcome"
  proof (rule valid_leave [OF assms(1,2)])
    fix cs assume "conditions_set (condition ConditionRemediationInProgress True reasonGPUCritical msg ?c) (set_phase p ?c) cs"
    from status_of_written [OF this, of "set_phase p ?c"] conditions_set_keys [OF this] show "write_ok s (written (set_phase p ?c) cs)"
      using assms(3,4) ex counted_attempt [OF assms(3), of p cs]
      by (intro remedy_due_write [OF assms(3)]) (auto simp: exhausted_def remedy_due_def same_object_def)
  qed
qed

lemma remedy_due_spec: "remedy_due s cr \<Longrightarrow> Spec cr = Spec (cur s)"
  by (simp add: remedy_due_def same_object_def)

lemma remedy_due_may_cordon: "remedy_due s cr \<Longrightarrow> automated cr \<Longrightarrow> may_cordon s"
  by (simp add: remedy_due_def may_cordon_def automated_def same_object_def)

lemma valid_critical_write:
  assumes "faithful_server (Client r)" and "condition_law (Client r)" and "remedy_due s cr"
    and "ty = ConditionGPUHealthy \<and> \<not> st \<and> policy cr = RemediationPolicyNone \<or>
         ty = ConditionEscalationRequired \<and> st \<and> policy cr = RemediationPolicyEscalate"
  shows "valid r s (bindE (SetStatusCondition (Client r) (condition ty st reason msg cr) (set_phase PhaseCritical cr))
    (\<lambda>cr. bindE (sync_wrapped r cr) (\<lambda>_. ret (requeue 30)))) outcome"
proof (rule valid_leave [OF assms(1,2)])
  fix cs assume "conditions_set (condition ty st reason msg cr) (set_phase PhaseCritical cr) cs"
  from status_of_written [OF this, of "set_phase PhaseCritical cr"] conditions_set_keys [OF this]
  show "write_ok s (written (set_phase PhaseCritical cr) cs)"
    using assms(3,4) by (intro remedy_due_write [OF assms(3)]) (auto simp: remedy_due_def uncounted_def same_object_def)
qed

lemma valid_handleRemediation:
  assumes "faithful_server (Client r)" and "condition_law (Client r)" and "remedy_due s cr"
  shows "valid r s (handleRemediation r cr) outcome"
proof (cases "policy cr")
  case RemediationPolicyDrain
  then have "valid r s (handleRemediationPolicyDrain r cr) outcome"
    unfolding handleRemediationPolicyDrain_def
    using assms remedy_due_spec [OF assms(3)] remedy_due_may_cordon [OF assms(3)]
    by (intro valid_bindE valid_drainNode) (auto intro!: vcg valid_after_attempt simp: automated_def drained_def)
  then show ?thesis using RemediationPolicyDrain by (simp add: handleRemediation_def)
next
  case RemediationPolicyReplace
  then have "valid r s (handleRemediationPolicyReplacing r cr) outcome"
    unfolding handleRemediationPolicyReplacing_def
    using assms remedy_due_spec [OF assms(3)] remedy_due_may_cordon [OF assms(3)]
    by (intro valid_bindE valid_cordonNode) (auto intro!: vcg valid_after_attempt simp: automated_def)
  then show ?thesis using RemediationPolicyReplace by (simp add: handleRemediation_def)
next
  case RemediationPolicyEscalate
  then show ?thesis using valid_critical_write [OF assms, of ConditionEscalationRequired True]
    by (simp add: handleRemediation_def handleRemediationPolicyEscalate_def)
next
  case RemediationPolicyNone
  then show ?thesis using valid_critical_write [OF assms, of ConditionGPUHealthy False]
    by (simp add: handleRemediation_def handleRemediationPolicyNone_def)
next
  case (RemediationPolicyOther x)
  then show ?thesis by (simp add: handleRemediation_def valid_fail)
qed

section \<open>The other phases\<close>

lemma same_object_set [simp]:
  "same_object c c" "same_object (set_phase p c) d = same_object c d" "same_object (set_attempts n c) d = same_object c d"
  "same_object (set_started t c) d = same_object c d" "same_object (set_findings f c) d = same_object c d"
  "same_object (set_observed g c) d = same_object c d" "same_object (set_transition t c) d = same_object c d"
  by (simp_all add: same_object_def)

lemma valid_leave_phase:
  assumes "faithful_server (Client r)" and "condition_law (Client r)"
    and "same_object c (cur s)" and "StatusFindings (Status c) = StatusFindings (Status (cur s))" and "clears s c"
    and "Conditions (Status c) = Conditions (Status (cur s))"
    and "\<And>cs. status_of (written c cs) ty = Some st \<Longrightarrow> phase_ok s (written c cs) (phase c)"
  shows "valid r s (bindE (SetStatusCondition (Client r) (condition ty st reason msg d) c)
      (\<lambda>cr. bindE (sync_wrapped r cr) (\<lambda>_. ret (requeue 30)))) outcome"
    and "valid r s (bindE (SetStatusCondition (Client r) (condition ty st reason msg d) c)
      (\<lambda>cr. bindE (syncStatus r cr) (\<lambda>_. ret (requeue 30)))) outcome"
  using assms by (auto intro!: valid_leave write_ok_same dest: status_of_written conditions_set_keys)

lemma valid_handleDraining:
  assumes "faithful_server (Client r)" and "condition_law (Client r)" and "cur s = cr" and "phase cr = PhaseDraining"
    and "\<not> refused s"
  shows "valid r s (handleDraining r cr) outcome"
proof -
  have "valid r s' (bindE (tried (recoverGPU r cr)) (\<lambda>err.
       if (case err of Inl e \<Rightarrow> is_unrecoverable e | Inr _ \<Rightarrow> False) then
         bindE (SetStatusCondition (Client r)
                  (condition ConditionRemediationInProgress True reasonGPUCritical
                     ''GPU drain revealed unrecoverable hardware failure, escalating to replacement'' cr)
                  (set_phase PhaseReplacing cr)) (\<lambda>cr.
         bindE (sync_wrapped r cr) (\<lambda>_. ret (requeue 30)))
       else
         bindE (SetStatusCondition (Client r)
                  (condition ConditionRemediationInProgress True reasonGPURecovering
                     ''GPU node drain complete, entering recovery'' cr)
                  (set_phase PhaseRecovering cr)) (\<lambda>cr.
         bindE (sync_wrapped r cr) (\<lambda>_. ret (requeue 30))))) outcome"
    if "drained s'" "cur s' = cr" "\<not> refused s'" for s'
    using that assms(4)
    by (intro valid_bindE valid_recoverGPU)
       (auto intro!: valid_leave_phase assms(1,2) simp: clears_def uncounted_def drained_def split: sum.splits)
  then show ?thesis unfolding handleDraining_def using assms
    by (intro valid_bindE valid_drainNode) (auto intro!: vcg simp: drained_def may_cordon_def)
qed

lemma valid_back_in_service:
  assumes "faithful_server (Client r)" and "condition_law (Client r)" and "cur s = cr"
    and "phase cr \<in> {PhaseRecovering, PhaseRejoining}" and "reads StatusHealthy s"
  shows "valid r s (bindE (uncordonNode r cr) (\<lambda>_.
         bindE (SetStatusCondition (Client r) (condition ConditionGPUHealthy True reason msg cr)
                  (set_attempts 0 (set_phase PhaseHealthy cr))) (\<lambda>cr.
         bindE (syncStatus r cr) (\<lambda>_. ret (requeue 30))))) outcome"
proof -
  have "valid r (s\<lparr>node := nd, cordoned := b\<rparr>) (bindE (SetStatusCondition (Client r)
        (condition ConditionGPUHealthy True reason msg cr) (set_attempts 0 (set_phase PhaseHealthy cr))) (\<lambda>cr.
         bindE (syncStatus r cr) (\<lambda>_. ret (requeue 30)))) outcome" for nd b
    using assms(3-5) by (intro valid_leave_phase assms(1,2)) (auto simp: clears_def reads_def)
  then show ?thesis using assms(3-5) by (intro valid_bindE valid_uncordonNode assms(1)) (auto simp: may_uncordon_def)
qed

lemma remedy_due_here:
  "cur s = cr \<Longrightarrow> phase cr \<in> {PhaseRecovering, PhaseRejoining} \<Longrightarrow> reads StatusCritical s \<Longrightarrow> remedy_due s cr"
  by (auto simp: remedy_due_def findings_ok_def clears_def needs_remedy_def)

lemma valid_handleRecovering:
  assumes "faithful_server (Client r)" and "condition_law (Client r)" and "cur s = cr" and "phase cr = PhaseRecovering"
  shows "valid r s (handleRecovering r cr) outcome"
  unfolding handleRecovering_def
proof (intro valid_bindE valid_fetchTelemetry, goal_cases)
  case (3 h)
  have "valid r (s\<lparr>reading := Some h\<rparr>) (bindE (SetStatusCondition (Client r)
          (condition ConditionRemediationInProgress True reasonGPURecovering ''GPU is recovering'' cr)
          (set_phase PhaseRecovering cr)) (\<lambda>cr. bindE (syncStatus r cr) (\<lambda>_. ret (requeue 30)))) outcome"
    if "Health h = StatusWarning"
    using that assms(3,4) by (intro valid_leave_phase assms(1,2)) (auto simp: clears_def uncounted_def reads_def)
  then show ?case using assms(3,4)
    by (cases "Health h")
       (auto intro!: valid_back_in_service valid_handleRemediation remedy_due_here assms(1,2) valid_fail simp: reads_def)
qed (use assms(3) in auto)

lemma valid_handleRejoining_warning:
  assumes "faithful_server (Client r)" and "condition_law (Client r)" and "cur s = cr" and "phase cr = PhaseRejoining"
    and "reads StatusWarning s"
  shows "valid r s (handleRejoining_warning r cr) outcome"
proof -
  let ?c = "\<lambda>since. set_transition (Some since) cr"
  have leave: "valid r s' (bindE (SetStatusCondition (Client r)
        (condition ConditionEscalationRequired True reasonGPUFailed ''GPU has failed to rejoin within the allowed timeout'' c)
        (set_phase PhaseFailed c)) (\<lambda>cr. bindE (syncStatus r cr) (\<lambda>_. ret (requeue 30)))) outcome"
    if "cur s' = cr" "rejoining_overdue s'" "c = cr \<or> c = ?c since" for s' c since
    using that assms(4) by (intro valid_leave_phase assms(1,2)) (auto simp: clears_def uncounted_def)
  have over: "rejoining_overdue s'"
    if "cur s' = cr" "reads StatusWarning s'" "t \<in> seen_times s'"
      "\<forall>since. LastTransitionTime (Status cr) = Some since \<longrightarrow> since + timeout (RejoiningTimeoutSeconds (Spec cr)) \<le> t" for s' t
    using that assms(4) by (auto simp: rejoining_overdue_def split: option.splits)
  have tail: "valid r s' (bindE (timeNow (Client r)) (\<lambda>t.
         if since + timeout (RejoiningTimeoutSeconds (Spec cr)) > t then ret (requeue 30)
         else bindE (SetStatusCondition (Client r)
                    (condition ConditionEscalationRequired True reasonGPUFailed
                       ''GPU has failed to rejoin within the allowed timeout'' c)
                    (set_phase PhaseFailed c)) (\<lambda>cr. bindE (syncStatus r cr) (\<lambda>_. ret (requeue 30))))) outcome"
    if "cur s' = cr" "reads StatusWarning s'"
      "c = cr \<and> LastTransitionTime (Status cr) = Some since \<or> c = ?c since \<and> LastTransitionTime (Status cr) = None" for s' c since
    using that by (intro valid_bindE valid_timeNow)
      (auto intro!: vcg valid_if leave [of _ _ since] over simp: reads_def not_less)
  have s: "cur (s\<lparr>seen_times := ts\<rparr>) = cr" "reads StatusWarning (s\<lparr>seen_times := ts\<rparr>)" for ts
    using assms(3,5) by (simp_all add: reads_def)
  show ?thesis
  proof (cases "LastTransitionTime (Status cr)")
    case None
    then show ?thesis unfolding handleRejoining_warning_def
      by (simp, intro valid_bindE valid_timeNow) (simp, intro valid_ret, simp, intro tail s, simp)
  next
    case (Some since)
    then show ?thesis unfolding handleRejoining_warning_def
      by (simp, intro valid_bindE valid_ret) (simp, intro tail assms(3,5), simp)
  qed
qed

lemma valid_handleRejoining:
  assumes "faithful_server (Client r)" and "condition_law (Client r)" and "cur s = cr" and "phase cr = PhaseRejoining"
  shows "valid r s (handleRejoining r cr) outcome"
  unfolding handleRejoining_def
proof (intro valid_bindE valid_fetchTelemetry, goal_cases)
  case (3 h)
  then show ?case using assms(3,4)
    by (cases "Health h")
       (auto intro!: valid_back_in_service valid_handleRemediation valid_handleRejoining_warning remedy_due_here
          assms(1,2) valid_fail simp: reads_def)
qed (use assms(3) in auto)

lemma stamp_ok:
  assumes "cur s = cr" and "phase cr = PhaseReplacing" and "ReplacementStartedAt (Status cr) = None" and "cordoned s" and "\<not> ready s"
  shows "write_ok s (set_observed (Generation cr) (set_started (Some t) cr))"
  using assms by (simp add: write_ok_def stamps_def findings_ok_def uncounted_def keeps_keys_def)

lemma valid_overdue:
  assumes "faithful_server (Client r)" and "condition_law (Client r)" and "cur s = cr" and "phase cr = PhaseReplacing"
    and "ReplacementStartedAt (Status cr) = Some t0"
  shows "valid r s (bindE (timeNow (Client r)) (\<lambda>t.
         if t > t0 + timeout (ReplacementTimeoutSeconds (Spec cr)) then handleRemediation r (set_started None cr)
         else ret (requeue 15))) outcome"
  using assms(3-5)
  by (intro valid_bindE valid_timeNow)
     (auto intro!: valid_if vcg valid_handleRemediation assms(1,2)
       simp: remedy_due_def findings_ok_def clears_def needs_remedy_def replacement_overdue_def)

lemma valid_handleReplacing_down:
  assumes "faithful_server (Client r)" and "condition_law (Client r)" and "cur s = cr" and "phase cr = PhaseReplacing"
    and "cordoned s" and "\<not> ready s"
  shows "valid r s (handleReplacing_down r cr) outcome"
proof (cases "ReplacementStartedAt (Status cr)")
  case None
  have after: "valid r s' (case ReplacementStartedAt (Status c) of
       None \<Rightarrow> fail NilDereference
     | Some started \<Rightarrow>
         bindE (timeNow (Client r)) (\<lambda>t.
         if t > started + timeout (ReplacementTimeoutSeconds (Spec c))
         then handleRemediation r (set_started None c)
         else ret (requeue 15))) outcome"
    if "cur s' = c" "stored_as (set_observed (Generation cr) (set_started (Some t) cr)) c" for s' c t
  proof -
    have c: "phase c = PhaseReplacing" "ReplacementStartedAt (Status c) \<noteq> None"
      using that(2) assms(4) by (simp_all add: stored_as_def)
    then obtain y where y: "ReplacementStartedAt (Status c) = Some y" by blast
    show ?thesis using valid_overdue [OF assms(1,2) that(1) c(1) y] y by simp
  qed
  have "write_ok (s\<lparr>seen_times := insert t (seen_times s)\<rparr>) (set_observed (Generation cr) (set_started (Some t) cr))" for t
    by (rule write_ok_later [OF stamp_ok]) (use assms None in auto)
  then show ?thesis unfolding handleReplacing_down_def using None
    by (simp, intro valid_bindE valid_timeNow) (auto intro!: valid_syncStatus assms(1) after)
next
  case (Some t0)
  then show ?thesis unfolding handleReplacing_down_def
    by (simp, intro valid_bindE valid_ret) (auto intro!: valid_overdue assms)
qed

lemma valid_handleReplacing:
  assumes "faithful_server (Client r)" and "condition_law (Client r)" and "cur s = cr" and "phase cr = PhaseReplacing"
  shows "valid r s (handleReplacing r cr) outcome"
proof -
  have rejoin: "valid r s' (bindE (tried (replaceGPU r cr)) (\<lambda>_.
       bindE (SetStatusCondition (Client r) (condition ConditionRemediationInProgress True reasonGPURejoining msg cr)
                (set_phase PhaseRejoining c)) (\<lambda>cr.
       bindE (syncStatus r cr) (\<lambda>_. ret (requeue 30))))) outcome"
    if "cur s' = cr" "cordoned s'" "ready s'" "c = set_started None cr \<or> c = cr \<and> ReplacementStartedAt (Status cr) = None" for s' msg c
    using that assms(4)
    by (intro valid_bindE valid_replaceGPU)
       (auto intro!: valid_leave_phase assms(1,2) simp: clears_def uncounted_def)
  have ready: "valid r s' (if \<not> node_ready nd then handleReplacing_down r cr
     else if ReplacementStartedAt (Status cr) \<noteq> None then
       bindE (tried (replaceGPU r cr)) (\<lambda>_.
       bindE (SetStatusCondition (Client r)
                (condition ConditionRemediationInProgress True reasonGPURejoining ''GPU is rejoining'' cr)
                (set_phase PhaseRejoining (set_started None cr))) (\<lambda>cr.
       bindE (syncStatus r cr) (\<lambda>_. ret (requeue 30))))
     else
       bindE (tried (replaceGPU r cr)) (\<lambda>_.
       bindE (SetStatusCondition (Client r)
                (condition ConditionRemediationInProgress True reasonGPURejoining ''GPU hardware replaced, rejoining fleet'' cr)
                (set_phase PhaseRejoining cr)) (\<lambda>cr.
       bindE (syncStatus r cr) (\<lambda>_. ret (requeue 30))))) outcome"
    if "cur s' = cr" "cordoned s'" "node s' = Some nd" for s' nd
    using that assms(4)
    by (intro valid_if valid_handleReplacing_down rejoin assms(1,2)) (auto simp: ready_def)
  have check: "valid r (s\<lparr>node := Some nd, cordoned := True\<rparr>) (bindE (isNodeReady r cr) f) outcome"
    if "\<And>s' nd'. cur s' = cr \<Longrightarrow> cordoned s' \<Longrightarrow> node s' = Some nd' \<Longrightarrow> valid r s' (f (node_ready nd')) outcome" for nd f
    using assms(3) by (intro valid_bindE valid_isNodeReady assms(1)) (auto intro!: that)
  show ?thesis unfolding handleReplacing_def
  proof (intro valid_bindE valid_cordonNode assms(1), goal_cases)
    case (4 nd)
    then show ?case by (simp only: sum.case) (rule check, rule ready)
  qed (use assms(3,4) in \<open>auto simp: may_cordon_def\<close>)
qed

lemma valid_handleObserving:
  assumes "faithful_server (Client r)" and "condition_law (Client r)" and "cur s = cr" and "observing (phase cr)"
  shows "valid r s (handleObserving r cr) outcome"
  unfolding handleObserving_def
proof (intro valid_bindE valid_fetchTelemetry, goal_cases)
  case (3 h)
  have not_replacing: "phase cr \<noteq> PhaseReplacing" using assms(4) by (auto simp: observing_def)
  have "remedy_due (s\<lparr>reading := Some h, seen_times := insert ts (seen_times s)\<rparr>)
      (set_findings (mergeFindings ts (StatusFindings (Status cr)) h 100) cr)" if "Health h = StatusCritical" for ts
    using that assms(3,4) not_replacing
    by (auto simp: remedy_due_def findings_ok_def clears_def needs_remedy_def reads_def)
  then have critical: "valid r (s\<lparr>reading := Some h\<rparr>) (bindE (timeNow (Client r)) (\<lambda>ts.
         handleRemediation r (set_findings (mergeFindings ts (StatusFindings (Status cr)) h 100) cr))) outcome"
    if "Health h = StatusCritical"
    using that by (intro valid_bindE valid_timeNow) (auto intro!: valid_handleRemediation assms(1,2))
  show ?case using critical assms(3,4) not_replacing
    by (cases "Health h")
       (auto intro!: valid_leave_phase assms(1,2) valid_fail simp: clears_def uncounted_def reads_def)
qed (use assms(3) in auto)

section \<open>Reconcile\<close>

lemma observing_phases: "p \<in> set observingPhases \<longleftrightarrow> observing p"
  by (simp add: observingPhases_def observing_def)

lemma valid_reconcile_phase:
  assumes "faithful_server (Client r)" and "condition_law (Client r)"
  shows "valid r (start cr) (reconcile_phase r cr) outcome"
proof -
  have s: "cur (start cr) = cr" "\<not> refused (start cr)" "spec_changed cr \<longrightarrow> phase cr = PhaseFailed \<longrightarrow> released (start cr)"
    by (simp_all add: start_def)
  show ?thesis
  proof (cases "observing (phase cr)")
    case True
    then show ?thesis using valid_handleObserving [OF assms s(1)] by (simp add: reconcile_phase_def observing_phases)
  next
    case False
    then show ?thesis using s assms
      by (cases "phase cr")
         (auto simp: reconcile_phase_def observing_phases observing_def intro!: valid_handleFailed valid_handleDraining
            valid_handleRecovering valid_handleReplacing valid_handleRejoining valid_fail)
  qed
qed

lemma Reconcile_eq:
  "Reconcile r name w = (case get_cr (Client r) name w of
      (Inl e, w') \<Rightarrow> (if e = KNotFound then Inr \<lparr>RequeueAfter = 0\<rparr> else Inl (ApiError e), [GotCR name (Inl e)], w')
    | (Inr cr, w') \<Rightarrow> (case reconcile_phase r cr w' of (x, cs, w'') \<Rightarrow> (x, GotCR name (Inr cr) # cs, w'')))"
proof -
  obtain x w' where "get_cr (Client r) name w = (x, w')" by fastforce
  then show ?thesis
    by (cases x) (auto simp: Reconcile_def bindE_def tried_def getCR_def ret_def fail_def split: prod.split)
qed

theorem Reconcile_refines:
  assumes "faithful_server (Client r)" and "condition_law (Client r)"
    and "Reconcile r name w = (x, GotCR name (Inr cr) # cs, w')"
  shows "\<exists>s. mrun r (start cr) cs = Some s \<and> outcome x s"
proof -
  from assms(3) obtain w1 where "reconcile_phase r cr w1 = (x, cs, w')"
    by (auto simp: Reconcile_eq split: prod.splits sum.splits)
  then show ?thesis by (rule validD [OF valid_reconcile_phase [OF assms(1,2)]])
qed

end
