(* ===== verification/Operator.thy ===== *)
theory Operator
  imports Refinement
begin

text \<open>
  What the refinement of theory \<open>Refinement\<close> means for one reconcile run, stated on the calls it makes:
  the evidence every node change, eviction, request and status write rests on, the phase graph, and
  the discipline of the attempt counter.
\<close>

section \<open>Evidence\<close>

definition telemetry_reply :: "HealthStatus \<Rightarrow> call \<Rightarrow> bool" where
  "telemetry_reply st c \<longleftrightarrow> (case c of
       Http MethodGet _ (Inr rep) \<Rightarrow> StatusCode rep = 200 \<and> map_option Health (Body rep) = Some st
     | _ \<Rightarrow> False)"

definition cordon_reply :: "call \<Rightarrow> bool" where
  "cordon_reply c \<longleftrightarrow> (case c of
       GotNode _ (Inr nd) \<Rightarrow> Unschedulable nd
     | PutNode nd err \<Rightarrow> Unschedulable nd \<and> err \<in> {None, Some KConflict}
     | _ \<Rightarrow> False)"

definition conflict_reply :: "call \<Rightarrow> bool" where
  "conflict_reply c \<longleftrightarrow> (case c of Http MethodPut _ (Inr rep) \<Rightarrow> StatusCode rep = 409 | _ \<Rightarrow> False)"

definition listed_pod :: "Pod \<Rightarrow> call \<Rightarrow> bool" where
  "listed_pod p c \<longleftrightarrow> (case c of Listed _ (Inr ps) \<Rightarrow> p \<in> set ps | _ \<Rightarrow> False)"

lemmas reply_defs = telemetry_reply_def cordon_reply_def conflict_reply_def listed_pod_def

definition evidence :: "GPUHealthCR \<Rightarrow> call list \<Rightarrow> mon \<Rightarrow> bool" where
  "evidence cr cs s \<longleftrightarrow> same_object (cur s) cr \<and> released s = (phase cr = PhaseFailed \<and> spec_changed cr) \<and>
     (\<forall>st. reads st s \<longrightarrow> list_ex (telemetry_reply st) cs) \<and>
     (cordoned s \<longrightarrow> list_ex cordon_reply cs) \<and>
     (\<forall>ps. pods s = Some ps \<longrightarrow> (\<forall>p \<in> set ps. list_ex (listed_pod p) cs)) \<and>
     (refused s \<longrightarrow> list_ex conflict_reply cs)"

lemma evidence_start: "evidence cr [] (start cr)"
  by (simp add: evidence_def start_def reads_def)

lemma evidence_later: "evidence cr cs s \<Longrightarrow> evidence cr (cs @ [c]) s"
  by (simp add: evidence_def)

lemma evidence_write: "evidence cr cs s \<Longrightarrow> same_object d (cur s) \<Longrightarrow> evidence cr cs (s\<lparr>cur := d\<rparr>)"
  by (simp add: evidence_def reads_def same_object_def)

lemma write_ok_object: "write_ok s c \<Longrightarrow> same_object c (cur s)"
  by (simp add: write_ok_def)

lemma stored_object: "stored_as c d \<Longrightarrow> same_object c e \<Longrightarrow> same_object d e"
  by (simp add: stored_as_def same_object_def)

lemma evidence_cordon:
  "evidence cr cs s \<Longrightarrow> (b \<longrightarrow> cordoned s \<or> cordon_reply c) \<Longrightarrow> evidence cr (cs @ [c]) (s\<lparr>cordoned := b\<rparr>)"
  by (auto simp: evidence_def reads_def)

lemma evidence_node: "evidence cr cs s \<Longrightarrow> evidence cr cs (s\<lparr>node := nd\<rparr>)"
  by (simp add: evidence_def reads_def)

lemma evidence_reading:
  "evidence cr cs s \<Longrightarrow> (\<And>h. x = Some h \<Longrightarrow> telemetry_reply (Health h) c) \<Longrightarrow> evidence cr (cs @ [c]) (s\<lparr>reading := x\<rparr>)"
  by (auto simp: evidence_def reads_def)

lemma evidence_refused: "evidence cr cs s \<Longrightarrow> (b \<longrightarrow> conflict_reply c) \<Longrightarrow> evidence cr (cs @ [c]) (s\<lparr>refused := b\<rparr>)"
  by (simp add: evidence_def reads_def)

lemma evidence_pods: "evidence cr cs s \<Longrightarrow> evidence cr (cs @ [Listed n (Inr ps)]) (s\<lparr>pods := Some ps\<rparr>)"
  by (simp add: evidence_def reads_def listed_pod_def)

lemma evidence_times: "evidence cr cs s \<Longrightarrow> evidence cr cs (s\<lparr>seen_times := ts\<rparr>)"
  by (simp add: evidence_def reads_def)

lemma evidence_step:
  assumes "evidence cr cs s" and "mstep r s c = Some s'"
  shows "evidence cr (cs @ [c]) s'"
proof (cases c)
  case (GotNode n res)
  show ?thesis
  proof (cases res)
    case (Inr nd)
    have "evidence cr (cs @ [c]) (s\<lparr>node := Some nd, cordoned := cordoned s \<or> Unschedulable nd\<rparr>)"
      using evidence_cordon [OF evidence_node [OF assms(1)]] GotNode Inr by (simp add: cordon_reply_def)
    then show ?thesis using assms(2) GotNode Inr by (simp split: if_splits)
  qed (use assms GotNode in \<open>simp add: evidence_later split: if_splits\<close>)
next
  case (PutNode nd err)
  then have "s' = s \<or> s' = s\<lparr>cordoned := Unschedulable nd\<rparr> \<and> err \<in> {None, Some KConflict}"
    using assms(2) by (auto split: if_splits)
  then show ?thesis
    using evidence_later [OF assms(1)] evidence_cordon [OF assms(1), of "Unschedulable nd" c] PutNode
    by (auto simp: cordon_reply_def)
next
  case (Listed n res)
  then show ?thesis using assms by (cases res) (auto intro: evidence_later evidence_pods split: if_splits)
next
  case (PutStatus d res)
  then show ?thesis
    using assms evidence_write [OF evidence_later [OF assms(1)] stored_object [OF _ write_ok_object]]
    by (cases res) (auto intro: evidence_later split: if_splits)
next
  case (InSync d)
  then show ?thesis using assms evidence_write [OF evidence_later [OF assms(1)] write_ok_object] by (auto split: if_splits)
next
  case (Http m url res)
  then show ?thesis
    using assms(2) evidence_later [OF assms(1)] evidence_reading [OF assms(1)] evidence_refused [OF assms(1)]
    by (cases m) (auto simp: telemetry_reply_def conflict_reply_def split: if_splits sum.splits)
next
  case (ReadClock t)
  then show ?thesis using assms by (auto intro: evidence_times evidence_later)
qed (use assms in \<open>simp add: evidence_later split: if_splits\<close>)+

lemma mrun_evidence: "mrun r (start cr) cs = Some s \<Longrightarrow> evidence cr cs s"
proof (induction cs arbitrary: s rule: rev_induct)
  case (snoc c cs)
  then show ?case by (auto simp: mrun_append split: option.splits intro: evidence_step)
qed (simp add: evidence_start)

text \<open>The state of the automaton before a call of an accepted run.\<close>

lemma mrun_before:
  assumes "mrun r (start cr) (pre @ c # post) = Some s"
  obtains t t' where "evidence cr pre t" and "mstep r t c = Some t'" and "mrun r (start cr) pre = Some t"
proof -
  obtain t where t: "mrun r (start cr) pre = Some t" using assms by (auto simp: mrun_append split: option.splits)
  moreover obtain t' where "mstep r t c = Some t'" using assms t by (auto simp: mrun_append split: option.splits)
  ultimately show thesis using that mrun_evidence by blast
qed

text \<open>A run of the operator on a resource, and the calls it makes after it has read the resource.\<close>

definition reconciles :: "'w GPUHealthReconciler \<Rightarrow> GPUHealthCR \<Rightarrow> call list \<Rightarrow> (cerror, Result) result \<Rightarrow> bool" where
  "reconciles r cr cs x \<longleftrightarrow> (\<exists>name w w'. Reconcile r name w = (x, GotCR name (Inr cr) # cs, w'))"

definition lawful :: "'w GPUHealthReconciler \<Rightarrow> bool" where
  "lawful r \<longleftrightarrow> faithful_server (Client r) \<and> condition_law (Client r)"

lemma reconciles_accepted:
  assumes "lawful r" and "reconciles r cr cs x"
  obtains s where "mrun r (start cr) cs = Some s" and "outcome x s"
proof -
  from assms(2) obtain name w w' where "Reconcile r name w = (x, GotCR name (Inr cr) # cs, w')"
    unfolding reconciles_def by blast
  from Reconcile_refines [OF _ _ this] assms(1) that show thesis unfolding lawful_def by blast
qed

lemma reconciles_before:
  assumes "lawful r" and "reconciles r cr (pre @ c # post) x"
  obtains t t' where "evidence cr pre t" and "mstep r t c = Some t'" and "mrun r (start cr) pre = Some t"
  using reconciles_accepted [OF assms] mrun_before by metis

section \<open>Phases\<close>

definition critical_from :: "GPUPhase \<Rightarrow> bool" where
  "critical_from p \<longleftrightarrow> observing p \<or> p \<in> {PhaseRecovering, PhaseRejoining, PhaseReplacing}"

fun may_follow :: "RemediationPolicy \<Rightarrow> GPUPhase \<Rightarrow> GPUPhase \<Rightarrow> bool" where
  "may_follow pol p PhaseHealthy \<longleftrightarrow> observing p \<or> p \<in> {PhaseRecovering, PhaseRejoining, PhaseFailed}"
| "may_follow pol p PhaseWarning \<longleftrightarrow> observing p"
| "may_follow pol p PhaseCritical \<longleftrightarrow> critical_from p \<and> pol \<in> {RemediationPolicyNone, RemediationPolicyEscalate}"
| "may_follow pol p PhaseDraining \<longleftrightarrow> critical_from p \<and> pol = RemediationPolicyDrain"
| "may_follow pol p PhaseReplacing \<longleftrightarrow> critical_from p \<and> pol = RemediationPolicyReplace \<or> p \<in> {PhaseDraining, PhaseReplacing}"
| "may_follow pol p PhaseRecovering \<longleftrightarrow> p \<in> {PhaseDraining, PhaseRecovering}"
| "may_follow pol p PhaseRejoining \<longleftrightarrow> p = PhaseReplacing"
| "may_follow pol p PhaseFailed \<longleftrightarrow>
     critical_from p \<and> pol \<in> {RemediationPolicyDrain, RemediationPolicyReplace} \<or> p = PhaseRejoining"
| "may_follow pol p _ \<longleftrightarrow> False"

lemma needs_remedy_from: "needs_remedy s \<Longrightarrow> critical_from (phase (cur s))"
  by (auto simp: needs_remedy_def critical_from_def replacement_overdue_def)

lemma write_ok_cases:
  assumes "write_ok s c"
  obtains (stamp) "stamps s c" | (phase) "phase_ok s c (phase c)" and "clears s c"
  using assms by (auto simp: write_ok_def)

lemma write_ok_spec: "write_ok s c \<Longrightarrow> Spec c = Spec (cur s)"
  by (simp add: write_ok_def same_object_def)

lemma write_ok_follows:
  assumes "write_ok s c"
  shows "may_follow (policy (cur s)) (phase (cur s)) (phase c)"
  using assms
proof (cases rule: write_ok_cases)
  case stamp
  then show ?thesis by (simp add: stamps_def)
next
  case phase
  then show ?thesis
    using needs_remedy_from [of s] write_ok_spec [OF assms]
    by (cases "phase c") (auto simp: automated_def rejoining_overdue_def)
qed

text \<open>
  The status a call computes, whether it has to be stored or is found stored, and the resource as the run
  last stored it.
\<close>

fun status_of_call :: "call \<Rightarrow> GPUHealthCR option" where
  "status_of_call (PutStatus c _) = Some c"
| "status_of_call (InSync c) = Some c"
| "status_of_call _ = None"

fun stored :: "GPUHealthCR \<Rightarrow> call list \<Rightarrow> GPUHealthCR" where
  "stored cr [] = cr"
| "stored cr (PutStatus c (Inr c') # cs) = stored c' cs"
| "stored cr (InSync c # cs) = stored c cs"
| "stored cr (_ # cs) = stored cr cs"

lemma mrun_stored: "mrun r s cs = Some t \<Longrightarrow> cur t = stored (cur s) cs"
proof (induction cs arbitrary: s)
  case (Cons c cs)
  then obtain s' where s': "mstep r s c = Some s'" "mrun r s' cs = Some t" by (auto split: option.splits)
  then have "cur t = stored (cur s') cs" using Cons.IH by blast
  moreover have "stored (cur s) (c # cs) = stored (cur s') cs"
  proof (cases c)
    case (Http m url res)
    then show ?thesis using s' by (cases m) (auto split: if_splits)
  next
    case (PutStatus d res)
    then show ?thesis using s' by (cases res) (auto split: if_splits)
  qed (use s' in \<open>auto split: if_splits sum.splits\<close>)
  ultimately show ?case by simp
qed simp

lemma reconciles_status:
  assumes "lawful r" and "reconciles r cr (pre @ c # post) x" and "status_of_call c = Some d"
  obtains t where "evidence cr pre t" and "cur t = stored cr pre" and "write_ok t d"
proof -
  obtain t t' where t: "evidence cr pre t" "mstep r t c = Some t'" "mrun r (start cr) pre = Some t"
    by (rule reconciles_before [OF assms(1,2)])
  have "cur t = stored cr pre" using mrun_stored [OF t(3)] by (simp add: start_def)
  moreover have "write_ok t d" using assms(3) t(2) by (cases c) (auto split: if_splits)
  ultimately show thesis using that t(1) by blast
qed

text \<open>The same by position.\<close>

lemma reconciles_nth:
  assumes "lawful r" and "reconciles r cr cs x" and "i < length cs"
  obtains t t' where "evidence cr (take i cs) t" and "mstep r t (cs ! i) = Some t'" and "cur t = stored cr (take i cs)"
    and "mrun r (start cr) (take i cs) = Some t"
proof -
  have "reconciles r cr (take i cs @ cs ! i # drop (Suc i) cs) x" using assms(2,3) by (simp add: id_take_nth_drop [symmetric])
  from reconciles_before [OF assms(1) this] obtain t t' where "evidence cr (take i cs) t" "mstep r t (cs ! i) = Some t'"
    "mrun r (start cr) (take i cs) = Some t" .
  moreover from this(3) have "cur t = stored cr (take i cs)" using mrun_stored by (fastforce simp: start_def)
  ultimately show thesis using that by blast
qed

lemma reconciles_status_nth:
  assumes "lawful r" and "reconciles r cr cs x" and "i < length cs" and "status_of_call (cs ! i) = Some d"
  obtains t where "evidence cr (take i cs) t" and "cur t = stored cr (take i cs)" and "write_ok t d"
proof -
  have "reconciles r cr (take i cs @ cs ! i # drop (Suc i) cs) x" using assms(2,3) by (simp add: id_take_nth_drop [symmetric])
  from reconciles_status [OF assms(1) this assms(4)] that show thesis by blast
qed

lemma evidence_spec: "evidence cr cs s \<Longrightarrow> Spec (cur s) = Spec cr"
  by (simp add: evidence_def same_object_def)

text \<open>Properties of the automaton's state that every accepted call keeps.\<close>

lemma mrun_invariant:
  assumes "\<And>s c s'. I s \<Longrightarrow> mstep r s c = Some s' \<Longrightarrow> I s'"
  shows "mrun r s cs = Some t \<Longrightarrow> I s \<Longrightarrow> I t"
  using assms by (induction cs arbitrary: s) (auto split: option.splits)

definition manual :: "mon \<Rightarrow> bool" where
  "manual s \<longleftrightarrow> policy (cur s) \<in> {RemediationPolicyNone, RemediationPolicyEscalate} \<and>
     phase (cur s) \<notin> {PhaseDraining, PhaseReplacing}"

lemma mstep_cur:
  assumes "mstep r s c = Some s'"
  shows "cur s' = cur s \<or> (\<exists>d. write_ok s d \<and> stored_as d (cur s'))"
proof (cases c)
  case (Http m url res)
  then show ?thesis using assms by (cases m) (auto split: if_splits)
next
  case (InSync d)
  then have "write_ok s d" "cur s' = d" using assms by (auto split: if_splits)
  then show ?thesis using stored_as_refl by blast
qed (use assms in \<open>auto split: if_splits sum.splits\<close>)

lemma manual_step:
  assumes "manual s" and "mstep r s c = Some s'"
  shows "manual s'"
  using mstep_cur [OF assms(2)]
proof
  assume "\<exists>d. write_ok s d \<and> stored_as d (cur s')"
  then obtain d where d: "write_ok s d" "stored_as d (cur s')" by blast
  have "phase d \<notin> {PhaseDraining, PhaseReplacing}"
    using write_ok_follows [OF d(1)] assms(1) by (auto simp: manual_def)
  then show ?thesis using d write_ok_spec [OF d(1)] assms(1) by (simp add: manual_def stored_as_def)
qed (use assms(1) in \<open>simp add: manual_def\<close>)

lemma manual_run: "mrun r s cs = Some t \<Longrightarrow> manual s \<Longrightarrow> manual t"
  by (rule mrun_invariant [where I = manual, OF manual_step])

lemma manual_no_cordon: "manual s \<Longrightarrow> \<not> may_cordon s"
  by (auto simp: manual_def may_cordon_def automated_def)

section \<open>The attempt counter\<close>

definition limits_ok :: "GPUHealthCR \<Rightarrow> bool" where
  "limits_ok cr \<longleftrightarrow> 1 \<le> sint (MaxRemediationAttempts (Spec cr)) \<and> sint (MaxRemediationAttempts (Spec cr)) \<le> 100 \<and>
     0 \<le> sint (attempts_of cr) \<and> sint (attempts_of cr) \<le> sint (MaxRemediationAttempts (Spec cr))"

lemma sint_Suc32:
  fixes a :: "32 word"
  assumes "0 \<le> sint a" and "sint a \<le> 100"
  shows "sint (a + 1) = sint a + 1"
proof -
  have "sint (a + 1) = signed_take_bit 31 (sint a + 1)" by (simp add: sint_word_ariths)
  also have "\<dots> = sint a + 1" using assms by (intro signed_take_bit_int_eq_self) simp_all
  finally show ?thesis .
qed

lemma counted_range:
  assumes "limits_ok (cur s)" and "counted s c"
  shows "1 \<le> sint (attempts_of c)" and "sint (attempts_of c) \<le> sint (MaxRemediationAttempts (Spec (cur s))) + 1"
    and "spec_changed (cur s) \<or> sint (attempts_of c) = sint (attempts_of (cur s)) + 1"
  using assms sint_Suc32 [of "attempts_of (cur s)"] by (auto simp: limits_ok_def counted_def)

section \<open>Drains\<close>

fun evictions :: "call list \<Rightarrow> (string \<times> string) list" where
  "evictions [] = []"
| "evictions (Evict ns n _ # cs) = (ns, n) # evictions cs"
| "evictions (_ # cs) = evictions cs"

lemma evictions_append [simp]: "evictions (cs @ ds) = evictions cs @ evictions ds"
  by (induction cs rule: evictions.induct) simp_all

lemma bindE_success:
  assumes "bindE m f w = (Inr b, cs, w')"
  obtains a cs1 w1 cs2 where "m w = (Inr a, cs1, w1)" and "f a w1 = (Inr b, cs2, w')" and "cs = cs1 @ cs2"
proof -
  obtain x cs1 w1 where m: "m w = (x, cs1, w1)" by (metis prod.exhaust)
  show thesis
  proof (cases x)
    case (Inl e)
    then show thesis using assms m by (simp add: bindE_def)
  next
    case (Inr a)
    obtain y cs2 w2 where "f a w1 = (y, cs2, w2)" by (metis prod.exhaust)
    then show thesis using that [OF m [unfolded Inr]] assms m Inr by (simp add: bindE_def)
  qed
qed

lemma evict_all_success:
  "evict_all r ps w = (Inr b, cs, w') \<Longrightarrow> b \<and> evictions cs = map (\<lambda>p. (PodNamespace p, PodName p)) ps"
proof (induction ps arbitrary: w cs)
  case (Cons p ps)
  from Cons.prems obtain err cs1 w1 cs2 where "evict (Client r) p w = (Inr err, cs1, w1)"
    "(case err of Some e \<Rightarrow> if e = KTooManyRequests then evict_all r ps
                 else if e = KNotFound then evict_all r ps else fail (ApiError e)
     | None \<Rightarrow> evict_all r ps) w1 = (Inr b, cs2, w')" "cs = cs1 @ cs2"
    by (auto elim: bindE_success)
  then show ?case using Cons.IH [of w1 cs2]
    by (auto simp: evict_def fail_def split: prod.splits option.splits if_splits)
qed (simp add: ret_def)

lemma node_no_evictions:
  "getNode k n w = (x, cs, w') \<Longrightarrow> evictions cs = []"
  "set_unschedulable r b nd w = (Inr y, cs, w') \<Longrightarrow> evictions cs = []"
  by (auto simp: getNode_def set_unschedulable_def ret_def fail_def putNode_def bindE_def
      split: prod.splits if_splits option.splits sum.splits)

lemma drainNode_success:
  assumes "drainNode r cr w = (Inr busy, cs, w')"
  shows "\<exists>ps. Listed (NodeName (Spec cr)) (Inr ps) \<in> set cs \<and> busy = (\<exists>p \<in> set ps. \<not> left_alone p) \<and>
    evictions cs = map (\<lambda>p. (PodNamespace p, PodName p)) (filter (\<lambda>p. \<not> left_alone p) ps)"
proof -
  from assms obtain u cs1 w1 cs2 where c: "cordonNode r cr w = (Inr u, cs1, w1)" "cs = cs1 @ cs2"
    "bindE (listPods (Client r) (NodeName (Spec cr))) (\<lambda>podList. let items = filter (\<lambda>pod. \<not> left_alone pod) podList
       in if items = [] then ret False else evict_all r items) w1 = (Inr busy, cs2, w')"
    unfolding drainNode_def by (auto elim: bindE_success)
  from c(3) obtain ps cs3 w2 cs4 where l: "listPods (Client r) (NodeName (Spec cr)) w1 = (Inr ps, cs3, w2)" "cs2 = cs3 @ cs4"
    "(if filter (\<lambda>pod. \<not> left_alone pod) ps = [] then ret False else evict_all r (filter (\<lambda>pod. \<not> left_alone pod) ps)) w2
       = (Inr busy, cs4, w')"
    by (auto elim: bindE_success simp: Let_def)
  have "evictions cs1 = []" using c(1) node_no_evictions unfolding cordonNode_def by (auto elim!: bindE_success)
  moreover have "cs3 = [Listed (NodeName (Spec cr)) (Inr ps)]"
    using l(1) by (auto simp: listPods_def map_sum_def split: prod.splits sum.splits)
  moreover have "busy = (filter (\<lambda>p. \<not> left_alone p) ps \<noteq> []) \<and>
      evictions cs4 = map (\<lambda>p. (PodNamespace p, PodName p)) (filter (\<lambda>p. \<not> left_alone p) ps)"
    using l(3) evict_all_success [of r "filter (\<lambda>p. \<not> left_alone p) ps" w2 busy cs4 w'] by (auto simp: ret_def split: if_splits)
  ultimately have "Listed (NodeName (Spec cr)) (Inr ps) \<in> set cs" "busy = (filter (\<lambda>p. \<not> left_alone p) ps \<noteq> [])"
    "evictions cs = map (\<lambda>p. (PodNamespace p, PodName p)) (filter (\<lambda>p. \<not> left_alone p) ps)"
    using c(2) l(2) by simp_all
  moreover have "(filter (\<lambda>p. \<not> left_alone p) ps \<noteq> []) = (\<exists>p \<in> set ps. \<not> left_alone p)" by (auto simp: filter_empty_conv)
  ultimately show ?thesis by blast
qed

section \<open>Computations that leave the node alone\<close>

definition node_call :: "call \<Rightarrow> bool" where
  "node_call c \<longleftrightarrow> (case c of PutNode _ _ \<Rightarrow> True | Evict _ _ _ \<Rightarrow> True | _ \<Rightarrow> False)"

definition calls_of :: "('w, 'a) comp \<Rightarrow> 'w \<Rightarrow> call list" where
  "calls_of m w = fst (snd (m w))"

lemma calls_bindE:
  "calls_of (bindE m f) w = calls_of m w @ (case fst (m w) of Inl _ \<Rightarrow> [] | Inr a \<Rightarrow> calls_of (f a) (snd (snd (m w))))"
  by (simp add: calls_of_def bindE_def split: prod.split sum.split)

lemma calls_wrap: "calls_of (wrap h m) w = calls_of m w"
  by (simp add: calls_of_def wrap_def split: prod.split sum.split)

definition quiet :: "('w, 'a) comp \<Rightarrow> bool" where
  "quiet m \<longleftrightarrow> (\<forall>w. \<forall>c \<in> set (calls_of m w). \<not> node_call c)"

lemma quiet_bindE: "quiet m \<Longrightarrow> (\<And>a. quiet (f a)) \<Longrightarrow> quiet (bindE m f)"
  unfolding quiet_def calls_bindE by (auto split: sum.splits)

lemma quiet_calls:
  "quiet (ret a)" "quiet (fail e)" "quiet (getCR k n)" "quiet (putStatus k cr)" "quiet (timeNow k)"
  "quiet (SetStatusCondition k c cr)" "quiet (emit (InSync cr))" "quiet (httpDo k m url)"
  by (simp_all add: quiet_def node_call_def calls_of_def ret_def fail_def getCR_def putStatus_def timeNow_def
      SetStatusCondition_def emit_def httpDo_def split: prod.split)

lemma quiet_wrap: "quiet m \<Longrightarrow> quiet (wrap h m)"
  by (simp add: quiet_def calls_wrap)

lemma quiet_sync: "quiet (syncStatus r cr)" "quiet (sync_wrapped r cr)"
  by (auto simp: syncStatus_def sync_wrapped_def Let_def intro!: quiet_bindE quiet_calls quiet_wrap)

lemma quiet_fetchTelemetry: "quiet (fetchTelemetry r cr)"
  by (auto simp: fetchTelemetry_def intro!: quiet_bindE quiet_calls split: sum.splits option.splits)

lemma fetchTelemetry_reply:
  "fetchTelemetry r cr w = (Inr h, cs, w') \<Longrightarrow> list_ex (telemetry_reply (Health h)) cs"
  by (auto simp: fetchTelemetry_def bindE_def httpDo_def fail_def ret_def telemetry_reply_def
      split: if_splits prod.splits sum.splits option.splits)

lemma handleObserving_calls:
  assumes "handleObserving r cr w = (x, cs, w')" and "\<not> list_ex (telemetry_reply StatusCritical) cs" and "c \<in> set cs"
  shows "\<not> node_call c"
proof -
  obtain y cs1 w1 where f: "fetchTelemetry r cr w = (y, cs1, w1)" by (metis prod.exhaust)
  have q1: "\<not> node_call c" if "c \<in> set cs1" using quiet_fetchTelemetry [of r cr] that f unfolding quiet_def calls_of_def by (metis fst_conv snd_conv)
  show ?thesis
  proof (cases y)
    case (Inl e)
    then show ?thesis using assms f q1 by (simp add: handleObserving_def bindE_def)
  next
    case (Inr h)
    have "Health h \<noteq> StatusCritical"
    proof
      assume "Health h = StatusCritical"
      then have "list_ex (telemetry_reply StatusCritical) cs1" using fetchTelemetry_reply f Inr by fastforce
      then show False using assms(1,2) f Inr by (auto simp: handleObserving_def bindE_def split: prod.splits)
    qed
    define rest where "rest = (case Health h of
       StatusCritical \<Rightarrow>
         bindE (timeNow (Client r)) (\<lambda>ts.
         handleRemediation r (set_findings (mergeFindings ts (StatusFindings (Status cr)) h 100) cr))
     | StatusWarning \<Rightarrow>
         bindE (SetStatusCondition (Client r)
                  (condition ConditionGPUHealthy False reasonGPUDegraded ''GPU metrics are outside normal parameters'' cr)
                  (set_phase PhaseWarning cr)) (\<lambda>cr.
         bindE (sync_wrapped r cr) (\<lambda>_. ret (requeue 30)))
     | StatusHealthy \<Rightarrow>
         bindE (SetStatusCondition (Client r)
                  (condition ConditionGPUHealthy True reasonGPUOperational ''GPU is operating within normal parameters'' cr)
                  (set_phase PhaseHealthy (set_attempts 0 cr))) (\<lambda>cr.
         bindE (sync_wrapped r cr) (\<lambda>_. ret (requeue 30)))
     | h \<Rightarrow> fail (UnexpectedHealth h))"
    have "quiet rest" unfolding rest_def using \<open>Health h \<noteq> StatusCritical\<close>
      by (cases "Health h") (auto intro!: quiet_bindE quiet_calls quiet_sync)
    moreover have "cs = cs1 @ calls_of rest w1"
      using assms(1) f Inr by (auto simp: handleObserving_def bindE_def rest_def calls_of_def split: prod.splits)
    ultimately show ?thesis using assms(3) q1 by (auto simp: quiet_def)
  qed
qed

end
