(* ===== verification/Cluster.thy ===== *)
theory Cluster
  imports Operator
begin

text \<open>
  A concrete world for the operator: an API server that holds one GPU resource, its node and the
  pods of that node, a clock, and a telemetry service given as a function on its own state. It meets
  the two hypotheses on the outside world, so that the theorems of theory \<open>Operator\<close> apply to it; it
  is the instance on which their witnesses are evaluated and, with the modelled telemetry service
  as its HTTP endpoint, the world of the closed loop of operator and simulator.
\<close>

record 't cluster =
  cresource :: GPUHealthCR
  cnode :: Node
  cpods :: "Pod list"
  ctel :: 't
  cclock :: time

fun upsert :: "Condition \<Rightarrow> Condition list \<Rightarrow> Condition list" where
  "upsert c [] = [c]"
| "upsert c (d # ds) = (if CondType d = CondType c then c # ds else d # upsert c ds)"

definition cluster_kube ::
  "(http_method \<Rightarrow> string \<Rightarrow> 't \<Rightarrow> (string, http_reply) result \<times> 't) \<Rightarrow> 't cluster kube" where
  "cluster_kube tel = \<lparr>
     get_cr = (\<lambda>n w. (if n = Name (cresource w) then Inr (cresource w) else Inl KNotFound, w)),
     get_node = (\<lambda>n w. (if n = NodeNm (cnode w) then Inr (cnode w) else Inl KNotFound, w)),
     update_node = (\<lambda>nd w. if NodeNm nd = NodeNm (cnode w) then (None, w\<lparr>cnode := nd\<rparr>) else (Some KNotFound, w)),
     list_pods = (\<lambda>n w. (Inr (if n = NodeNm (cnode w) then cpods w else []), w)),
     create_eviction = (\<lambda>ns n w. (None, w\<lparr>cpods := filter (\<lambda>p. \<not> (PodNamespace p = ns \<and> PodName p = n)) (cpods w)\<rparr>)),
     update_status = (\<lambda>c w. if Name c = Name (cresource w) then (Inr c, w\<lparr>cresource := c\<rparr>) else (Inl KNotFound, w)),
     valid_url = (\<lambda>_. True),
     http_do = (\<lambda>m url w. case tel m url (ctel w) of (res, t) \<Rightarrow> (res, w\<lparr>ctel := t\<rparr>)),
     read_clock = (\<lambda>w. (cclock w, w\<lparr>cclock := cclock w + second\<rparr>)),
     set_condition = (\<lambda>c cs w. (upsert c cs, w))\<rparr>"

lemma upsert_law: "cond_status (upsert c cs) = (cond_status cs)(CondType c \<mapsto> CondStatus c)"
  by (induction cs) (auto simp: cond_status_def)

lemma upsert_keys: "keeps_keys cs (upsert c cs)"
proof -
  have types: "set (map CondType (upsert c cs)) = insert (CondType c) (set (map CondType cs))" for cs
    by (induction cs) auto
  have "distinct (map CondType cs) \<Longrightarrow> distinct (map CondType (upsert c cs))"
    using types by (induction cs) auto
  then show ?thesis by (simp add: keeps_keys_def)
qed

lemma cluster_faithful: "faithful_server (cluster_kube tel)"
  by (simp add: faithful_server_def cluster_kube_def)

lemma cluster_conditions: "condition_law (cluster_kube tel)"
  by (simp add: condition_law_def cluster_kube_def upsert_law upsert_keys)

definition cluster_operator ::
  "(http_method \<Rightarrow> string \<Rightarrow> 't \<Rightarrow> (string, http_reply) result \<times> 't) \<Rightarrow> string \<Rightarrow> 't cluster GPUHealthReconciler" where
  "cluster_operator tel url = \<lparr>Client = cluster_kube tel, TelemetryURL = url\<rparr>"

lemma cluster_lawful: "lawful (cluster_operator tel url)"
  by (simp add: lawful_def cluster_operator_def cluster_faithful cluster_conditions)

section \<open>A scripted telemetry service\<close>

definition scripted :: "http_method \<Rightarrow> string \<Rightarrow> http_reply list \<Rightarrow> (string, http_reply) result \<times> http_reply list" where
  "scripted m url replies = (case replies of [] \<Rightarrow> (Inl ''connection refused'', []) | rep # reps \<Rightarrow> (Inr rep, reps))"

definition demo_health :: "HealthStatus \<Rightarrow> GPUHealth" where
  "demo_health st = \<lparr>GPUID = ''GPU-00007'', NodeID = ''NODE-0002'', Slot = 2, Model = ModelA100, Health = st,
     Failure = FailureTypeThermal, Timestamp = 0, Utilization = 50,
     Temp = \<lparr>GPUCoreCelsius = 90, MemoryCelsius = 60, GPUCoreWarningThreshold = 75, GPUCoreCriticalThreshold = 84,
       MemoryWarningThreshold = 85, MemoryCriticalThreshold = 95, Throttling = True\<rparr>,
     Mem = \<lparr>TotalBytes = 0, UsedBytes = 0, FreeBytes = 0, MemUtilization = 0, ECCSingleBitErrors = 0, ECCDoubleBitErrors = 0\<rparr>,
     Pow = \<lparr>DrawWatts = 100, LimitWatts = 400, PowUtilization = 25, PowerCapped = False\<rparr>\<rparr>"

definition ok_reply :: "HealthStatus \<Rightarrow> http_reply" where
  "ok_reply st = \<lparr>StatusCode = 200, Body = Some (demo_health st)\<rparr>"

definition demo_node :: "bool \<Rightarrow> Node" where
  "demo_node b = \<lparr>NodeNm = ''n1'', NodeVersion = ''1'', Unschedulable = b, NodeConditions = [(''Ready'', ''True'')]\<rparr>"

definition demo_pod :: "string \<Rightarrow> string list \<Rightarrow> Pod" where
  "demo_pod n kinds = \<lparr>PodName = n, PodNamespace = ''default'', OwnerKinds = kinds, PodPhase = ''Running''\<rparr>"

definition demo_cr :: "RemediationPolicy \<Rightarrow> GPUPhase \<Rightarrow> 32 word \<Rightarrow> GPUHealthCR" where
  "demo_cr pol p n = \<lparr>Name = ''g7'', UID = ''u7'', ResourceVersion = ''1'', Generation = 1,
     Spec = \<lparr>NodeName = ''n1'', SpecGPUID = ''GPU-00007'', RemediationPolicy = pol, MaxRemediationAttempts = 3,
       ReplacementTimeoutSeconds = 1800, RejoiningTimeoutSeconds = 300\<rparr>,
     Status = \<lparr>Phase = p, ReplacementStartedAt = None, Conditions = [], StatusFindings = [], RemediationAttempts = n,
       LastTransitionTime = None, ObservedGeneration = 1\<rparr>\<rparr>"

definition demo_world :: "GPUHealthCR \<Rightarrow> bool \<Rightarrow> Pod list \<Rightarrow> http_reply list \<Rightarrow> http_reply list cluster" where
  "demo_world cr b ps reps = \<lparr>cresource = cr, cnode = demo_node b, cpods = ps, ctel = reps, cclock = 0\<rparr>"

definition demo_operator :: "http_reply list cluster GPUHealthReconciler" where
  "demo_operator = cluster_operator scripted ''http://t''"

lemma demo_lawful: "lawful demo_operator"
  by (simp add: demo_operator_def cluster_lawful)

definition demo_calls :: "GPUHealthCR \<Rightarrow> bool \<Rightarrow> Pod list \<Rightarrow> http_reply list \<Rightarrow> call list" where
  "demo_calls cr b ps reps = tl (fst (snd (Reconcile demo_operator (Name cr) (demo_world cr b ps reps))))"

definition demo_result :: "GPUHealthCR \<Rightarrow> bool \<Rightarrow> Pod list \<Rightarrow> http_reply list \<Rightarrow> (cerror, Result) result" where
  "demo_result cr b ps reps = fst (Reconcile demo_operator (Name cr) (demo_world cr b ps reps))"

lemma demo_reconciles: "reconciles demo_operator cr (demo_calls cr b ps reps) (demo_result cr b ps reps)"
proof -
  have "get_cr (Client demo_operator) (Name cr) (demo_world cr b ps reps) = (Inr cr, demo_world cr b ps reps)"
    by (simp add: demo_operator_def cluster_operator_def cluster_kube_def demo_world_def)
  moreover obtain x cs w' where "reconcile_phase demo_operator cr (demo_world cr b ps reps) = (x, cs, w')" by (metis prod.exhaust)
  ultimately have "Reconcile demo_operator (Name cr) (demo_world cr b ps reps) = (x, GotCR (Name cr) (Inr cr) # cs, w')"
    by (simp add: Reconcile_eq)
  then show ?thesis unfolding reconciles_def demo_calls_def demo_result_def by auto
qed

end
