(* ===== verification/Operator_Properties.thy ===== *)
theory Operator_Properties
  imports Cluster
begin

text \<open>
  The properties of the operator: one reconcile run against an arbitrary API server, telemetry
  service and clock (\<open>lawful\<close> collects the two hypotheses on the libraries), stated on the calls the run makes after it
  has read the resource \<open>cr\<close>. The witnesses are runs of the scripted world of theory \<open>Cluster\<close>.
\<close>

abbreviation drain_run :: "Pod list \<Rightarrow> http_reply list \<Rightarrow> call list" where
  "drain_run ps reps \<equiv> demo_calls (demo_cr RemediationPolicyDrain PhaseHealthy 0) False ps reps"

text \<open>
  C1. Refinement: whatever the API server, the telemetry service and the clock answer, the
  calls of a reconcile run form a run that the abstract protocol of the operator accepts, the run does not
  dereference a nil pointer, and when it ends without an error it asks to be called again after 10, 15, 30 or, for a
  failed GPU only, 120 seconds.
\<close>

theorem reconcile_refines_protocol:
  assumes "lawful r" and "reconciles r cr cs x"
  shows "\<exists>s. mrun r (start cr) cs = Some s \<and>
    (case x of Inl e \<Rightarrow> \<not> panics e
     | Inr res \<Rightarrow> RequeueAfter res \<in> {10 * second, 15 * second, 30 * second, 120 * second} \<and>
         (RequeueAfter res = 120 * second \<longrightarrow> phase (cur s) = PhaseFailed))"
proof -
  obtain s where "mrun r (start cr) cs = Some s" and "outcome x s" by (rule reconciles_accepted [OF assms])
  then show ?thesis unfolding outcome_def by (auto split: sum.splits dest: plain_no_panic)
qed

theorem reconcile_refines_protocol_witness:
  "\<exists>s. mrun demo_operator (start (demo_cr RemediationPolicyDrain PhaseHealthy 0)) (drain_run [] [ok_reply StatusCritical]) = Some s \<and>
    (case demo_result (demo_cr RemediationPolicyDrain PhaseHealthy 0) False [] [ok_reply StatusCritical] of Inl e \<Rightarrow> \<not> panics e
     | Inr res \<Rightarrow> RequeueAfter res \<in> {10 * second, 15 * second, 30 * second, 120 * second} \<and>
         (RequeueAfter res = 120 * second \<longrightarrow> phase (cur s) = PhaseFailed))"
  by (rule reconcile_refines_protocol [OF demo_lawful demo_reconciles])



text \<open>
  C5. A node is put back into service only after the telemetry service reported the GPU healthy in the
  same run, or when the resource was failed and its specification has changed since.
\<close>

theorem uncordon_evidence:
  assumes "lawful r" and "reconciles r cr cs x" and "i < length cs" and "cs ! i = PutNode nd err" and "\<not> Unschedulable nd"
  shows "list_ex (telemetry_reply StatusHealthy) (take i cs) \<or> phase cr = PhaseFailed \<and> spec_changed cr"
proof -
  obtain t t' where t: "evidence cr (take i cs) t" "mstep r t (cs ! i) = Some t'"
    by (rule reconciles_nth [OF assms(1-3)])
  then have "may_uncordon t" using assms(4,5) by (auto simp: node_change_ok_def split: if_splits)
  then show ?thesis using t(1) by (auto simp: may_uncordon_def evidence_def)
qed

theorem uncordon_evidence_witness:
  "list_ex (telemetry_reply StatusHealthy)
     (take 2 (demo_calls (demo_cr RemediationPolicyDrain PhaseRecovering 1) True [] [ok_reply StatusHealthy])) \<or>
   phase (demo_cr RemediationPolicyDrain PhaseRecovering 1) = PhaseFailed \<and>
   spec_changed (demo_cr RemediationPolicyDrain PhaseRecovering 1)"
proof -
  have c: "2 < length (demo_calls (demo_cr RemediationPolicyDrain PhaseRecovering 1) True [] [ok_reply StatusHealthy])"
    "demo_calls (demo_cr RemediationPolicyDrain PhaseRecovering 1) True [] [ok_reply StatusHealthy] ! 2 =
       PutNode (demo_node False) None" "\<not> Unschedulable (demo_node False)"
    by code_simp+
  show ?thesis by (rule uncordon_evidence [OF demo_lawful demo_reconciles c])
qed

text \<open>
  C28. Under the policies None and Escalate the operator never cordons the node of a GPU that it
  only observes and never evicts a pod.
\<close>

theorem manual_policy_leaves_node:
  assumes "lawful r" and "reconciles r cr cs x" and "policy cr \<in> {RemediationPolicyNone, RemediationPolicyEscalate}"
    and "phase cr \<notin> {PhaseDraining, PhaseReplacing}" and "i < length cs"
  shows "case cs ! i of Evict ns n err \<Rightarrow> False | PutNode nd err \<Rightarrow> \<not> Unschedulable nd | _ \<Rightarrow> True"
proof -
  obtain t t' where t: "mstep r t (cs ! i) = Some t'" "mrun r (start cr) (take i cs) = Some t"
    by (rule reconciles_nth [OF assms(1,2,5)])
  have "manual (start cr)" using assms(3,4) by (simp add: manual_def start_def)
  then have "\<not> may_cordon t" using manual_run [OF t(2)] manual_no_cordon by blast
  then show ?thesis using t(1) by (auto simp: node_change_ok_def split: call.splits if_splits)
qed

theorem manual_policy_leaves_node_witness:
  "case demo_calls (demo_cr RemediationPolicyEscalate PhaseWarning 0) False [demo_pod ''a'' []] [ok_reply StatusCritical] ! 1 of
     Evict ns n err \<Rightarrow> False | PutNode nd err \<Rightarrow> \<not> Unschedulable nd | _ \<Rightarrow> True"
proof -
  have c: "policy (demo_cr RemediationPolicyEscalate PhaseWarning 0) \<in> {RemediationPolicyNone, RemediationPolicyEscalate}"
    "phase (demo_cr RemediationPolicyEscalate PhaseWarning 0) \<notin> {PhaseDraining, PhaseReplacing}"
    "1 < length (demo_calls (demo_cr RemediationPolicyEscalate PhaseWarning 0) False [demo_pod ''a'' []] [ok_reply StatusCritical])"
    by code_simp+
  show ?thesis by (rule manual_policy_leaves_node [OF demo_lawful demo_reconciles c])
qed

text \<open>
  C6. Every status a run writes moves the resource along an edge of the phase graph of its remediation
  policy, starting from the phase last stored: for instance only the policy Drain leads to Draining,
  Recovering is entered from Draining only, and Rejoining from Replacing only.
\<close>

theorem phase_graph:
  assumes "lawful r" and "reconciles r cr cs x" and "i < length cs" and "status_of_call (cs ! i) = Some d"
  shows "may_follow (policy cr) (phase (stored cr (take i cs))) (phase d)"
proof -
  obtain t where t: "evidence cr (take i cs) t" "cur t = stored cr (take i cs)" "write_ok t d"
    by (rule reconciles_status_nth [OF assms])
  then show ?thesis using write_ok_follows [OF t(3)] evidence_spec [OF t(1)] by simp
qed

abbreviation demo_drain :: GPUHealthCR where
  "demo_drain \<equiv> demo_cr RemediationPolicyDrain PhaseHealthy 0"

theorem phase_graph_witness:
  "may_follow RemediationPolicyDrain PhaseHealthy PhaseDraining \<and>
   \<not> may_follow RemediationPolicyReplace PhaseHealthy PhaseDraining"
proof -
  have c: "7 < length (drain_run [] [ok_reply StatusCritical])"
    "status_of_call (drain_run [] [ok_reply StatusCritical] ! 7) =
       Some (case drain_run [] [ok_reply StatusCritical] ! 7 of PutStatus d _ \<Rightarrow> d)"
    by code_simp+
  have "policy demo_drain = RemediationPolicyDrain" "phase (stored demo_drain (take 7 (drain_run [] [ok_reply StatusCritical]))) = PhaseHealthy"
    "phase (case drain_run [] [ok_reply StatusCritical] ! 7 of PutStatus d _ \<Rightarrow> d) = PhaseDraining"
    by code_simp+
  with phase_graph [OF demo_lawful demo_reconciles c] show ?thesis by simp
qed

text \<open>
  C20. The attempt counter does not wrap, and bounds the automated remediation: when the limits of the resource are those the
  API server validates, a status with phase Draining carries a count of at least 1 and below the limit, one more than the
  stored one unless the specification changed.
\<close>

theorem attempt_budget:
  assumes "lawful r" and "reconciles r cr cs x" and "i < length cs" and "status_of_call (cs ! i) = Some d"
    and "limits_ok (stored cr (take i cs))" and "phase d = PhaseDraining"
  shows "1 \<le> sint (attempts_of d) \<and> sint (attempts_of d) < sint (MaxRemediationAttempts (Spec cr)) \<and>
    (spec_changed (stored cr (take i cs)) \<or> sint (attempts_of d) = sint (attempts_of (stored cr (take i cs))) + 1)"
proof -
  obtain t where t: "evidence cr (take i cs) t" "cur t = stored cr (take i cs)" "write_ok t d"
    by (rule reconciles_status_nth [OF assms(1-4)])
  from t(3) have "counted t d \<and> \<not> exhausted d"
    by (cases rule: write_ok_cases) (use assms(6) in \<open>auto simp: stamps_def\<close>)
  then show ?thesis
    using counted_range [of t d] assms(5) t(2) evidence_spec [OF t(1)] write_ok_spec [OF t(3)]
    by (auto simp: exhausted_def word_sle_eq)
qed

theorem attempt_budget_witness:
  "sint (attempts_of (case drain_run [] [ok_reply StatusCritical] ! 7 of PutStatus d _ \<Rightarrow> d)) < 3"
proof -
  let ?d = "case drain_run [] [ok_reply StatusCritical] ! 7 of PutStatus d _ \<Rightarrow> d"
  have c: "7 < length (drain_run [] [ok_reply StatusCritical])"
    "status_of_call (drain_run [] [ok_reply StatusCritical] ! 7) = Some ?d"
    "limits_ok (stored demo_drain (take 7 (drain_run [] [ok_reply StatusCritical])))" "phase ?d = PhaseDraining"
    by code_simp+
  have "sint (MaxRemediationAttempts (Spec demo_drain)) = 3" by code_simp
  with attempt_budget [OF demo_lawful demo_reconciles c] show ?thesis by simp
qed

text \<open>
  With a limit of one attempt the policy Drain never reaches phase Draining: the first critical
  reading after the node is drained is counted as the only attempt and fails the GPU at once.
\<close>

theorem single_attempt_never_remediates:
  assumes "lawful r" and "reconciles r cr cs x" and "i < length cs" and "status_of_call (cs ! i) = Some d"
    and "limits_ok (stored cr (take i cs))" and "MaxRemediationAttempts (Spec cr) = 1"
  shows "phase d \<noteq> PhaseDraining"
proof
  assume ph: "phase d = PhaseDraining"
  obtain t where t: "evidence cr (take i cs) t" "cur t = stored cr (take i cs)" "write_ok t d"
    by (rule reconciles_status_nth [OF assms(1-4)])
  from t(3) have "counted t d \<and> \<not> exhausted d"
    by (cases rule: write_ok_cases) (use ph in \<open>auto simp: stamps_def\<close>)
  then show False
    using counted_range [of t d] assms(5,6) t(2) evidence_spec [OF t(1)] write_ok_spec [OF t(3)]
    by (auto simp: exhausted_def word_sle_eq)
qed

definition demo_single :: GPUHealthCR where
  "demo_single = demo_drain\<lparr>Spec := (Spec demo_drain)\<lparr>MaxRemediationAttempts := 1\<rparr>\<rparr>"

theorem single_attempt_never_remediates_witness:
  "phase (case demo_calls demo_single False [] [ok_reply StatusCritical, ok_reply StatusCritical] ! 7 of PutStatus d _ \<Rightarrow> d) \<noteq> PhaseDraining"
proof -
  let ?cs = "demo_calls demo_single False [] [ok_reply StatusCritical, ok_reply StatusCritical]"
  let ?d = "case ?cs ! 7 of PutStatus d _ \<Rightarrow> d"
  have c: "7 < length ?cs" "status_of_call (?cs ! 7) = Some ?d" "limits_ok (stored demo_single (take 7 ?cs))"
    "MaxRemediationAttempts (Spec demo_single) = 1"
    by code_simp+
  show ?thesis by (rule single_attempt_never_remediates [OF demo_lawful demo_reconciles c])
qed

text \<open>
  C22. A status with phase Healthy is written only on the evidence that allows the node back into service, has
  its attempt counter reset, and carries the condition GPUHealthy with status True.
\<close>

theorem healthy_status:
  assumes "lawful r" and "reconciles r cr cs x" and "i < length cs" and "status_of_call (cs ! i) = Some d"
    and "phase d = PhaseHealthy"
  shows "attempts_of d = 0 \<and> status_of d ConditionGPUHealthy = Some True \<and> ObservedGeneration (Status d) = Generation cr \<and>
    (list_ex (telemetry_reply StatusHealthy) (take i cs) \<or> phase cr = PhaseFailed \<and> spec_changed cr)"
proof -
  obtain t where t: "evidence cr (take i cs) t" "write_ok t d" by (rule reconciles_status_nth [OF assms(1-4)])
  from t(2) have "phase_ok t d PhaseHealthy" by (cases rule: write_ok_cases) (use assms(5) in \<open>auto simp: stamps_def\<close>)
  then show ?thesis using t by (auto simp: evidence_def write_ok_def same_object_def)
qed

theorem healthy_status_witness:
  "attempts_of (case demo_calls (demo_cr RemediationPolicyDrain PhaseWarning 2) False [] [ok_reply StatusHealthy] ! 3 of PutStatus d _ \<Rightarrow> d) = 0"
proof -
  let ?cs = "demo_calls (demo_cr RemediationPolicyDrain PhaseWarning 2) False [] [ok_reply StatusHealthy]"
  let ?d = "case ?cs ! 3 of PutStatus d _ \<Rightarrow> d"
  have c: "3 < length ?cs" "status_of_call (?cs ! 3) = Some ?d" "phase ?d = PhaseHealthy" by code_simp+
  then show ?thesis using healthy_status [OF demo_lawful demo_reconciles c] by blast
qed

text \<open>
  C23. A drained GPU leaves phase Draining with its attempt counter unchanged, for Recovering or for Replacing,
  and for Replacing only after the telemetry service has answered a request of this run with status 409.
\<close>

theorem drain_outcome:
  assumes "lawful r" and "reconciles r cr cs x" and "i < length cs" and "status_of_call (cs ! i) = Some d"
    and "phase (stored cr (take i cs)) = PhaseDraining"
  shows "attempts_of d = attempts_of (stored cr (take i cs)) \<and> list_ex cordon_reply (take i cs) \<and>
    (phase d = PhaseRecovering \<or> phase d = PhaseReplacing \<and> list_ex conflict_reply (take i cs))"
proof -
  obtain t where t: "evidence cr (take i cs) t" "cur t = stored cr (take i cs)" "write_ok t d"
    by (rule reconciles_status_nth [OF assms(1-4)])
  have "\<not> needs_remedy t" using assms(5) t(2) needs_remedy_from [of t] by (auto simp: critical_from_def observing_def)
  moreover have "phase_ok t d (phase d)" using t(3) by (cases rule: write_ok_cases) (use assms(5) t(2) in \<open>auto simp: stamps_def\<close>)
  ultimately show ?thesis using assms(5) t(1,2)
    by (cases "phase d")
       (auto simp: uncounted_def drained_def evidence_def observing_def rejoining_overdue_def)
qed

theorem drain_outcome_witness:
  "phase (case demo_calls (demo_cr RemediationPolicyDrain PhaseDraining 1) True [] [\<lparr>StatusCode = 409, Body = None\<rparr>] ! 5 of PutStatus d _ \<Rightarrow> d)
     = PhaseReplacing \<and>
   attempts_of (case demo_calls (demo_cr RemediationPolicyDrain PhaseDraining 1) True [] [\<lparr>StatusCode = 409, Body = None\<rparr>] ! 5 of PutStatus d _ \<Rightarrow> d) = 1"
proof -
  let ?cs = "demo_calls (demo_cr RemediationPolicyDrain PhaseDraining 1) True [] [\<lparr>StatusCode = 409, Body = None\<rparr>]"
  let ?d = "case ?cs ! 5 of PutStatus d _ \<Rightarrow> d"
  have c: "5 < length ?cs" "status_of_call (?cs ! 5) = Some ?d"
    "phase (stored (demo_cr RemediationPolicyDrain PhaseDraining 1) (take 5 ?cs)) = PhaseDraining"
    by code_simp+
  have "phase ?d = PhaseReplacing" "attempts_of (stored (demo_cr RemediationPolicyDrain PhaseDraining 1) (take 5 ?cs)) = 1" by code_simp+
  then show ?thesis using drain_outcome [OF demo_lawful demo_reconciles c] by simp
qed



definition status_inv :: "GPUHealthCR \<Rightarrow> bool" where
  "status_inv c \<longleftrightarrow> length (StatusFindings (Status c)) \<le> 100 \<and> one_per_type (StatusFindings (Status c)) \<and>
     (ReplacementStartedAt (Status c) \<noteq> None \<longrightarrow> phase c = PhaseReplacing)"

text \<open>
  C21. Every status a run writes keeps the invariants of the resource: at most 100 findings, one per type, and
  a replacement timestamp only in phase Replacing.
\<close>

theorem status_invariant:
  assumes "lawful r" and "reconciles r cr cs x" and "i < length cs" and "status_of_call (cs ! i) = Some d"
    and "status_inv (stored cr (take i cs))"
  shows "status_inv d"
proof -
  obtain t where t: "cur t = stored cr (take i cs)" "write_ok t d" by (rule reconciles_status_nth [OF assms(1-4)])
  have "findings_ok t d" using t(2) by (simp add: write_ok_def)
  then have "length (StatusFindings (Status d)) \<le> 100 \<and> one_per_type (StatusFindings (Status d))"
    using assms(5) t(1) length_mergeFindings mergeFindings_one_per_type by (auto simp: findings_ok_def status_inv_def)
  moreover have "ReplacementStartedAt (Status d) \<noteq> None \<longrightarrow> phase d = PhaseReplacing"
    using t(2)
  proof (cases rule: write_ok_cases)
    case phase
    then show ?thesis using assms(5) t(1) by (auto simp: clears_def status_inv_def)
  qed (simp add: stamps_def)
  ultimately show ?thesis by (simp add: status_inv_def)
qed

theorem status_invariant_witness:
  "status_inv (case drain_run [] [ok_reply StatusCritical] ! 7 of PutStatus d _ \<Rightarrow> d)"
proof -
  let ?d = "case drain_run [] [ok_reply StatusCritical] ! 7 of PutStatus d _ \<Rightarrow> d"
  have c: "7 < length (drain_run [] [ok_reply StatusCritical])"
    "status_of_call (drain_run [] [ok_reply StatusCritical] ! 7) = Some ?d"
    "status_inv (stored demo_drain (take 7 (drain_run [] [ok_reply StatusCritical])))"
    by code_simp+
  show ?thesis by (rule status_invariant [OF demo_lawful demo_reconciles c])
qed



text \<open>
  C36. When a failed GPU is returned to service and putting its node back fails, the status Healthy has already
  been stored.
\<close>

theorem uncordon_failure_hidden:
  assumes "lawful r" and "reconciles r cr cs (Inl (Uncordoning u))"
  shows "phase (stored cr cs) = PhaseHealthy"
proof -
  obtain s where "mrun r (start cr) cs = Some s" "outcome (Inl (Uncordoning u)) s" by (rule reconciles_accepted [OF assms])
  then show ?thesis using mrun_stored [of r "start cr" cs s] by (simp add: start_def)
qed

definition demo_lost :: GPUHealthCR where
  "demo_lost = (demo_cr RemediationPolicyDrain PhaseFailed 3)\<lparr>Spec := (Spec demo_drain)\<lparr>NodeName := ''gone''\<rparr>\<rparr>"

theorem uncordon_failure_hidden_witness:
  "phase (stored demo_lost (demo_calls demo_lost True [] [ok_reply StatusHealthy])) = PhaseHealthy"
proof -
  have "demo_result demo_lost True [] [ok_reply StatusHealthy] = Inl (Uncordoning ''u7'')" by code_simp
  then show ?thesis using uncordon_failure_hidden [OF demo_lawful] demo_reconciles by metis
qed

text \<open>
  While a GPU is only observed and not reported critical, the operator neither changes its node nor evicts pods.
  In particular a node that was left cordoned by the failure above is not put back into service.
\<close>

theorem observing_leaves_node:
  assumes "reconciles r cr cs x" and "observing (phase cr)" and "\<not> list_ex (telemetry_reply StatusCritical) cs" and "c \<in> set cs"
  shows "\<not> node_call c"
proof -
  from assms(1) obtain name w w' where "Reconcile r name w = (x, GotCR name (Inr cr) # cs, w')"
    unfolding reconciles_def by blast
  then obtain w1 where "reconcile_phase r cr w1 = (x, cs, w')" by (auto simp: Reconcile_eq split: prod.splits sum.splits)
  then have "handleObserving r cr w1 = (x, cs, w')" using assms(2) by (simp add: reconcile_phase_def observing_phases)
  then show ?thesis by (rule handleObserving_calls [OF _ assms(3,4)])
qed



text \<open>
  C10. Merging the findings of a critical GPU is equivalent to the reference definition \<open>merge_spec\<close>, cut to its last
  entries: findings of other types keep their order, what this snapshot shows is updated or added at the end, one per type, and
  is never what the limit of 100 drops.
\<close>

theorem merge_findings_correct:
  assumes "one_per_type fs"
  shows "mergeFindings ts fs tel 100 =
      drop (length (merge_spec ts (candidates tel) fs) - 100) (merge_spec ts (candidates tel) fs) \<and>
    one_per_type (mergeFindings ts fs tel 100) \<and> length (mergeFindings ts fs tel 100) \<le> 100 \<and>
    (\<exists>kept. mergeFindings ts fs tel 100 = kept @ map (merged ts fs) (candidates tel))"
  using mergeFindings_eq [OF assms] mergeFindings_one_per_type [OF assms] length_mergeFindings
    mergeFindings_tail [OF assms, of 100] by simp

definition demo_findings :: "CRFinding list" where
  "demo_findings = [first_seen 1 (candidate FindingGPUThermalThrottle FindingSeverityWarning ''w'' 0),
     first_seen 1 (candidate FindingPowerCapped FindingSeverityCritical ''p'' 0)]"

theorem merge_findings_correct_witness:
  "map Type (mergeFindings 9 demo_findings (demo_health StatusCritical) 100) = [FindingPowerCapped, FindingGPUThermalThrottle] \<and>
   map Count (mergeFindings 9 demo_findings (demo_health StatusCritical) 100) = [1, 2] \<and>
   one_per_type (mergeFindings 9 demo_findings (demo_health StatusCritical) 100)"
proof -
  have "one_per_type demo_findings" by code_simp
  note m = merge_findings_correct [OF this, of 9 "demo_health StatusCritical"]
  have "map Type (mergeFindings 9 demo_findings (demo_health StatusCritical) 100) = [FindingPowerCapped, FindingGPUThermalThrottle]"
    "map Count (mergeFindings 9 demo_findings (demo_health StatusCritical) 100) = [1, 2]"
    by code_simp+
  with m show ?thesis by simp
qed

end
