(* ===== verification/Sim_Config.thy ===== *)
theory Sim_Config
  imports Gpu_Types
begin

text \<open>
  The simulator's run-time settings (\<^verbatim>\<open>internal/gpu/config.go\<close>). Each method holds the lock of
  the configuration for its whole body, so each is one atomic function of the configuration.
\<close>

record SimulationSettings =
  SpeedMultiplier :: "64 word"
  HealthyToWarningRate :: rat
  WarningToCriticalRate :: rat
  WarningToHealthyRate :: rat
  CriticalToWarningRate :: rat
  RecoveryWarningRate :: rat
  ReplacementWarningRate :: rat

text \<open>\<^verbatim>\<open>SimulationConfig\<close> has the same fields beside its mutex.\<close>

type_synonym SimulationConfig = SimulationSettings

definition defaults :: SimulationSettings where
  "defaults = \<lparr>SpeedMultiplier = 1, HealthyToWarningRate = fl64 (5 / 10000),
     WarningToCriticalRate = fl64 (1 / 100), WarningToHealthyRate = fl64 (5 / 1000),
     CriticalToWarningRate = fl64 (3 / 1000), RecoveryWarningRate = fl64 (10 / 100),
     ReplacementWarningRate = fl64 (2 / 100)\<rparr>"

definition Config_init :: SimulationConfig where
  "Config_init = \<lparr>SpeedMultiplier = SpeedMultiplier defaults,
     HealthyToWarningRate = HealthyToWarningRate defaults,
     WarningToCriticalRate = WarningToCriticalRate defaults,
     WarningToHealthyRate = WarningToHealthyRate defaults,
     CriticalToWarningRate = CriticalToWarningRate defaults,
     RecoveryWarningRate = RecoveryWarningRate defaults,
     ReplacementWarningRate = ReplacementWarningRate defaults\<rparr>"

definition Config_Get :: "SimulationConfig \<Rightarrow> SimulationSettings" where
  "Config_Get s = \<lparr>SpeedMultiplier = SpeedMultiplier s,
     HealthyToWarningRate = HealthyToWarningRate s,
     WarningToCriticalRate = WarningToCriticalRate s,
     WarningToHealthyRate = WarningToHealthyRate s,
     CriticalToWarningRate = CriticalToWarningRate s,
     RecoveryWarningRate = RecoveryWarningRate s,
     ReplacementWarningRate = ReplacementWarningRate s\<rparr>"

definition Config_Set :: "SimulationSettings \<Rightarrow> SimulationConfig \<Rightarrow> SimulationSettings \<times> SimulationConfig" where
  "Config_Set cfg s =
     (let s' = s\<lparr>SpeedMultiplier := SpeedMultiplier cfg,
            HealthyToWarningRate := HealthyToWarningRate cfg,
            WarningToCriticalRate := WarningToCriticalRate cfg,
            WarningToHealthyRate := WarningToHealthyRate cfg,
            CriticalToWarningRate := CriticalToWarningRate cfg,
            RecoveryWarningRate := RecoveryWarningRate cfg,
            ReplacementWarningRate := ReplacementWarningRate cfg\<rparr>
      in (Config_Get s', s'))"

definition Config_Reset :: "SimulationConfig \<Rightarrow> SimulationSettings \<times> SimulationConfig" where
  "Config_Reset s =
     (let s' = s\<lparr>SpeedMultiplier := SpeedMultiplier defaults,
            HealthyToWarningRate := HealthyToWarningRate defaults,
            WarningToCriticalRate := WarningToCriticalRate defaults,
            WarningToHealthyRate := WarningToHealthyRate defaults,
            CriticalToWarningRate := CriticalToWarningRate defaults\<rparr>
      in (Config_Get s', s'))"

text \<open>The range the settings endpoint accepts.\<close>

definition valid_settings :: "SimulationSettings \<Rightarrow> bool" where
  "valid_settings s \<longleftrightarrow>
     1 \<le> sint (SpeedMultiplier s) \<and> sint (SpeedMultiplier s) \<le> 100 \<and>
     0 \<le> HealthyToWarningRate s \<and> HealthyToWarningRate s \<le> 1 \<and>
     0 \<le> WarningToCriticalRate s \<and> 0 \<le> WarningToHealthyRate s \<and>
     fl64 (WarningToCriticalRate s + WarningToHealthyRate s) < 1 \<and>
     0 \<le> CriticalToWarningRate s \<and> CriticalToWarningRate s \<le> 1 \<and>
     0 \<le> RecoveryWarningRate s \<and> RecoveryWarningRate s \<le> 1 \<and>
     0 \<le> ReplacementWarningRate s \<and> ReplacementWarningRate s \<le> 1"

lemma Config_Get_id [simp]: "Config_Get s = s"
  by (simp add: Config_Get_def)

lemma Config_Set_eq [simp]: "Config_Set cfg s = (cfg, cfg)"
  by (simp add: Config_Set_def Let_def)

lemma Config_init_eq: "Config_init = defaults"
  by (simp add: Config_init_def)

lemma fl64_rate:
  assumes "0 \<le> x" and "x \<le> 1 / 4"
  shows "0 \<le> fl64 x \<and> fl64 x \<le> 1 / 4"
  using fl64_nonneg [OF assms(1)] fl64_mono [OF assms(2)] fl64_exact [of 1 "- 2"]
  by (simp add: power_int_def power2_eq_square)

lemma fl64_rate_sum:
  assumes "0 \<le> x" and "x \<le> 1 / 4" and "0 \<le> y" and "y \<le> 1 / 4"
  shows "fl64 (fl64 x + fl64 y) \<le> 1 / 2"
proof -
  have "fl64 x + fl64 y \<le> 1 / 2" using fl64_rate [OF assms(1,2)] fl64_rate [OF assms(3,4)] by linarith
  from fl64_mono [OF this] show ?thesis using fl64_exact [of 1 "- 1"] by (simp add: power_int_def)
qed

lemma valid_defaults: "valid_settings defaults"
proof -
  have r: "0 \<le> fl64 x \<and> fl64 x \<le> 1" if "0 \<le> x" "x \<le> 1 / 4" for x using fl64_rate [OF that] by simp
  have "fl64 (fl64 (1 / 100) + fl64 (5 / 1000)) < 1" using fl64_rate_sum [of "1 / 100" "5 / 1000"] by simp
  then show ?thesis
    using r [of "5 / 10000"] r [of "1 / 100"] r [of "5 / 1000"] r [of "3 / 1000"] r [of "10 / 100"] r [of "2 / 100"]
    by (simp add: valid_settings_def defaults_def)
qed

text \<open>
  \<^verbatim>\<open>Reset\<close> restores five of the seven settings: the two outcome rates of the operator actions
  keep the value they had.
\<close>

lemma Config_Reset_eq:
  "Config_Reset s =
     (defaults\<lparr>RecoveryWarningRate := RecoveryWarningRate s, ReplacementWarningRate := ReplacementWarningRate s\<rparr>,
      defaults\<lparr>RecoveryWarningRate := RecoveryWarningRate s, ReplacementWarningRate := ReplacementWarningRate s\<rparr>)"
  by (simp add: Config_Reset_def Let_def)

lemma Config_Reset_valid: "valid_settings s \<Longrightarrow> valid_settings (snd (Config_Reset s))"
  using valid_defaults by (simp add: Config_Reset_eq valid_settings_def)

lemma Config_Reset_not_defaults:
  "snd (Config_Reset s) = defaults \<longleftrightarrow>
     RecoveryWarningRate s = RecoveryWarningRate defaults \<and>
     ReplacementWarningRate s = ReplacementWarningRate defaults"
  by (cases s) (auto simp: Config_Reset_eq defaults_def)

end
