(* ===== verification/Hub.thy ===== *)
theory Hub
  imports Prelude
begin

text \<open>
  The fan-out broker (\<^verbatim>\<open>internal/gpu/hub.go\<close>). Channels are addresses into a heap of buffers.
  The first part gives each method as one function, for callers that run it without
  interference. The second part is the method bodies step by step, under the read-write
  mutex, run by any number of goroutines; it shows that no goroutine ever sends on a closed
  channel or closes one twice, which in Go would be a panic.
\<close>

section \<open>The methods\<close>

record chan =
  buf :: "string list"
  closed :: bool

record Hub =
  subs :: "nat set"
  chans :: "nat \<Rightarrow> chan"
  next_chan :: nat
  panicked :: bool

definition chan_cap :: nat where
  "chan_cap = 64"

definition make_chan :: chan where
  "make_chan = \<lparr>buf = [], closed = False\<rparr>"

definition DefaultHub_init :: Hub where
  "DefaultHub_init = \<lparr>subs = {}, chans = (\<lambda>_. make_chan), next_chan = 0, panicked = False\<rparr>"

text \<open>\<^verbatim>\<open>select { case ch <- gid: default: }\<close>: a full buffer drops the message, a closed channel panics.\<close>

definition try_send :: "string \<Rightarrow> chan \<Rightarrow> chan" where
  "try_send gid c = (if length (buf c) < chan_cap then c\<lparr>buf := buf c @ [gid]\<rparr> else c)"

definition Subscribe :: "Hub \<Rightarrow> nat \<times> Hub" where
  "Subscribe h =
     (let ch = next_chan h
      in (ch, h\<lparr>next_chan := Suc ch, chans := (chans h)(ch := make_chan), subs := insert ch (subs h)\<rparr>))"

definition Unsubscribe :: "nat \<Rightarrow> Hub \<Rightarrow> Hub" where
  "Unsubscribe ch h =
     (let h1 = h\<lparr>subs := subs h - {ch}\<rparr>
      in if closed (chans h1 ch) then h1\<lparr>panicked := True\<rparr>
         else h1\<lparr>chans := (chans h1)(ch := (chans h1 ch)\<lparr>closed := True\<rparr>)\<rparr>)"

definition Publish :: "string \<Rightarrow> Hub \<Rightarrow> Hub" where
  "Publish gid h =
     (if \<exists>ch \<in> subs h. closed (chans h ch) then h\<lparr>panicked := True\<rparr>
      else h\<lparr>chans := (\<lambda>ch. if ch \<in> subs h then try_send gid (chans h ch) else chans h ch)\<rparr>)"

definition hub_ok :: "Hub \<Rightarrow> bool" where
  "hub_ok h \<longleftrightarrow> \<not> panicked h \<and> (\<forall>ch \<in> subs h. ch < next_chan h \<and> \<not> closed (chans h ch))
     \<and> (\<forall>ch. length (buf (chans h ch)) \<le> chan_cap)"

lemma hub_ok_init [sim_inv]: "hub_ok DefaultHub_init"
  by (simp add: hub_ok_def DefaultHub_init_def make_chan_def)

lemma hub_ok_Publish [sim_inv]: "hub_ok h \<Longrightarrow> hub_ok (Publish gid h)"
  by (auto simp: hub_ok_def Publish_def try_send_def)

lemma hub_ok_Subscribe: "hub_ok h \<Longrightarrow> hub_ok (snd (Subscribe h)) \<and> fst (Subscribe h) \<notin> subs h"
  by (auto simp: hub_ok_def Subscribe_def Let_def make_chan_def)

lemma hub_ok_Unsubscribe: "hub_ok h \<Longrightarrow> ch \<in> subs h \<Longrightarrow> hub_ok (Unsubscribe ch h)"
  by (auto simp: hub_ok_def Unsubscribe_def Let_def)

lemma Publish_subs [simp, frame]: "subs (Publish gid h) = subs h"
  by (simp add: Publish_def)

lemma Publish_delivers:
  assumes "hub_ok h"
  shows "buf (chans (Publish gid h) ch) =
    (if ch \<in> subs h \<and> length (buf (chans h ch)) < chan_cap then buf (chans h ch) @ [gid]
     else buf (chans h ch))"
  using assms by (auto simp: Publish_def hub_ok_def try_send_def)

section \<open>The method bodies under the mutex\<close>

text \<open>
  The program points of a goroutine: in \<^verbatim>\<open>Subscribe\<close> (\<open>S\<close>), in \<^verbatim>\<open>Unsubscribe\<close> (\<open>U\<close>), in
  \<^verbatim>\<open>Publish\<close> (\<open>P\<close>), or outside. A publisher carries the channels its \<^verbatim>\<open>range\<close> has visited and,
  at \<open>P_send\<close>, the one it is about to send on.
\<close>

datatype pc =
  Outside
| S_lock nat | S_add nat | S_unlock nat
| U_lock nat | U_del nat | U_unlock nat | U_close nat
| P_rlock string | P_next string "nat set" | P_send string "nat set" nat

record sys =
  hub :: Hub
  writer :: "nat option"
  readers :: "nat set"
  pcs :: "nat \<Rightarrow> pc"
  owned :: "nat \<Rightarrow> nat set"  \<comment> \<open>channels a goroutine subscribed and still has to unsubscribe\<close>

definition sys_init :: sys where
  "sys_init = \<lparr>hub = DefaultHub_init, writer = None, readers = {}, pcs = (\<lambda>_. Outside), owned = (\<lambda>_. {})\<rparr>"

abbreviation goto :: "nat \<Rightarrow> pc \<Rightarrow> sys \<Rightarrow> sys" where
  "goto t p s \<equiv> s\<lparr>pcs := (pcs s)(t := p)\<rparr>"

definition send_step :: "string \<Rightarrow> nat \<Rightarrow> Hub \<Rightarrow> Hub" where
  "send_step gid c h =
     (if closed (chans h c) then h\<lparr>panicked := True\<rparr>
      else h\<lparr>chans := (chans h)(c := try_send gid (chans h c))\<rparr>)"

definition close_step :: "nat \<Rightarrow> Hub \<Rightarrow> Hub" where
  "close_step c h =
     (if closed (chans h c) then h\<lparr>panicked := True\<rparr>
      else h\<lparr>chans := (chans h)(c := (chans h c)\<lparr>closed := True\<rparr>)\<rparr>)"

inductive hub_step :: "sys \<Rightarrow> sys \<Rightarrow> bool" where
  sub_make: "pcs s t = Outside \<Longrightarrow> c = next_chan (hub s) \<Longrightarrow>
    hub_step s (goto t (S_lock c)
      (s\<lparr>hub := (hub s)\<lparr>next_chan := Suc c, chans := (chans (hub s))(c := make_chan)\<rparr>\<rparr>))"
| sub_lock: "pcs s t = S_lock c \<Longrightarrow> writer s = None \<Longrightarrow> readers s = {} \<Longrightarrow>
    hub_step s (goto t (S_add c) (s\<lparr>writer := Some t\<rparr>))"
| sub_add: "pcs s t = S_add c \<Longrightarrow>
    hub_step s (goto t (S_unlock c) (s\<lparr>hub := (hub s)\<lparr>subs := insert c (subs (hub s))\<rparr>\<rparr>))"
| sub_unlock: "pcs s t = S_unlock c \<Longrightarrow>
    hub_step s (goto t Outside (s\<lparr>writer := None, owned := (owned s)(t := insert c (owned s t))\<rparr>))"
| unsub_start: "pcs s t = Outside \<Longrightarrow> c \<in> owned s t \<Longrightarrow>
    hub_step s (goto t (U_lock c) (s\<lparr>owned := (owned s)(t := owned s t - {c})\<rparr>))"
| unsub_lock: "pcs s t = U_lock c \<Longrightarrow> writer s = None \<Longrightarrow> readers s = {} \<Longrightarrow>
    hub_step s (goto t (U_del c) (s\<lparr>writer := Some t\<rparr>))"
| unsub_del: "pcs s t = U_del c \<Longrightarrow>
    hub_step s (goto t (U_unlock c) (s\<lparr>hub := (hub s)\<lparr>subs := subs (hub s) - {c}\<rparr>\<rparr>))"
| unsub_unlock: "pcs s t = U_unlock c \<Longrightarrow>
    hub_step s (goto t (U_close c) (s\<lparr>writer := None\<rparr>))"
| unsub_close: "pcs s t = U_close c \<Longrightarrow>
    hub_step s (goto t Outside (s\<lparr>hub := close_step c (hub s)\<rparr>))"
| pub_start: "pcs s t = Outside \<Longrightarrow> hub_step s (goto t (P_rlock gid) s)"
| pub_rlock: "pcs s t = P_rlock gid \<Longrightarrow> writer s = None \<Longrightarrow>
    hub_step s (goto t (P_next gid {}) (s\<lparr>readers := insert t (readers s)\<rparr>))"
| pub_next: "pcs s t = P_next gid V \<Longrightarrow> c \<in> subs (hub s) - V \<Longrightarrow>
    hub_step s (goto t (P_send gid (insert c V) c) s)"
| pub_send: "pcs s t = P_send gid V c \<Longrightarrow>
    hub_step s (goto t (P_next gid V) (s\<lparr>hub := send_step gid c (hub s)\<rparr>))"
| pub_done: "pcs s t = P_next gid V \<Longrightarrow> subs (hub s) \<subseteq> V \<Longrightarrow>
    hub_step s (goto t Outside (s\<lparr>readers := readers s - {t}\<rparr>))"
| receive: "buf (chans (hub s) c) = m # ms \<Longrightarrow>
    hub_step s (s\<lparr>hub := (hub s)\<lparr>chans := (chans (hub s))(c := (chans (hub s) c)\<lparr>buf := ms\<rparr>)\<rparr>\<rparr>)"

inductive hub_reachable :: "sys \<Rightarrow> bool" where
  hub_start: "hub_reachable sys_init"
| hub_next: "hub_reachable s \<Longrightarrow> hub_step s s' \<Longrightarrow> hub_reachable s'"

text \<open>
  The invariant. \<open>handled\<close> is the channel a goroutine is subscribing or unsubscribing; such a
  channel and the subscribed ones have one handler each, and none of them is closed. The lock
  part says who is inside a critical section; with it a publisher that is about to send holds
  the read lock, so the channel is still subscribed.
\<close>

fun handled :: "pc \<Rightarrow> nat option" where
  "handled (S_lock c) = Some c" | "handled (S_add c) = Some c" | "handled (S_unlock c) = Some c"
| "handled (U_lock c) = Some c" | "handled (U_del c) = Some c" | "handled (U_unlock c) = Some c"
| "handled (U_close c) = Some c" | "handled _ = None"

fun in_write :: "pc \<Rightarrow> bool" where
  "in_write (S_add c) = True" | "in_write (S_unlock c) = True"
| "in_write (U_del c) = True" | "in_write (U_unlock c) = True" | "in_write _ = False"

fun in_read :: "pc \<Rightarrow> bool" where
  "in_read (P_next gid V) = True" | "in_read (P_send gid V c) = True" | "in_read _ = False"

definition lock_inv :: "sys \<Rightarrow> bool" where
  "lock_inv s \<longleftrightarrow> (\<forall>t. in_write (pcs s t) \<longrightarrow> writer s = Some t) \<and>
     (\<forall>t. in_read (pcs s t) \<longrightarrow> t \<in> readers s) \<and> (writer s \<noteq> None \<longrightarrow> readers s = {})"

definition token_inv :: "sys \<Rightarrow> bool" where
  "token_inv s \<longleftrightarrow>
     (\<forall>t u c. handled (pcs s t) = Some c \<longrightarrow> handled (pcs s u) = Some c \<longrightarrow> t = u) \<and>
     (\<forall>t u c. handled (pcs s t) = Some c \<longrightarrow> c \<notin> owned s u) \<and>
     (\<forall>t u c. c \<in> owned s t \<longrightarrow> c \<in> owned s u \<longrightarrow> t = u) \<and>
     (\<forall>t c. handled (pcs s t) = Some c \<or> c \<in> owned s t \<longrightarrow> c < next_chan (hub s) \<and> \<not> closed (chans (hub s) c))"

definition chan_inv :: "sys \<Rightarrow> bool" where
  "chan_inv s \<longleftrightarrow>
     (\<forall>c. closed (chans (hub s) c) \<longrightarrow> c < next_chan (hub s) \<and> c \<notin> subs (hub s)) \<and>
     (\<forall>t c. pcs s t = U_unlock c \<or> pcs s t = U_close c \<longrightarrow> c \<notin> subs (hub s)) \<and>
     (\<forall>t gid V c. pcs s t = P_send gid V c \<longrightarrow> c \<in> subs (hub s)) \<and>
     (\<forall>c \<in> subs (hub s). c < next_chan (hub s)) \<and>
     (\<forall>c. length (buf (chans (hub s) c)) \<le> chan_cap) \<and> \<not> panicked (hub s)"

lemma lock_inv_writer:
  assumes "lock_inv s" and "in_write (pcs s t)" and "in_write (pcs s u)"
  shows "u = t"
proof -
  have "\<forall>t. in_write (pcs s t) \<longrightarrow> writer s = Some t" using assms(1) by (simp add: lock_inv_def)
  with assms(2,3) show ?thesis by (metis option.inject)
qed

lemma lock_inv_step: "hub_step s s' \<Longrightarrow> lock_inv s \<Longrightarrow> lock_inv s'"
proof (induction rule: hub_step.induct)
  case (sub_unlock s t c)
  then show ?case using lock_inv_writer [of s t] by (auto simp: lock_inv_def split: if_splits)
next
  case (unsub_unlock s t c)
  then show ?case using lock_inv_writer [of s t] by (auto simp: lock_inv_def split: if_splits)
qed (auto simp: lock_inv_def split: if_splits)

text \<open>A goroutine that moves without giving up its channel, on a hub with the same open channels.\<close>

lemma token_inv_goto:
  assumes "token_inv s" and "handled p = handled (pcs s t)" and "pcs s' = (pcs s)(t := p)"
    and "owned s' = owned s" and "next_chan (hub s') = next_chan (hub s)"
    and "\<And>c. closed (chans (hub s') c) = closed (chans (hub s) c)"
  shows "token_inv s'"
proof -
  have "handled (pcs s' u) = handled (pcs s u)" for u using assms(2,3) by simp
  with assms(1,4-6) show ?thesis by (simp add: token_inv_def)
qed

lemma token_inv_handled:
  assumes "token_inv s" and "handled (pcs s t) = Some c"
  shows "c < next_chan (hub s)" and "\<not> closed (chans (hub s) c)" and "c \<notin> owned s u"
    and "handled (pcs s u) = Some c \<Longrightarrow> u = t"
  using assms unfolding token_inv_def by blast+

lemma closed_send_step [simp]: "closed (chans (send_step gid c h) d) = closed (chans h d)"
  by (simp add: send_step_def try_send_def)

lemma send_step_frame [simp]: "next_chan (send_step gid c h) = next_chan h" "subs (send_step gid c h) = subs h"
  by (simp_all add: send_step_def)

lemma token_inv_step: "hub_step s s' \<Longrightarrow> token_inv s \<Longrightarrow> token_inv s'"
proof (induction rule: hub_step.induct)
  case (sub_make s t c)
  then show ?case unfolding token_inv_def by (fastforce simp: make_chan_def split: if_splits)
next
  case (sub_unlock s t c)
  then show ?case unfolding token_inv_def by (simp split: if_splits) (metis handled.simps)
next
  case (unsub_start s t c)
  then show ?case unfolding token_inv_def by (auto split: if_splits)
next
  case (unsub_close s t c)
  note h = token_inv_handled [OF unsub_close.prems, of t c]
  with unsub_close show ?case unfolding token_inv_def by (auto simp: close_step_def split: if_splits)
qed (erule token_inv_goto; force)+

text \<open>A publisher about to send keeps every writer out of its critical section.\<close>

lemma no_writer_while_sending:
  "lock_inv s \<Longrightarrow> pcs s u = P_send gid V d \<Longrightarrow> \<not> in_write (pcs s t)"
  unfolding lock_inv_def by (metis empty_iff in_read.simps(2) option.distinct(1))

lemma chan_inv_step:
  "hub_step s s' \<Longrightarrow> lock_inv s \<Longrightarrow> token_inv s \<Longrightarrow> chan_inv s \<Longrightarrow> chan_inv s'"
proof (induction rule: hub_step.induct)
  case (sub_make s t c)
  then show ?case unfolding chan_inv_def by (auto simp: make_chan_def split: if_splits)
next
  case (sub_add s t c)
  note h = token_inv_handled [OF sub_add.prems(2), of t c]
  have "pcs s u \<noteq> U_unlock c \<and> pcs s u \<noteq> U_close c" for u
    using h(4) [of u] sub_add.hyps by (cases "pcs s u") auto
  with sub_add h show ?case unfolding chan_inv_def by (auto split: if_splits)
next
  case (unsub_del s t c)
  then have "\<And>u gid V d. pcs s u \<noteq> P_send gid V d" using no_writer_while_sending [of s _ _ _ _ t] by fastforce
  with unsub_del show ?case unfolding chan_inv_def by (auto split: if_splits)
next
  case (unsub_close s t c)
  note h = token_inv_handled [OF unsub_close.prems(2), of t c]
  with unsub_close show ?case unfolding chan_inv_def
    by (auto simp: close_step_def split: if_splits)
next
  case (pub_send s t gid V c)
  then have "\<not> closed (chans (hub s) c)" unfolding chan_inv_def by blast
  with pub_send show ?case unfolding chan_inv_def
    by (auto simp: send_step_def try_send_def split: if_splits)
next
  case (receive s c m ms)
  then show ?case unfolding chan_inv_def by (auto split: if_splits) (metis Suc_leD length_Cons)
qed (auto simp: chan_inv_def split: if_splits)

lemma hub_reachable_inv: "hub_reachable s \<Longrightarrow> lock_inv s \<and> token_inv s \<and> chan_inv s"
proof (induction rule: hub_reachable.induct)
  case hub_start
  show ?case
    by (simp add: sys_init_def lock_inv_def token_inv_def chan_inv_def DefaultHub_init_def make_chan_def)
next
  case (hub_next s s')
  then show ?case by (blast intro: lock_inv_step token_inv_step chan_inv_step)
qed

end
