(* ===== verification/Simulator.thy ===== *)
theory Simulator
  imports Sim_Config Hub
begin

text \<open>
  The fleet simulator: its state store (\<^verbatim>\<open>internal/gpu/store.go\<close>) and the state transitions of
  \<^verbatim>\<open>internal/gpu/simulator.go\<close>. The package-level variables are the record \<open>gpu_pkg\<close>. Random
  numbers come from an arbitrary sequence of raw draws, read in order: \<open>Float64\<close> maps a draw
  to a multiple of \<open>2 ^ -53\<close> below one, \<open>IntN n\<close> to a number below \<open>n\<close>, as
  \<^verbatim>\<open>math/rand/v2\<close> documents them.
\<close>

section \<open>The store\<close>

record gpuState =
  status :: HealthStatus
  failureType :: FailureType

record Store =
  states :: "string \<rightharpoonup> gpuState"

definition mk_state :: "HealthStatus \<Rightarrow> FailureType \<Rightarrow> gpuState" where
  "mk_state st f = \<lparr>status = st, failureType = f\<rparr>"

text \<open>The zero value of the struct, which a read of an absent key yields.\<close>

definition zero_gpuState :: gpuState where
  "zero_gpuState = mk_state (StatusOther []) (FailureTypeOther [])"

definition NewStore :: "string list \<Rightarrow> Store" where
  "NewStore ids =
     \<lparr>states = fold (\<lambda>gid m. m(gid \<mapsto> mk_state StatusHealthy FailureTypeNone)) ids Map.empty\<rparr>"

definition GetState :: "Store \<Rightarrow> string \<Rightarrow> HealthStatus \<times> FailureType \<times> bool" where
  "GetState s gpuID =
     (case states s gpuID of
        None \<Rightarrow> (status zero_gpuState, failureType zero_gpuState, False)
      | Some st \<Rightarrow> (status st, failureType st, True))"

definition SetState :: "string \<Rightarrow> HealthStatus \<Rightarrow> FailureType \<Rightarrow> Store \<Rightarrow> Store" where
  "SetState gpuID st f s = s\<lparr>states := (states s)(gpuID \<mapsto> mk_state st f)\<rparr>"

definition GetStatus :: "Store \<Rightarrow> string \<Rightarrow> HealthStatus \<times> bool" where
  "GetStatus s gpuID = (case GetState s gpuID of (st, _, ok) \<Rightarrow> (st, ok))"

definition SetStatus :: "string \<Rightarrow> HealthStatus \<Rightarrow> Store \<Rightarrow> Store" where
  "SetStatus gpuID st s =
     (let existing = (case states s gpuID of None \<Rightarrow> zero_gpuState | Some x \<Rightarrow> x);
          failure = (if st = StatusHealthy then FailureTypeNone else failureType existing)
      in s\<lparr>states := (states s)(gpuID \<mapsto> mk_state st failure)\<rparr>)"

lemma mk_state_simps [simp]: "status (mk_state a f) = a" "failureType (mk_state a f) = f"
  by (simp_all add: mk_state_def)

lemma mk_state_inject [simp]: "mk_state a f = mk_state b g \<longleftrightarrow> a = b \<and> f = g"
  by (simp add: mk_state_def)

lemma mk_state_surj: "mk_state (status st) (failureType st) = st"
  by (simp add: mk_state_def)

lemma states_NewStore [simp]:
  "states (NewStore ids) gid =
     (if gid \<in> set ids then Some (mk_state StatusHealthy FailureTypeNone) else None)"
proof -
  have "fold (\<lambda>gid m. m(gid \<mapsto> v)) ids m gid = (if gid \<in> set ids then Some v else m gid)"
    for m and v :: gpuState by (induction ids arbitrary: m) auto
  then show ?thesis by (simp add: NewStore_def)
qed

lemma states_SetState [simp]: "states (SetState gid st f s) = (states s)(gid \<mapsto> mk_state st f)"
  by (simp add: SetState_def)

lemma GetState_ok: "GetState s gid = (st, f, True) \<longleftrightarrow> states s gid = Some (mk_state st f)"
  by (auto simp: GetState_def mk_state_def split: option.splits)

interpretation gpu_store: keyed_store
  "fst :: string \<times> gpuState \<Rightarrow> string"
  "\<lambda>(gid, st). SetState gid (status st) (failureType st)"
  "\<lambda>s gid. map_option (Pair gid) (states s gid)"
  by unfold_locales (auto simp: mk_state_surj split: prod.splits)

section \<open>Package state and random draws\<close>

record rng =
  raw :: "nat \<Rightarrow> nat"
  pos :: nat

record gpu_pkg =
  DefaultStore :: Store
  DefaultHub :: Hub
  Config :: SimulationConfig
  rand :: rng

definition Float64 :: "gpu_pkg \<Rightarrow> rat \<times> gpu_pkg" where
  "Float64 g =
     (of_nat (raw (rand g) (pos (rand g)) mod 2 ^ 53) / 2 ^ 53,
      g\<lparr>rand := (rand g)\<lparr>pos := Suc (pos (rand g))\<rparr>\<rparr>)"

definition IntN :: "nat \<Rightarrow> gpu_pkg \<Rightarrow> nat \<times> gpu_pkg" where
  "IntN n g =
     (raw (rand g) (pos (rand g)) mod n, g\<lparr>rand := (rand g)\<lparr>pos := Suc (pos (rand g))\<rparr>\<rparr>)"

lemma Float64_range: "Float64 g = (r, g') \<Longrightarrow> 0 \<le> r \<and> r < 1"
proof -
  assume a: "Float64 g = (r, g')"
  have "of_nat (n mod 2 ^ 53) < (of_nat (2 ^ 53) :: rat)" for n by (subst of_nat_less_iff) simp
  with a show ?thesis by (auto simp: Float64_def divide_less_eq)
qed

lemma IntN_less: "0 < n \<Longrightarrow> IntN n g = (k, g') \<Longrightarrow> k < n"
  by (auto simp: IntN_def)

lemma draw_frame [frame]:
  "Float64 g = (r, g') \<Longrightarrow> DefaultStore g' = DefaultStore g \<and> DefaultHub g' = DefaultHub g \<and> Config g' = Config g"
  "IntN n g = (k, g') \<Longrightarrow> DefaultStore g' = DefaultStore g \<and> DefaultHub g' = DefaultHub g \<and> Config g' = Config g"
  by (auto simp: Float64_def IntN_def)

section \<open>The fleet\<close>

datatype sim_error =
  ErrGPUNotFound string
| ErrGPUUnrecoverable string
| ErrScan
| ErrRange
| ErrNotInStore string
| ErrSpec string

definition TotalGpus :: "16 word" where "TotalGpus = 10000"
definition GpusPerNode :: "16 word" where "GpusPerNode = 4"

definition gpu_id :: "nat \<Rightarrow> string" where
  "gpu_id n = ''GPU-'' @ pad_dec 5 n"

definition gpuIDs :: "string list" where
  "gpuIDs = map (\<lambda>i. gpu_id (i + 1)) [0..<unat TotalGpus]"

definition AllIDs :: "string list" where
  "AllIDs = gpuIDs"

definition gpu_init :: "(nat \<Rightarrow> nat) \<Rightarrow> gpu_pkg" where
  "gpu_init src = \<lparr>DefaultStore = NewStore gpuIDs, DefaultHub = DefaultHub_init, Config = Config_init,
     rand = \<lparr>raw = src, pos = 0\<rparr>\<rparr>"

section \<open>Transitions\<close>

definition set_state :: "string \<Rightarrow> HealthStatus \<Rightarrow> FailureType \<Rightarrow> gpu_pkg \<Rightarrow> gpu_pkg" where
  "set_state gpuID st f g = g\<lparr>DefaultStore := SetState gpuID st f (DefaultStore g)\<rparr>"

definition publish :: "string \<Rightarrow> gpu_pkg \<Rightarrow> gpu_pkg" where
  "publish gpuID g = g\<lparr>DefaultHub := Publish gpuID (DefaultHub g)\<rparr>"

definition randomWarningFailure :: "gpu_pkg \<Rightarrow> FailureType \<times> gpu_pkg" where
  "randomWarningFailure g =
     (let (r, g) = Float64 g
      in (if r < fl64 (50 / 100) then FailureTypeThermal
          else if r < fl64 (80 / 100) then FailureTypePower
          else FailureTypeECCSingle, g))"

definition DegradeToWarning :: "string \<Rightarrow> gpu_pkg \<Rightarrow> gpu_pkg" where
  "DegradeToWarning gpuID g =
     (let (f, g) = randomWarningFailure g
      in publish gpuID (set_state gpuID StatusWarning f g))"

definition WorsenToCritical :: "string \<Rightarrow> gpu_pkg \<Rightarrow> gpu_pkg" where
  "WorsenToCritical gpuID g =
     (case GetState (DefaultStore g) gpuID of (_, failure, ok) \<Rightarrow>
        if \<not> ok then g
        else let (r, g) = Float64 g;
                 failure = (if r < fl64 (5 / 100) then FailureTypeECCDouble else failure)
             in publish gpuID (set_state gpuID StatusCritical failure g))"

definition RecoverToHealthy :: "string \<Rightarrow> gpu_pkg \<Rightarrow> gpu_pkg" where
  "RecoverToHealthy gpuID g =
     (case GetState (DefaultStore g) gpuID of (_, failure, ok) \<Rightarrow>
        if \<not> ok \<or> failure = FailureTypeECCSingle then g
        else publish gpuID (set_state gpuID StatusHealthy FailureTypeNone g))"

definition StepBackToWarning :: "string \<Rightarrow> gpu_pkg \<Rightarrow> gpu_pkg" where
  "StepBackToWarning gpuID g =
     (case GetState (DefaultStore g) gpuID of (_, failure, ok) \<Rightarrow>
        if \<not> ok \<or> failure = FailureTypeECCDouble then g
        else publish gpuID (set_state gpuID StatusWarning failure g))"

definition Recover :: "string \<Rightarrow> gpu_pkg \<Rightarrow> (sim_error, unit) result \<times> gpu_pkg" where
  "Recover gpuID g =
     (case GetState (DefaultStore g) gpuID of (_, failure, ok) \<Rightarrow>
        if \<not> ok then (Inl (ErrGPUNotFound gpuID), g)
        else if failure = FailureTypeECCDouble then (Inl (ErrGPUUnrecoverable gpuID), g)
        else if failure = FailureTypeECCSingle then
          (Inr (), publish gpuID (set_state gpuID StatusWarning FailureTypeECCSingle g))
        else
          let (r, g) = Float64 g;
              (newStatus, newFailure) =
                (if r < RecoveryWarningRate (Config_Get (Config g)) then (StatusWarning, failure)
                 else (StatusHealthy, FailureTypeNone))
          in (Inr (), publish gpuID (set_state gpuID newStatus newFailure g)))"

definition Replace :: "string \<Rightarrow> gpu_pkg \<Rightarrow> (sim_error, unit) result \<times> gpu_pkg" where
  "Replace gpuID g =
     (case GetState (DefaultStore g) gpuID of (_, _, ok) \<Rightarrow>
        if \<not> ok then (Inl (ErrGPUNotFound gpuID), g)
        else
          let (r, g) = Float64 g
          in if r < ReplacementWarningRate (Config_Get (Config g)) then
               let (f, g) = randomWarningFailure g
               in (Inr (), publish gpuID (set_state gpuID StatusWarning f g))
             else (Inr (), publish gpuID (set_state gpuID StatusHealthy FailureTypeNone g)))"

lemmas transition_defs [model_defs] =
  DegradeToWarning_def WorsenToCritical_def RecoverToHealthy_def StepBackToWarning_def
  Recover_def Replace_def

section \<open>Identifiers\<close>

lemma unat_TotalGpus [simp]: "unat TotalGpus = 10000"
  by (simp add: TotalGpus_def)

lemma gpu_id_inject [simp]: "gpu_id n = gpu_id m \<longleftrightarrow> n = m"
  by (simp add: gpu_id_def)

lemma set_AllIDs: "set AllIDs = gpu_id ` {1..10000}"
proof -
  have "{1..10000} = Suc ` {0..<10000}" by (simp only: image_Suc_atLeastLessThan) auto
  then show ?thesis by (simp add: AllIDs_def gpuIDs_def image_image del: image_Suc_atLeastLessThan)
qed

lemma distinct_AllIDs: "distinct AllIDs"
  by (simp add: AllIDs_def gpuIDs_def distinct_map inj_on_def)

lemma length_AllIDs: "length AllIDs = 10000"
  by (simp add: AllIDs_def gpuIDs_def)

section \<open>Effects of the transitions\<close>

abbreviation gstate :: "gpu_pkg \<Rightarrow> string \<rightharpoonup> gpuState" where
  "gstate g \<equiv> states (DefaultStore g)"

text \<open>What a transition that writes the entry of one GPU does to the package state.\<close>

lemma set_publish [simp]:
  "gstate (publish gid (set_state gid st f g)) = (gstate g)(gid \<mapsto> mk_state st f)"
  "DefaultHub (publish gid (set_state gid st f g)) = Publish gid (DefaultHub g)"
  "Config (publish gid (set_state gid st f g)) = Config g"
  by (simp_all add: publish_def set_state_def)

lemma GetState_None: "gstate g gid = None \<Longrightarrow> GetState (DefaultStore g) gid = (StatusOther [], FailureTypeOther [], False)"
  by (simp add: GetState_def zero_gpuState_def)

lemma GetState_Some: "gstate g gid = Some st \<Longrightarrow> GetState (DefaultStore g) gid = (status st, failureType st, True)"
  by (simp add: GetState_def)

lemma randomWarningFailure_range:
  "randomWarningFailure g = (f, g') \<Longrightarrow> f \<in> {FailureTypeThermal, FailureTypePower, FailureTypeECCSingle}"
  by (auto simp: randomWarningFailure_def Let_def split: prod.splits if_splits)

lemma randomWarningFailure_frame [frame]:
  "randomWarningFailure g = (f, g') \<Longrightarrow>
    DefaultStore g' = DefaultStore g \<and> DefaultHub g' = DefaultHub g \<and> Config g' = Config g"
  by (auto simp: randomWarningFailure_def Let_def split: prod.splits dest: draw_frame)

text \<open>
  \<open>writes gid P g g'\<close>: the step from \<open>g\<close> to \<open>g'\<close> leaves the settings alone and either changes
  neither store nor hub, or files a state satisfying \<open>P\<close> for one GPU and publishes its id.
\<close>

definition writes :: "string \<Rightarrow> (gpuState \<Rightarrow> bool) \<Rightarrow> gpu_pkg \<Rightarrow> gpu_pkg \<Rightarrow> bool" where
  "writes gid P g g' \<longleftrightarrow> Config g' = Config g \<and>
     (gstate g' = gstate g \<and> DefaultHub g' = DefaultHub g \<or>
      (\<exists>st. P st \<and> gstate g' = (gstate g)(gid \<mapsto> st) \<and> DefaultHub g' = Publish gid (DefaultHub g)))"

lemma writes_refl: "Config g' = Config g \<Longrightarrow> gstate g' = gstate g \<Longrightarrow> DefaultHub g' = DefaultHub g \<Longrightarrow> writes gid P g g'"
  by (simp add: writes_def)

lemma writes_publish:
  assumes "P (mk_state st f)"
    and "DefaultStore g1 = DefaultStore g \<and> DefaultHub g1 = DefaultHub g \<and> Config g1 = Config g"
  shows "writes gid P g (publish gid (set_state gid st f g1))"
  unfolding writes_def
proof (intro conjI disjI2 exI [of _ "mk_state st f"])
qed (use assms in simp_all)

lemma writes_mono: "writes gid P g g' \<Longrightarrow> (\<And>st. P st \<Longrightarrow> Q st) \<Longrightarrow> writes gid Q g g'"
  by (auto simp: writes_def)

lemma DegradeToWarning_writes:
  "writes gid (\<lambda>st. \<exists>f \<in> {FailureTypeThermal, FailureTypePower, FailureTypeECCSingle}. st = mk_state StatusWarning f)
     g (DegradeToWarning gid g)"
  unfolding DegradeToWarning_def Let_def
  using randomWarningFailure_range randomWarningFailure_frame
  by (auto split: prod.splits intro!: writes_publish)

lemma WorsenToCritical_writes:
  "writes gid (\<lambda>st. \<exists>old. gstate g gid = Some old \<and>
       (st = mk_state StatusCritical (failureType old) \<or> st = mk_state StatusCritical FailureTypeECCDouble))
     g (WorsenToCritical gid g)"
  using draw_frame(1)
  by (cases "gstate g gid")
     (auto simp: WorsenToCritical_def GetState_None GetState_Some Let_def
        split: prod.splits intro!: writes_refl writes_publish)

lemma RecoverToHealthy_writes:
  "writes gid (\<lambda>st. \<exists>old. gstate g gid = Some old \<and> failureType old \<noteq> FailureTypeECCSingle \<and>
       st = mk_state StatusHealthy FailureTypeNone) g (RecoverToHealthy gid g)"
  by (cases "gstate g gid")
     (auto simp: RecoverToHealthy_def GetState_None GetState_Some intro!: writes_refl writes_publish)

lemma StepBackToWarning_writes:
  "writes gid (\<lambda>st. \<exists>old. gstate g gid = Some old \<and> failureType old \<noteq> FailureTypeECCDouble \<and>
       st = mk_state StatusWarning (failureType old)) g (StepBackToWarning gid g)"
  by (cases "gstate g gid")
     (auto simp: StepBackToWarning_def GetState_None GetState_Some intro!: writes_refl writes_publish)

lemma Recover_writes:
  "writes gid (\<lambda>st. \<exists>old. gstate g gid = Some old \<and> failureType old \<noteq> FailureTypeECCDouble \<and>
       (st = mk_state StatusWarning (failureType old) \<or>
        failureType old \<noteq> FailureTypeECCSingle \<and> st = mk_state StatusHealthy FailureTypeNone))
     g (snd (Recover gid g))"
  using draw_frame(1)
  by (cases "gstate g gid")
     (auto simp: Recover_def GetState_None GetState_Some Let_def
        split: prod.splits if_splits intro!: writes_refl writes_publish)

lemma Replace_writes:
  "writes gid (\<lambda>st. gid \<in> dom (gstate g) \<and> (st = mk_state StatusHealthy FailureTypeNone \<or>
       (\<exists>f \<in> {FailureTypeThermal, FailureTypePower, FailureTypeECCSingle}. st = mk_state StatusWarning f)))
     g (snd (Replace gid g))"
proof (cases "gstate g gid")
  case None
  then show ?thesis by (simp add: Replace_def GetState_None writes_refl)
next
  case (Some old)
  obtain r g1 f g2 where d: "Float64 g = (r, g1)" and w: "randomWarningFailure g1 = (f, g2)"
    by fastforce
  note fr = draw_frame(1) [OF d] randomWarningFailure_frame [OF w]
  show ?thesis
    using Some fr randomWarningFailure_range [OF w]
    by (auto simp: Replace_def GetState_Some d w dom_def intro!: writes_publish)
qed

end
