(* ===== verification/Ticker.thy ===== *)
theory Ticker
  imports Simulator "HOL-Library.Signed_Division"
begin

text \<open>
  The goroutine that drives the simulation (\<^verbatim>\<open>internal/gpu/ticker.go\<close>): the interval it derives
  from the speed multiplier, and the pass over the fleet at every tick. A run-time panic of the
  goroutine (division by zero, a non-positive ticker interval) is a value. The relation
  \<open>self_step\<close> is the specification of a GPU's own transitions; \<open>tick_all\<close> refines it.
\<close>

datatype panic = DivideByZero | NonPositiveInterval

definition Base :: int where
  "Base = 10 * second"

text \<open>\<^verbatim>\<open>Base / time.Duration(m)\<close> passed to \<^verbatim>\<open>time.NewTicker\<close> or \<^verbatim>\<open>Reset\<close>, both of which panic unless it is positive.\<close>

definition tick_interval :: "64 word \<Rightarrow> (panic, int) result" where
  "tick_interval m =
     (if sint m = 0 then Inl DivideByZero
      else let d = Base sdiv sint m in if d \<le> 0 then Inl NonPositiveInterval else Inr d)"

record ticker =
  speedMultiplier :: "64 word"
  interval :: int

definition Ticker_Start :: "gpu_pkg \<Rightarrow> (panic, ticker) result" where
  "Ticker_Start g =
     (let cfg = Config_Get (Config g)
      in case tick_interval (SpeedMultiplier cfg) of
           Inl p \<Rightarrow> Inl p
         | Inr d \<Rightarrow> Inr \<lparr>speedMultiplier = SpeedMultiplier cfg, interval = d\<rparr>)"

definition tick_gpu :: "SimulationSettings \<Rightarrow> string \<Rightarrow> gpu_pkg \<Rightarrow> gpu_pkg" where
  "tick_gpu cfg gid g =
     (case GetState (DefaultStore g) gid of (st, _, ok) \<Rightarrow>
        if \<not> ok then g
        else let (roll, g) = Float64 g
             in case st of
                  StatusHealthy \<Rightarrow> if roll < HealthyToWarningRate cfg then DegradeToWarning gid g else g
                | StatusWarning \<Rightarrow>
                    if roll < WarningToCriticalRate cfg then WorsenToCritical gid g
                    else if roll < fl64 (WarningToCriticalRate cfg + WarningToHealthyRate cfg)
                      then RecoverToHealthy gid g
                    else g
                | StatusCritical \<Rightarrow> if roll < CriticalToWarningRate cfg then StepBackToWarning gid g else g
                | StatusOther _ \<Rightarrow> g)"

definition tick_all :: "SimulationSettings \<Rightarrow> gpu_pkg \<Rightarrow> gpu_pkg" where
  "tick_all cfg g = fold (tick_gpu cfg) AllIDs g"

text \<open>One firing of the ticker channel.\<close>

definition on_tick :: "ticker \<Rightarrow> gpu_pkg \<Rightarrow> (panic, ticker \<times> gpu_pkg) result" where
  "on_tick tk g =
     (let cfg = Config_Get (Config g)
      in if SpeedMultiplier cfg \<noteq> speedMultiplier tk then
           (case tick_interval (SpeedMultiplier cfg) of
              Inl p \<Rightarrow> Inl p
            | Inr d \<Rightarrow> Inr (\<lparr>speedMultiplier = SpeedMultiplier cfg, interval = d\<rparr>, tick_all cfg g))
         else Inr (tk, tick_all cfg g))"

section \<open>The interval\<close>

lemma tick_interval_valid:
  assumes "1 \<le> sint m" and "sint m \<le> 100"
  shows "\<exists>d. tick_interval m = Inr d \<and> Base div 100 \<le> d \<and> d \<le> Base"
proof -
  have d: "Base sdiv sint m = Base div sint m"
    using assms by (simp add: Base_def signed_divide_int_def)
  have "Base div 100 \<le> Base div sint m" using assms by (intro zdiv_mono2) (auto simp: Base_def)
  moreover have "Base div sint m \<le> Base div 1" using assms by (intro zdiv_mono2) (auto simp: Base_def)
  moreover have "0 < Base div 100" by (simp add: Base_def)
  ultimately show ?thesis using assms by (auto simp: tick_interval_def Let_def d)
qed

lemma tick_interval_panics: "sint m \<le> 0 \<Longrightarrow> \<exists>p. tick_interval m = Inl p"
  by (auto simp: tick_interval_def Let_def Base_def signed_divide_int_def sgn_if mult_le_0_iff
      pos_imp_zdiv_nonneg_iff)

section \<open>The transitions of one GPU\<close>

inductive self_step :: "gpuState \<Rightarrow> gpuState \<Rightarrow> bool" where
  degrade: "f \<in> {FailureTypeThermal, FailureTypePower, FailureTypeECCSingle} \<Longrightarrow>
    self_step (mk_state StatusHealthy f0) (mk_state StatusWarning f)"
| worsen: "self_step (mk_state StatusWarning f) (mk_state StatusCritical f)"
| double_bit: "self_step (mk_state StatusWarning f) (mk_state StatusCritical FailureTypeECCDouble)"
| heal: "f \<noteq> FailureTypeECCSingle \<Longrightarrow>
    self_step (mk_state StatusWarning f) (mk_state StatusHealthy FailureTypeNone)"
| step_back: "f \<noteq> FailureTypeECCDouble \<Longrightarrow>
    self_step (mk_state StatusCritical f) (mk_state StatusWarning f)"

inductive_cases self_step_HealthyE: "self_step (mk_state StatusHealthy f) st"
inductive_cases self_step_WarningE: "self_step (mk_state StatusWarning f) st"
inductive_cases self_step_CriticalE: "self_step (mk_state StatusCritical f) st"

lemma self_step_intros':
  "status old = StatusHealthy \<Longrightarrow> f \<in> {FailureTypeThermal, FailureTypePower, FailureTypeECCSingle} \<Longrightarrow>
    self_step old (mk_state StatusWarning f)"
  "status old = StatusWarning \<Longrightarrow> self_step old (mk_state StatusCritical (failureType old))"
  "status old = StatusWarning \<Longrightarrow> self_step old (mk_state StatusCritical FailureTypeECCDouble)"
  "status old = StatusWarning \<Longrightarrow> failureType old \<noteq> FailureTypeECCSingle \<Longrightarrow>
    self_step old (mk_state StatusHealthy FailureTypeNone)"
  "status old = StatusCritical \<Longrightarrow> failureType old \<noteq> FailureTypeECCDouble \<Longrightarrow>
    self_step old (mk_state StatusWarning (failureType old))"
  using self_step.intros mk_state_surj [of old] by metis+

text \<open>One visit of the ticker refines at most one step of the GPU it visits.\<close>

lemma tick_gpu_writes:
  "writes gid (\<lambda>st. \<exists>old. gstate g gid = Some old \<and> self_step old st) g (tick_gpu cfg gid g)"
proof (cases "gstate g gid")
  case None
  then show ?thesis by (simp add: tick_gpu_def GetState_None writes_refl)
next
  case (Some old)
  obtain roll g1 where d: "Float64 g = (roll, g1)" by fastforce
  note fr = draw_frame(1) [OF d]
  have lift: "writes gid Q g g'" if "writes gid Q g1 g'" for Q g' using that fr by (simp add: writes_def)
  have skip: "writes gid Q g g1" for Q using fr by (simp add: writes_refl)
  have old: "gstate g1 gid = Some old" using Some fr by simp
  show ?thesis
  proof (cases "status old")
    case StatusHealthy
    then show ?thesis
      using skip lift [OF DegradeToWarning_writes]
      by (auto simp: tick_gpu_def GetState_Some [OF Some] d Some intro: self_step_intros' elim: writes_mono)
  next
    case StatusWarning
    then show ?thesis
      using skip lift [OF WorsenToCritical_writes] lift [OF RecoverToHealthy_writes]
      by (auto simp: tick_gpu_def GetState_Some [OF Some] d Some old intro: self_step_intros' elim!: writes_mono)
  next
    case StatusCritical
    then show ?thesis
      using skip lift [OF StepBackToWarning_writes]
      by (auto simp: tick_gpu_def GetState_Some [OF Some] d Some old intro: self_step_intros' elim!: writes_mono)
  next
    case (StatusOther x)
    then show ?thesis using skip by (simp add: tick_gpu_def GetState_Some [OF Some] d)
  qed
qed

lemma writes_other: "writes gid P g g' \<Longrightarrow> other \<noteq> gid \<Longrightarrow> gstate g' other = gstate g other"
  by (auto simp: writes_def)

lemma writes_at:
  "writes gid P g g' \<Longrightarrow> gstate g' gid = gstate g gid \<or> (\<exists>st. P st \<and> gstate g' gid = Some st)"
  by (auto simp: writes_def)

lemma fold_tick_other: "gid \<notin> set ids \<Longrightarrow> gstate (fold (tick_gpu cfg) ids g) gid = gstate g gid"
  by (induction ids arbitrary: g) (auto simp: writes_other [OF tick_gpu_writes])

lemma fold_tick_at:
  assumes "distinct ids"
  shows "gstate (fold (tick_gpu cfg) ids g) gid = gstate g gid \<or>
    (\<exists>old new. gstate g gid = Some old \<and> self_step old new \<and> gstate (fold (tick_gpu cfg) ids g) gid = Some new)"
  using assms
proof (induction ids arbitrary: g)
  case Nil
  then show ?case by simp
next
  case (Cons i ids)
  show ?case
  proof (cases "i = gid")
    case True
    with Cons.prems have "gid \<notin> set ids" by simp
    then show ?thesis
      using writes_at [OF tick_gpu_writes [of gid g cfg]] True by (auto simp: fold_tick_other)
  next
    case False
    then have "gstate (tick_gpu cfg i g) gid = gstate g gid" by (simp add: writes_other [OF tick_gpu_writes])
    with Cons.IH [of "tick_gpu cfg i g"] Cons.prems show ?thesis by simp
  qed
qed

end
