(* ===== verification/Fleet.thy ===== *)
theory Fleet
  imports Ticker
begin

text \<open>
  The invariant of the simulated fleet. The first part runs the operations one after the other,
  in any order; the second lets the goroutines of the ticker and of the request handlers
  interleave between the locked store accesses.
\<close>

section \<open>The invariant\<close>

text \<open>
  A healthy GPU carries no failure, and an uncorrectable memory error is only ever seen on a
  critical GPU.
\<close>

definition state_ok :: "gpuState \<Rightarrow> bool" where
  "state_ok st \<longleftrightarrow>
     status st \<in> {StatusHealthy, StatusWarning, StatusCritical} \<and>
     failureType st \<in> {FailureTypeNone, FailureTypeThermal, FailureTypePower, FailureTypeECCSingle, FailureTypeECCDouble} \<and>
     (status st = StatusHealthy \<longrightarrow> failureType st = FailureTypeNone) \<and>
     (failureType st = FailureTypeECCDouble \<longrightarrow> status st = StatusCritical)"

text \<open>The stronger reading of the documentation: a GPU that is not healthy has a failure.\<close>

definition explained :: "gpuState \<Rightarrow> bool" where
  "explained st \<longleftrightarrow> status st \<noteq> StatusHealthy \<longrightarrow> failureType st \<noteq> FailureTypeNone"

definition fleet_inv :: "gpu_pkg \<Rightarrow> bool" where
  "fleet_inv g \<longleftrightarrow> dom (gstate g) = set AllIDs \<and> (\<forall>gid st. gstate g gid = Some st \<longrightarrow> state_ok st)
     \<and> hub_ok (DefaultHub g)"

lemma fleet_inv_init [sim_inv]: "fleet_inv (gpu_init src)"
  by (auto simp: fleet_inv_def gpu_init_def AllIDs_def state_ok_def hub_ok_init dom_def split: if_splits)

lemma fleet_inv_writes:
  assumes "fleet_inv g" and "writes gid P g g'" and "\<And>st. P st \<Longrightarrow> state_ok st \<and> gid \<in> set AllIDs"
  shows "fleet_inv g'"
  using assms(2) unfolding writes_def
proof (elim conjE disjE exE)
  assume "gstate g' = gstate g" "DefaultHub g' = DefaultHub g"
  with assms(1) show ?thesis by (simp add: fleet_inv_def)
next
  fix st assume w: "P st" "gstate g' = (gstate g)(gid \<mapsto> st)" "DefaultHub g' = Publish gid (DefaultHub g)"
  with assms(1,3) show ?thesis by (auto simp: fleet_inv_def hub_ok_Publish insert_absorb)
qed

lemma fleet_inv_state_ok: "fleet_inv g \<Longrightarrow> gstate g gid = Some st \<Longrightarrow> state_ok st \<and> gid \<in> set AllIDs"
  by (auto simp: fleet_inv_def)

lemma fleet_inv_Some: "fleet_inv g \<Longrightarrow> gid \<in> set AllIDs \<Longrightarrow> \<exists>st. gstate g gid = Some st \<and> state_ok st"
  unfolding fleet_inv_def by (metis domD)

lemma self_step_ok: "self_step old new \<Longrightarrow> state_ok old \<Longrightarrow> state_ok new"
  by (induction rule: self_step.induct) (auto simp: state_ok_def)

lemma self_step_explained: "self_step old new \<Longrightarrow> explained old \<Longrightarrow> explained new"
  by (induction rule: self_step.induct) (auto simp: explained_def)

lemma fleet_inv_tick_gpu [sim_inv]: "fleet_inv g \<Longrightarrow> fleet_inv (tick_gpu cfg gid g)"
  by (rule fleet_inv_writes [OF _ tick_gpu_writes]) (auto dest: fleet_inv_state_ok self_step_ok)

lemma fleet_inv_tick_all [sim_inv]: "fleet_inv g \<Longrightarrow> fleet_inv (tick_all cfg g)"
proof -
  have "fleet_inv g \<Longrightarrow> fleet_inv (fold (tick_gpu cfg) ids g)" for ids
    by (induction ids arbitrary: g) (auto intro: fleet_inv_tick_gpu)
  then show "fleet_inv g \<Longrightarrow> fleet_inv (tick_all cfg g)" by (simp add: tick_all_def)
qed

lemma fleet_inv_Recover [sim_inv]: "fleet_inv g \<Longrightarrow> fleet_inv (snd (Recover gid g))"
  by (rule fleet_inv_writes [OF _ Recover_writes]) (auto dest!: fleet_inv_state_ok simp: state_ok_def)

lemma fleet_inv_Replace [sim_inv]: "fleet_inv g \<Longrightarrow> fleet_inv (snd (Replace gid g))"
  by (rule fleet_inv_writes [OF _ Replace_writes]) (auto dest!: fleet_inv_state_ok simp: state_ok_def)

section \<open>Runs of the simulator\<close>

text \<open>
  What can happen to the package state: a tick, an operator's recover or replace request for
  any identifier, new settings, a reset of the settings, a stream that subscribes or ends.
\<close>

inductive sim_step :: "gpu_pkg \<Rightarrow> gpu_pkg \<Rightarrow> bool" where
  sim_tick: "sim_step g (tick_all (Config_Get (Config g)) g)"
| sim_recover: "sim_step g (snd (Recover gid g))"
| sim_replace: "sim_step g (snd (Replace gid g))"
| sim_settings: "sim_step g (g\<lparr>Config := snd (Config_Set cfg (Config g))\<rparr>)"
| sim_reset: "sim_step g (g\<lparr>Config := snd (Config_Reset (Config g))\<rparr>)"
| sim_subscribe: "sim_step g (g\<lparr>DefaultHub := snd (Subscribe (DefaultHub g))\<rparr>)"
| sim_unsubscribe: "ch \<in> subs (DefaultHub g) \<Longrightarrow> sim_step g (g\<lparr>DefaultHub := Unsubscribe ch (DefaultHub g)\<rparr>)"

inductive sim_reachable :: "gpu_pkg \<Rightarrow> bool" where
  sim_start: "sim_reachable (gpu_init src)"
| sim_next: "sim_reachable g \<Longrightarrow> sim_step g g' \<Longrightarrow> sim_reachable g'"

lemma fleet_inv_Config [simp]: "fleet_inv (g\<lparr>Config := c\<rparr>) = fleet_inv g"
  by (simp add: fleet_inv_def)

lemma fleet_inv_hub: "fleet_inv g \<Longrightarrow> hub_ok h \<Longrightarrow> fleet_inv (g\<lparr>DefaultHub := h\<rparr>)"
  by (simp add: fleet_inv_def)

lemma fleet_inv_hub_ok: "fleet_inv g \<Longrightarrow> hub_ok (DefaultHub g)"
  by (simp add: fleet_inv_def)

lemma fleet_inv_step: "sim_step g g' \<Longrightarrow> fleet_inv g \<Longrightarrow> fleet_inv g'"
  by (induction rule: sim_step.induct)
     (auto intro: sim_inv fleet_inv_hub simp: hub_ok_Subscribe hub_ok_Unsubscribe fleet_inv_hub_ok)

lemma sim_reachable_inv: "sim_reachable g \<Longrightarrow> fleet_inv g"
  by (induction rule: sim_reachable.induct) (auto intro: fleet_inv_init fleet_inv_step)

section \<open>Interleaved goroutines\<close>

text \<open>
  Each transition reads the store, releases the lock, and later writes. A goroutine between the
  two is a pending write; other goroutines may write the same GPU meanwhile. \<open>decides old new\<close>
  is what a goroutine may decide to write after reading \<open>old\<close>, over all transitions, whatever
  made it run (the ticker's own guard may be stale by then too).
\<close>

inductive decides :: "gpuState \<Rightarrow> gpuState \<Rightarrow> bool" where
  d_degrade: "f \<in> {FailureTypeThermal, FailureTypePower, FailureTypeECCSingle} \<Longrightarrow> decides old (mk_state StatusWarning f)"
| d_worsen: "decides old (mk_state StatusCritical (failureType old))"
| d_double: "decides old (mk_state StatusCritical FailureTypeECCDouble)"
| d_heal: "decides old (mk_state StatusHealthy FailureTypeNone)"
| d_back: "failureType old \<noteq> FailureTypeECCDouble \<Longrightarrow> decides old (mk_state StatusWarning (failureType old))"

record racing =
  pkg :: gpu_pkg
  pending :: "(string \<times> gpuState) list"

inductive race_step :: "racing \<Rightarrow> racing \<Rightarrow> bool" where
  race_read: "gstate (pkg s) gid = Some old \<Longrightarrow> decides old new \<Longrightarrow>
    race_step s (s\<lparr>pending := (gid, new) # pending s\<rparr>)"
| race_write: "(gid, st) \<in> set (pending s) \<Longrightarrow>
    race_step s \<lparr>pkg = publish gid (set_state gid (status st) (failureType st) (pkg s)),
      pending = remove1 (gid, st) (pending s)\<rparr>"

inductive race_reachable :: "racing \<Rightarrow> bool" where
  race_start: "race_reachable \<lparr>pkg = gpu_init src, pending = []\<rparr>"
| race_next: "race_reachable s \<Longrightarrow> race_step s s' \<Longrightarrow> race_reachable s'"

lemma self_step_decides: "self_step old new \<Longrightarrow> decides old new"
  by (induction rule: self_step.induct) (auto intro: decides.intros decides.d_worsen [of "mk_state _ _", simplified]
      decides.d_back [of "mk_state _ _", simplified])

lemma decides_ok: "decides old new \<Longrightarrow> state_ok old \<Longrightarrow> state_ok new"
  by (induction rule: decides.induct) (auto simp: state_ok_def)

lemma race_inv:
  "race_reachable s \<Longrightarrow>
     fleet_inv (pkg s) \<and> (\<forall>(gid, st) \<in> set (pending s). state_ok st \<and> gid \<in> set AllIDs)"
proof (induction rule: race_reachable.induct)
  case (race_start src)
  then show ?case by (simp add: fleet_inv_init)
next
  case (race_next s s')
  from race_next.hyps(2) race_next.IH show ?case
  proof (induction rule: race_step.induct)
    case (race_read s gid old new)
    then show ?case using decides_ok [of old new] fleet_inv_state_ok [of "pkg s" gid old] by auto
  next
    case (race_write gid st s)
    then have ok: "state_ok st" "gid \<in> set AllIDs" by auto
    have "writes gid (\<lambda>st'. st' = st) (pkg s) (publish gid (set_state gid (status st) (failureType st) (pkg s)))"
      by (rule writes_publish) (simp_all add: mk_state_surj)
    then have "fleet_inv (publish gid (set_state gid (status st) (failureType st) (pkg s)))"
      by (rule fleet_inv_writes [rotated]) (use race_write ok in auto)
    with race_write show ?case by (auto dest: notin_set_remove1)
  qed
qed

end
