(* ===== verification/Health.thy ===== *)
theory Health
  imports Fleet
begin

text \<open>
  The health snapshot of one GPU (\<^verbatim>\<open>GetHealth\<close> in \<^verbatim>\<open>internal/gpu/simulator.go\<close>): parsing the
  identifier, placing the GPU on its node, and drawing readings that fit its failure type.
  Arithmetic is rounded as in Go; the order of the random draws is the source's.
\<close>

section \<open>The snapshot\<close>

definition model_of :: "16 word \<Rightarrow> string" where
  "model_of n =
     (if n < 2001 then ModelH100 else if n < 5001 then ModelA100
      else if n < 7001 then ModelV100 else if n < 10001 then ModelA30 else [])"

text \<open>\<^verbatim>\<open>rand.Float64() * w\<close> and \<^verbatim>\<open>(rand.Float64() * w) + c\<close>.\<close>

definition rand_scale :: "rat \<Rightarrow> gpu_pkg \<Rightarrow> rat \<times> gpu_pkg" where
  "rand_scale w g = (let (r, g) = Float64 g in (fl64 (r * w), g))"

definition rand_affine :: "rat \<Rightarrow> rat \<Rightarrow> gpu_pkg \<Rightarrow> rat \<times> gpu_pkg" where
  "rand_affine w c g = (let (r, g) = Float64 g in (fl64 (fl64 (r * w) + c), g))"

definition temperature_reading ::
  "GPUSpec \<Rightarrow> HealthStatus \<Rightarrow> FailureType \<Rightarrow> gpu_pkg \<Rightarrow> Temperature \<times> gpu_pkg" where
  "temperature_reading spec st failure g =
     (let tempStatus = (if failure = FailureTypeThermal then st else StatusHealthy);
          tMin = RMin (temperature spec tempStatus);
          tMax = RMax (temperature spec tempStatus);
          (r, g) = Float64 g;
          core = fl64 (tMin + fl64 (r * fl64 (tMax - tMin)));
          (r, g) = Float64 g;
          mem = fl64 (core - fl64 (10 + fl64 (r * 5)))
      in (\<lparr>GPUCoreCelsius = core, MemoryCelsius = mem,
           GPUCoreWarningThreshold = RMin (temperature spec StatusWarning),
           GPUCoreCriticalThreshold = RMin (temperature spec StatusCritical),
           MemoryWarningThreshold = 85, MemoryCriticalThreshold = 95,
           Throttling = (failure = FailureTypeThermal)\<rparr>, g))"

definition power_reading ::
  "GPUSpec \<Rightarrow> HealthStatus \<Rightarrow> FailureType \<Rightarrow> gpu_pkg \<Rightarrow> Power \<times> gpu_pkg" where
  "power_reading spec st failure g =
     (let powerStatus = (if failure = FailureTypePower then st else StatusHealthy);
          pMin = RMin (power spec powerStatus);
          pMax = RMax (power spec powerStatus);
          (r, g) = Float64 g;
          draw = fl64 (pMin + fl64 (r * fl64 (pMax - pMin)));
          limit = maxPowerWatts spec
      in (\<lparr>DrawWatts = draw, LimitWatts = limit,
           PowUtilization = fl64 (fl64 (draw / limit) * 100),
           PowerCapped = (failure = FailureTypePower)\<rparr>, g))"

text \<open>GPU utilization, memory utilization, single-bit and double-bit error counts.\<close>

definition load_reading ::
  "HealthStatus \<Rightarrow> FailureType \<Rightarrow> gpu_pkg \<Rightarrow> (rat \<times> rat \<times> 8 word \<times> 8 word) \<times> gpu_pkg" where
  "load_reading st failure g =
     (case failure of
        FailureTypeThermal \<Rightarrow>
          (let (u, g) = (if st = StatusCritical then rand_scale 20 g else rand_affine 30 50 g);
               (m, g) = rand_affine 20 40 g
           in ((u, m, 0, 0), g))
      | FailureTypePower \<Rightarrow>
          (let (u, g) = (if st = StatusCritical then rand_scale 30 g else rand_affine 10 80 g);
               (m, g) = rand_affine 20 50 g
           in ((u, m, 0, 0), g))
      | FailureTypeECCSingle \<Rightarrow>
          (let (u, g) = rand_affine 10 80 g;
               (m, g) = rand_affine 20 60 g;
               (k, g) = IntN 10 g
           in ((u, m, of_nat (k + 1), 0), g))
      | FailureTypeECCDouble \<Rightarrow>
          (let (u, g) = rand_scale 30 g;
               (m, g) = rand_affine 10 90 g;
               (k, g) = IntN 20 g;
               (l, g) = IntN 3 g
           in ((u, m, of_nat k, of_nat (l + 1)), g))
      | _ \<Rightarrow>
          (let (u, g) = rand_affine 50 40 g;
               (m, g) = rand_affine 50 20 g
           in ((u, m, 0, 0), g)))"

text \<open>\<^verbatim>\<open>uint64(x)\<close> for a float that is not negative and in range.\<close>

definition u64_of_float :: "rat \<Rightarrow> 64 word" where
  "u64_of_float x = word_of_int \<lfloor>x\<rfloor>"

definition used_bytes :: "64 word \<Rightarrow> rat \<Rightarrow> 64 word" where
  "used_bytes bytes utilization =
     u64_of_float (fl64 (fl64 (fl64 (of_nat (unat bytes)) * utilization) * fl64 (1 / 100)))"

definition memory_of :: "GPUSpec \<Rightarrow> rat \<Rightarrow> 8 word \<Rightarrow> 8 word \<Rightarrow> Memory" where
  "memory_of spec utilization single double =
     (let used = used_bytes (memoryBytes spec) utilization
      in \<lparr>TotalBytes = memoryBytes spec, UsedBytes = used, FreeBytes = memoryBytes spec - used,
          MemUtilization = utilization, ECCSingleBitErrors = single, ECCDoubleBitErrors = double\<rparr>)"

definition GetHealth :: "time \<Rightarrow> string \<Rightarrow> gpu_pkg \<Rightarrow> (sim_error, GPUHealth) result \<times> gpu_pkg" where
  "GetHealth now gpuID g =
     (case sscanf_u16 ''GPU-'' gpuID of
        None \<Rightarrow> (Inl ErrScan, g)
      | Some n \<Rightarrow>
          if n > TotalGpus \<or> n < 1 then (Inl ErrRange, g)
          else
            let nodeID = (n - 1) div GpusPerNode + 1;
                slot = (n - 1) mod GpusPerNode;
                model = model_of n
            in case GetState (DefaultStore g) gpuID of (st, failure, ok) \<Rightarrow>
                 if \<not> ok then (Inl (ErrNotInStore gpuID), g)
                 else case SpecForModel model of
                        Inl e \<Rightarrow> (Inl (ErrSpec e), g)
                      | Inr spec \<Rightarrow>
                          let (temp, g) = temperature_reading spec st failure g;
                              (pow, g) = power_reading spec st failure g;
                              ((gpuUtilization, memoryUtilization, single, double), g) = load_reading st failure g
                          in (Inr \<lparr>GPUID = gpuID, NodeID = ''NODE-'' @ pad_dec 4 (unat nodeID), Slot = slot,
                                Model = model, Health = st, Failure = failure, Timestamp = now,
                                Utilization = gpuUtilization, Temp = temp,
                                Mem = memory_of spec memoryUtilization single double, Pow = pow\<rparr>, g))"

section \<open>Draws\<close>

lemma rand_scale_range:
  assumes "rand_scale (of_int w) g = (x, g')" and "0 \<le> w" and "w < 2 ^ 53"
  shows "0 \<le> x \<and> x \<le> of_int w"
proof -
  obtain r g1 where d: "Float64 g = (r, g1)" by fastforce
  have "x = fl64 (r * of_int w)" using assms(1) by (simp add: rand_scale_def d)
  then show ?thesis using f64.rnd_scale [of r w] Float64_range [OF d] assms(2,3) by simp
qed

lemma rand_affine_range:
  assumes "rand_affine (of_int w) (of_int c) g = (x, g')" and "0 \<le> w" and "0 \<le> c" and "w + c < 2 ^ 53"
  shows "of_int c \<le> x \<and> x \<le> of_int (w + c)"
proof -
  obtain r g1 where d: "Float64 g = (r, g1)" by fastforce
  have "x = fl64 (fl64 (r * of_int w) + of_int c)" using assms(1) by (simp add: rand_affine_def d)
  then show ?thesis using f64.rnd_affine [of r w c] Float64_range [OF d] assms(2-4) by simp
qed

lemma rand_frame [frame]:
  "rand_scale w g = (x, g') \<Longrightarrow> DefaultStore g' = DefaultStore g \<and> DefaultHub g' = DefaultHub g \<and> Config g' = Config g"
  "rand_affine w c g = (x, g') \<Longrightarrow> DefaultStore g' = DefaultStore g \<and> DefaultHub g' = DefaultHub g \<and> Config g' = Config g"
  by (auto simp: rand_scale_def rand_affine_def split: prod.splits dest: draw_frame)

section \<open>The readings\<close>

lemma lerp_range:
  assumes "Float64 g = (r, g')" and "0 \<le> lo" and "lo \<le> hi" and "hi < 2 ^ 53"
  shows "of_int lo \<le> fl64 (of_int lo + fl64 (r * fl64 (of_int hi - of_int lo)))
    \<and> fl64 (of_int lo + fl64 (r * fl64 (of_int hi - of_int lo))) \<le> of_int hi"
  using f64.rnd_lerp [of r lo hi] Float64_range [OF assms(1)] assms(2-4) by simp

text \<open>A range of a specification with whole, ordered end points.\<close>

definition int_range :: "range64 \<Rightarrow> bool" where
  "int_range R \<longleftrightarrow> (\<exists>lo hi. RMin R = of_int lo \<and> RMax R = of_int hi \<and> 0 \<le> lo \<and> lo \<le> hi \<and> hi \<le> 1000)"

lemma int_range_mk [simp]: "0 \<le> a \<Longrightarrow> a \<le> b \<Longrightarrow> b \<le> 1000 \<Longrightarrow> int_range (mk_range (of_int a) (of_int b))"
  by (auto simp: int_range_def)

lemma int_range_numerals [simp]:
  "int_range (mk_range 0 0)"
  "numeral a \<le> (numeral b :: int) \<Longrightarrow> numeral b \<le> (1000 :: int) \<Longrightarrow> int_range (mk_range (numeral a) (numeral b))"
  using int_range_mk [of 0 0] int_range_mk [of "numeral a" "numeral b"] by simp_all

lemma spec_int_range:
  assumes "SpecForModel m = Inr spec"
  shows "int_range (temperature spec st) \<and> int_range (power spec st)"
  using assms by (elim SpecForModel_cases; cases st) (simp_all add: spec_defs status_map_def)

lemma lerp_in_range:
  assumes "int_range R" and "Float64 g = (r, g')"
  shows "RMin R \<le> fl64 (RMin R + fl64 (r * fl64 (RMax R - RMin R)))
    \<and> fl64 (RMin R + fl64 (r * fl64 (RMax R - RMin R))) \<le> RMax R"
  using assms lerp_range [OF assms(2)] by (fastforce simp: int_range_def)

definition reading_status :: "FailureType \<Rightarrow> FailureType \<Rightarrow> HealthStatus \<Rightarrow> HealthStatus" where
  "reading_status kind failure st = (if failure = kind then st else StatusHealthy)"

lemma temperature_reading_ok:
  assumes spec: "SpecForModel m = Inr spec" and rd: "temperature_reading spec st failure g = (t, g')"
  defines "R \<equiv> defaultTempRanges (reading_status FailureTypeThermal failure st)"
  shows "RMin R \<le> GPUCoreCelsius t \<and> GPUCoreCelsius t \<le> RMax R"
    and "Throttling t \<longleftrightarrow> failure = FailureTypeThermal"
    and "GPUCoreWarningThreshold t = 75 \<and> GPUCoreCriticalThreshold t = 84"
    and "MemoryWarningThreshold t = 85 \<and> MemoryCriticalThreshold t = 95"
    and "RMin R - 15 \<le> MemoryCelsius t \<and> MemoryCelsius t \<le> RMax R - 10"
proof -
  obtain r1 g1 r2 g2 where d: "Float64 g = (r1, g1)" "Float64 g1 = (r2, g2)" by fastforce
  have T: "temperature spec = defaultTempRanges" using spec by (rule spec_temperature)
  have R: "int_range R" using spec_int_range [OF spec] by (simp add: R_def T)
  show core: "RMin R \<le> GPUCoreCelsius t \<and> GPUCoreCelsius t \<le> RMax R"
    using rd lerp_in_range [OF R d(1)] by (auto simp: temperature_reading_def d T R_def reading_status_def Let_def)
  show "Throttling t \<longleftrightarrow> failure = FailureTypeThermal"
    "GPUCoreWarningThreshold t = 75 \<and> GPUCoreCriticalThreshold t = 84"
    "MemoryWarningThreshold t = 85 \<and> MemoryCriticalThreshold t = 95"
    using rd by (auto simp: temperature_reading_def d T Let_def)
  define off where "off = fl64 (10 + fl64 (r2 * 5))"
  have mem: "MemoryCelsius t = fl64 (GPUCoreCelsius t - off)"
    using rd by (auto simp: temperature_reading_def d T Let_def off_def)
  have off: "10 \<le> off \<and> off \<le> 15"
    using f64.rnd_affine [of r2 5 10] Float64_range [OF d(2)] by (simp add: off_def add.commute)
  obtain lo hi where i: "RMin R = of_int lo" "RMax R = of_int hi" "0 \<le> lo" "lo \<le> hi" "hi \<le> 1000"
    using R by (auto simp: int_range_def)
  have "of_int (lo - 15) \<le> GPUCoreCelsius t - off" "GPUCoreCelsius t - off \<le> of_int (hi - 10)"
    using core off i by simp_all
  then show "RMin R - 15 \<le> MemoryCelsius t \<and> MemoryCelsius t \<le> RMax R - 10"
    using f64.rnd_between [of "lo - 15" "GPUCoreCelsius t - off" "hi - 10"] i mem by simp
qed

lemma power_reading_ok:
  assumes spec: "SpecForModel m = Inr spec" and rd: "power_reading spec st failure g = (p, g')"
  defines "R \<equiv> power spec (reading_status FailureTypePower failure st)"
  shows "RMin R \<le> DrawWatts p \<and> DrawWatts p \<le> RMax R"
    and "PowerCapped p \<longleftrightarrow> failure = FailureTypePower"
    and "LimitWatts p = maxPowerWatts spec"
proof -
  obtain r g1 where d: "Float64 g = (r, g1)" by fastforce
  have R: "int_range R" using spec_int_range [OF spec] by (simp add: R_def)
  show "RMin R \<le> DrawWatts p \<and> DrawWatts p \<le> RMax R"
    using rd lerp_in_range [OF R d] by (auto simp: power_reading_def d R_def reading_status_def Let_def)
  show "PowerCapped p \<longleftrightarrow> failure = FailureTypePower" "LimitWatts p = maxPowerWatts spec"
    using rd by (auto simp: power_reading_def d Let_def)
qed

text \<open>The error counters a failure type shows.\<close>

definition ecc_ok :: "FailureType \<Rightarrow> 8 word \<Rightarrow> 8 word \<Rightarrow> bool" where
  "ecc_ok failure single double =
     (case failure of
        FailureTypeECCSingle \<Rightarrow> 1 \<le> unat single \<and> unat single \<le> 10 \<and> double = 0
      | FailureTypeECCDouble \<Rightarrow> unat single \<le> 19 \<and> 1 \<le> unat double \<and> unat double \<le> 3
      | _ \<Rightarrow> single = 0 \<and> double = 0)"

lemma rand_ranges:
  "rand_scale 20 g = (x, g') \<Longrightarrow> 0 \<le> x \<and> x \<le> 20"
  "rand_scale 30 g = (x, g') \<Longrightarrow> 0 \<le> x \<and> x \<le> 30"
  "rand_affine 30 50 g = (x, g') \<Longrightarrow> 50 \<le> x \<and> x \<le> 80"
  "rand_affine 20 40 g = (x, g') \<Longrightarrow> 40 \<le> x \<and> x \<le> 60"
  "rand_affine 10 80 g = (x, g') \<Longrightarrow> 80 \<le> x \<and> x \<le> 90"
  "rand_affine 20 50 g = (x, g') \<Longrightarrow> 50 \<le> x \<and> x \<le> 70"
  "rand_affine 20 60 g = (x, g') \<Longrightarrow> 60 \<le> x \<and> x \<le> 80"
  "rand_affine 10 90 g = (x, g') \<Longrightarrow> 90 \<le> x \<and> x \<le> 100"
  "rand_affine 50 40 g = (x, g') \<Longrightarrow> 40 \<le> x \<and> x \<le> 90"
  "rand_affine 50 20 g = (x, g') \<Longrightarrow> 20 \<le> x \<and> x \<le> 70"
  using rand_scale_range [of 20 g x g'] rand_scale_range [of 30 g x g'] rand_affine_range [of 30 50 g x g']
    rand_affine_range [of 20 40 g x g'] rand_affine_range [of 10 80 g x g'] rand_affine_range [of 20 50 g x g']
    rand_affine_range [of 20 60 g x g'] rand_affine_range [of 10 90 g x g'] rand_affine_range [of 50 40 g x g']
    rand_affine_range [of 50 20 g x g'] by simp_all

lemma unat_u8: "n < 256 \<Longrightarrow> unat (of_nat n :: 8 word) = n"
  by (simp add: unat_of_nat take_bit_eq_mod)

lemma load_reading_ok:
  assumes "load_reading st failure g = ((u, m, single, double), g')"
  shows "0 \<le> u \<and> u \<le> 100" and "0 \<le> m \<and> m \<le> 100" and "ecc_ok failure single double"
    and "failure \<notin> {FailureTypeThermal, FailureTypePower, FailureTypeECCDouble} \<Longrightarrow> 40 \<le> u"
    and "st \<noteq> StatusCritical \<Longrightarrow> failure \<noteq> FailureTypeECCDouble \<Longrightarrow> 40 \<le> u"
proof -
  have "0 \<le> u \<and> u \<le> 100 \<and> 0 \<le> m \<and> m \<le> 100 \<and> ecc_ok failure single double \<and>
    (failure \<notin> {FailureTypeThermal, FailureTypePower, FailureTypeECCDouble} \<longrightarrow> 40 \<le> u) \<and>
    (st \<noteq> StatusCritical \<longrightarrow> failure \<noteq> FailureTypeECCDouble \<longrightarrow> 40 \<le> u)"
    using assms
    by (cases failure)
       (fastforce simp: load_reading_def ecc_ok_def Let_def IntN_def unat_u8 unat_word_ariths
          split: prod.splits if_splits dest: rand_ranges)+
  then show "0 \<le> u \<and> u \<le> 100" "0 \<le> m \<and> m \<le> 100" "ecc_ok failure single double"
    "failure \<notin> {FailureTypeThermal, FailureTypePower, FailureTypeECCDouble} \<Longrightarrow> 40 \<le> u"
    "st \<noteq> StatusCritical \<Longrightarrow> failure \<noteq> FailureTypeECCDouble \<Longrightarrow> 40 \<le> u" by blast+
qed

section \<open>Memory accounting\<close>

text \<open>
  The percentage is multiplied by the double nearest to one hundredth, which is a little more
  than one hundredth; for the sizes of the fleet the rounding brings a full memory back to
  exactly its size, so the subtraction never wraps around.
\<close>

lemma full_memory_exact:
  "B \<in> {80 * 2 ^ 30, 32 * 2 ^ 30, 24 * 2 ^ 30} \<Longrightarrow> fl64 (of_int (B * 100) * fl64 (1 / 100)) = of_int B"
proof (elim insertE emptyE)
  show "B = 80 * 2 ^ 30 \<Longrightarrow> ?thesis" by (simp only:) code_simp
  show "B = 32 * 2 ^ 30 \<Longrightarrow> ?thesis" by (simp only:) code_simp
  show "B = 24 * 2 ^ 30 \<Longrightarrow> ?thesis" by (simp only:) code_simp
qed

lemma spec_memoryBytes:
  assumes "SpecForModel m = Inr spec"
  shows "int (unat (memoryBytes spec)) \<in> {80 * 2 ^ 30, 32 * 2 ^ 30, 24 * 2 ^ 30}"
  using assms by (elim SpecForModel_cases) (simp_all add: spec_defs GB_def)

lemma used_bytes_bound:
  assumes B: "int (unat bytes) \<in> {80 * 2 ^ 30, 32 * 2 ^ 30, 24 * 2 ^ 30}" and u: "0 \<le> u" "u \<le> 100"
  shows "unat (used_bytes bytes u) \<le> unat bytes"
proof -
  define b where "b = int (unat bytes)"
  have b: "0 \<le> b" "b * 100 < 2 ^ 53" and bB: "(of_nat (unat bytes) :: rat) = of_int b"
    using B by (auto simp: b_def)
  have e: "fl64 (of_int b) = of_int b" "fl64 (of_int (b * 100)) = of_int (b * 100)"
    using b fl64_of_int [of b] fl64_of_int [of "b * 100"] by auto
  define x where "x = fl64 (fl64 (of_int b * u) * fl64 (1 / 100))"
  have "fl64 (of_int b * u) \<le> fl64 (of_int (b * 100))" using b u by (intro fl64_mono) (simp add: mult_left_mono)
  then have "fl64 (of_int b * u) * fl64 (1 / 100) \<le> of_int (b * 100) * fl64 (1 / 100)"
    unfolding e by (rule mult_right_mono) (simp add: fl64_nonneg)
  then have "x \<le> of_int b" unfolding x_def
    using fl64_mono full_memory_exact [of b] B by (fastforce simp: b_def)
  moreover have "0 \<le> x" unfolding x_def using b u by (intro fl64_nonneg mult_nonneg_nonneg) auto
  ultimately have "0 \<le> \<lfloor>x\<rfloor>" "\<lfloor>x\<rfloor> \<le> b" by (auto simp: floor_le_iff)
  then have "uint (word_of_int \<lfloor>x\<rfloor> :: 64 word) \<le> b"
    using take_bit_int_less_eq_self_iff [of 64 "\<lfloor>x\<rfloor>"] by (simp add: uint_word_of_int_eq)
  moreover have "used_bytes bytes u = word_of_int \<lfloor>x\<rfloor>"
    by (simp only: used_bytes_def u64_of_float_def bB e(1) x_def)
  ultimately have "int (unat (used_bytes bytes u)) \<le> int (unat bytes)" by (simp only: uint_nat b_def)
  then show ?thesis by (simp only: of_nat_le_iff)
qed

lemma memory_of_ok:
  assumes "SpecForModel m = Inr spec" and "0 \<le> u" and "u \<le> 100"
  shows "unat (UsedBytes (memory_of spec u a b)) + unat (FreeBytes (memory_of spec u a b))
    = unat (TotalBytes (memory_of spec u a b))"
  using used_bytes_bound [OF spec_memoryBytes [OF assms(1)] assms(2,3)]
  by (simp add: memory_of_def Let_def unat_sub word_le_nat_alt)

section \<open>The whole snapshot\<close>

lemma unat_gpu_no: "n \<le> 10000 \<Longrightarrow> unat (of_nat n :: 16 word) = n"
  by (simp add: unat_of_nat take_bit_eq_mod)

lemma model_of_known: "\<exists>spec. n \<le> 10000 \<longrightarrow> SpecForModel (model_of n) = Inr spec"
  unfolding model_of_def using SpecForModel_known
  by (auto simp: word_less_nat_alt word_le_nat_alt)

lemma node_and_slot:
  assumes "1 \<le> n" and "n \<le> 10000"
  shows "unat ((of_nat n - 1) div GpusPerNode + 1 :: 16 word) = (n - 1) div 4 + 1"
    and "unat ((of_nat n - 1) mod GpusPerNode :: 16 word) = (n - 1) mod 4"
proof -
  have n: "(of_nat n - 1 :: 16 word) = of_nat (n - 1)" using assms(1) by (simp add: of_nat_diff)
  have u: "unat (of_nat (n - Suc 0) :: 16 word) = n - Suc 0" using assms(2) by (intro unat_gpu_no) simp
  have d: "unat ((of_nat n - 1) div GpusPerNode :: 16 word) = (n - 1) div 4"
    by (simp add: n u GpusPerNode_def unat_div)
  have "(n - 1) div 4 + 1 < 2 ^ 16" using assms(2) by simp
  then show "unat ((of_nat n - 1) div GpusPerNode + 1 :: 16 word) = (n - 1) div 4 + 1"
    using d by (simp add: unat_word_ariths)
  show "unat ((of_nat n - 1) mod GpusPerNode :: 16 word) = (n - 1) mod 4"
    by (simp add: n u GpusPerNode_def unat_mod)
qed

text \<open>What a snapshot says of the GPU it was taken of.\<close>

definition snapshot_ok :: "nat \<Rightarrow> gpuState \<Rightarrow> GPUHealth \<Rightarrow> bool" where
  "snapshot_ok n st h \<longleftrightarrow>
     GPUID h = gpu_id n \<and> NodeID h = ''NODE-'' @ pad_dec 4 ((n - 1) div 4 + 1) \<and> unat (Slot h) = (n - 1) mod 4 \<and>
     Model h = model_of (of_nat n) \<and> Health h = status st \<and> Failure h = failureType st \<and>
     (Throttling (Temp h) \<longleftrightarrow> failureType st = FailureTypeThermal) \<and>
     (PowerCapped (Pow h) \<longleftrightarrow> failureType st = FailureTypePower) \<and>
     ecc_ok (failureType st) (ECCSingleBitErrors (Mem h)) (ECCDoubleBitErrors (Mem h)) \<and>
     (let R = defaultTempRanges (reading_status FailureTypeThermal (failureType st) (status st))
      in RMin R \<le> GPUCoreCelsius (Temp h) \<and> GPUCoreCelsius (Temp h) \<le> RMax R \<and> MemoryCelsius (Temp h) \<le> RMax R - 10) \<and>
     GPUCoreWarningThreshold (Temp h) = 75 \<and> GPUCoreCriticalThreshold (Temp h) = 84 \<and>
     MemoryWarningThreshold (Temp h) = 85 \<and> MemoryCriticalThreshold (Temp h) = 95 \<and>
     DrawWatts (Pow h) \<le> LimitWatts (Pow h) \<and>
     0 \<le> Utilization h \<and> Utilization h \<le> 100 \<and>
     (status st \<noteq> StatusCritical \<and> failureType st \<noteq> FailureTypeECCDouble \<longrightarrow> 40 \<le> Utilization h) \<and>
     unat (UsedBytes (Mem h)) + unat (FreeBytes (Mem h)) = unat (TotalBytes (Mem h))"

lemma spec_power_below_limit:
  "SpecForModel m = Inr spec \<Longrightarrow> st \<in> {StatusHealthy, StatusWarning, StatusCritical} \<Longrightarrow>
    RMax (power spec st) \<le> maxPowerWatts spec"
  using spec_contiguous by (fastforce simp: contiguous_def)

lemma reading_frame [frame]:
  "temperature_reading spec st f g = (t, g') \<Longrightarrow> DefaultStore g' = DefaultStore g"
  "power_reading spec st f g = (p, g') \<Longrightarrow> DefaultStore g' = DefaultStore g"
  "load_reading st f g = (l, g') \<Longrightarrow> DefaultStore g' = DefaultStore g"
  by (auto simp: temperature_reading_def power_reading_def load_reading_def Let_def
      split: prod.splits FailureType.splits if_splits dest!: rand_frame draw_frame)

lemma GetHealth_snapshot:
  assumes n: "1 \<le> n" "n \<le> 10000" and st: "gstate g (gpu_id n) = Some st" "state_ok st"
  shows "\<exists>h g'. GetHealth now (gpu_id n) g = (Inr h, g') \<and> snapshot_ok n st h \<and> Timestamp h = now \<and>
    DefaultStore g' = DefaultStore g"
proof -
  have scan: "sscanf_u16 ''GPU-'' (gpu_id n) = Some (of_nat n)"
    using n by (simp add: gpu_id_def sscanf_pad_dec del: append.simps)
  have range: "\<not> (of_nat n > TotalGpus \<or> of_nat n < (1 :: 16 word))"
    using n by (auto simp: word_less_nat_alt unat_gpu_no)
  obtain spec where spec: "SpecForModel (model_of (of_nat n)) = Inr spec"
    using model_of_known [of "of_nat n"] n by (auto simp: word_le_nat_alt unat_gpu_no)
  obtain t g1 p g2 u m a b g3 where r: "temperature_reading spec (status st) (failureType st) g = (t, g1)"
    "power_reading spec (status st) (failureType st) g1 = (p, g2)"
    "load_reading (status st) (failureType st) g2 = ((u, m, a, b), g3)" by (metis prod.exhaust)
  have s: "DefaultStore g3 = DefaultStore g" using reading_frame r by metis
  have lim: "DrawWatts p \<le> LimitWatts p"
    using power_reading_ok [OF spec r(2)] spec_power_below_limit [OF spec, of "reading_status FailureTypePower (failureType st) (status st)"] st(2)
    by (auto simp: state_ok_def reading_status_def)
  show ?thesis
    using scan range spec r s lim node_and_slot [OF n] temperature_reading_ok [OF spec r(1)]
      power_reading_ok [OF spec r(2)] load_reading_ok [OF r(3)] memory_of_ok [OF spec] 
    by (simp add: GetHealth_def GetState_Some [OF st(1)] snapshot_ok_def Let_def) (simp add: memory_of_def Let_def)
qed

lemma GetHealth_unknown:
  assumes "gstate g gid = None"
  shows "\<exists>e. GetHealth now gid g = (Inl e, g)"
  using GetState_None [OF assms] by (auto simp: GetHealth_def Let_def split: option.splits)

text \<open>A snapshot changes nothing but the position in the sequence of random draws.\<close>

lemma GetHealth_frame [frame]: "gstate (snd (GetHealth now gid g)) = gstate g"
  by (auto simp: GetHealth_def Let_def split: option.splits prod.splits sum.splits dest!: reading_frame)

lemma reading_hub [frame]:
  "temperature_reading spec st f g = (t, g') \<Longrightarrow> DefaultHub g' = DefaultHub g"
  "power_reading spec st f g = (p, g') \<Longrightarrow> DefaultHub g' = DefaultHub g"
  "load_reading st f g = (l, g') \<Longrightarrow> DefaultHub g' = DefaultHub g"
  by (auto simp: temperature_reading_def power_reading_def load_reading_def Let_def
      split: prod.splits FailureType.splits if_splits dest!: rand_frame draw_frame)

lemma GetHealth_hub [frame]: "DefaultHub (snd (GetHealth now gid g)) = DefaultHub g"
  by (auto simp: GetHealth_def Let_def split: option.splits prod.splits sum.splits dest!: reading_hub)

end
