(* ===== verification/Diagnosis.thy ===== *)
theory Diagnosis
  imports Gpu_Types "HOL-Library.List_Lexorder" "HOL-Library.Char_ord"
begin

text \<open>
  The diagnosis package: its records (\<^verbatim>\<open>internal/diagnosis/model.go\<close>), the analyzer
  (\<^verbatim>\<open>analyzer.go\<close>) and the in-memory store (\<^verbatim>\<open>store.go\<close>). Severities are linearly ordered, so the
  analyzer's loop is shown to compute a maximum; the store is shown to be a \<open>listed_store\<close>.
\<close>

section \<open>model.go\<close>

datatype Severity = SeverityLow | SeverityMedium | SeverityHigh | SeverityCritical | SeverityOther string

fun string_of_Severity :: "Severity \<Rightarrow> string" where
  "string_of_Severity SeverityLow = ''low''"
| "string_of_Severity SeverityMedium = ''medium''"
| "string_of_Severity SeverityHigh = ''high''"
| "string_of_Severity SeverityCritical = ''critical''"
| "string_of_Severity (SeverityOther s) = s"

definition CodeGPUThermalThrottle :: string where "CodeGPUThermalThrottle = ''GPUThermalThrottle''"
definition CodeMemoryThermalThrottle :: string where "CodeMemoryThermalThrottle = ''MemoryThermalThrottle''"
definition CodeECCSingleBitError :: string where "CodeECCSingleBitError = ''ECCSingleBitError''"
definition CodeECCDoubleBitError :: string where "CodeECCDoubleBitError = ''ECCDoubleBitError''"
definition CodePowerCapped :: string where "CodePowerCapped = ''PowerCapped''"
definition CodeLowUtilization :: string where "CodeLowUtilization = ''LowUtilization''"

lemmas code_defs = CodeGPUThermalThrottle_def CodeMemoryThermalThrottle_def CodeECCSingleBitError_def
  CodeECCDoubleBitError_def CodePowerCapped_def CodeLowUtilization_def

record Finding =
  Code :: string
  Description :: string
  FSeverity :: Severity

record Diagnosis =
  ID :: string
  DGPUID :: string
  DTimestamp :: time
  DSeverity :: Severity
  Findings :: "Finding list"
  Recommendation :: string

section \<open>analyzer.go\<close>

definition eccSingleBitCountWarning :: nat where "eccSingleBitCountWarning = 6"
definition eccDoubleBitCountCritical :: nat where "eccDoubleBitCountCritical = 1"
definition lowGpuUtilization :: rat where "lowGpuUtilization = 5"

definition degC :: string where
  "degC = [CHR 0xC2, CHR 0xB0, CHR ''C'']"

definition exceeds_temp :: "string \<Rightarrow> rat \<Rightarrow> rat \<Rightarrow> string" where
  "exceeds_temp what x limit =
     what @ '' - '' @ fmt_1f x @ degC @ '' detected which exceeds the acceptable threshold of '' @ fmt_1f limit @ degC"

definition exceeds_count :: "string \<Rightarrow> nat \<Rightarrow> nat \<Rightarrow> string" where
  "exceeds_count what n limit =
     what @ '' - '' @ show_dec n @ '' errors detected which exceeds the acceptable threshold of '' @ show_dec limit @ '' errors''"

definition core_findings :: "GPUHealth \<Rightarrow> Finding list" where
  "core_findings h =
     (let t = Temp h
      in if GPUCoreCelsius t \<ge> GPUCoreCriticalThreshold t then
           [\<lparr>Code = CodeGPUThermalThrottle,
             Description = exceeds_temp ''GPU Core Temperature Critical'' (GPUCoreCelsius t) (GPUCoreCriticalThreshold t),
             FSeverity = SeverityCritical\<rparr>]
         else if GPUCoreCelsius t \<ge> GPUCoreWarningThreshold t then
           [\<lparr>Code = CodeGPUThermalThrottle,
             Description = exceeds_temp ''GPU Core Temperature Warning'' (GPUCoreCelsius t) (GPUCoreWarningThreshold t),
             FSeverity = SeverityMedium\<rparr>]
         else [])"

definition memory_findings :: "GPUHealth \<Rightarrow> Finding list" where
  "memory_findings h =
     (let t = Temp h
      in if MemoryCriticalThreshold t > 0 \<and> MemoryCelsius t \<ge> MemoryCriticalThreshold t then
           [\<lparr>Code = CodeMemoryThermalThrottle,
             Description = exceeds_temp ''Memory temperature critical'' (MemoryCelsius t) (MemoryCriticalThreshold t),
             FSeverity = SeverityCritical\<rparr>]
         else if MemoryWarningThreshold t > 0 \<and> MemoryCelsius t \<ge> MemoryWarningThreshold t then
           [\<lparr>Code = CodeMemoryThermalThrottle,
             Description = exceeds_temp ''Memory temperature warning'' (MemoryCelsius t) (MemoryWarningThreshold t),
             FSeverity = SeverityMedium\<rparr>]
         else [])"

definition ecc_findings :: "GPUHealth \<Rightarrow> Finding list" where
  "ecc_findings h =
     (if unat (ECCSingleBitErrors (Mem h)) \<ge> eccSingleBitCountWarning then
        [\<lparr>Code = CodeECCSingleBitError,
          Description = exceeds_count ''ECC single bit errors warning'' (unat (ECCSingleBitErrors (Mem h))) eccSingleBitCountWarning,
          FSeverity = SeverityMedium\<rparr>]
      else []) @
     (if unat (ECCDoubleBitErrors (Mem h)) \<ge> eccDoubleBitCountCritical then
        [\<lparr>Code = CodeECCDoubleBitError,
          Description = exceeds_count ''ECC double bit errors critical'' (unat (ECCDoubleBitErrors (Mem h))) eccDoubleBitCountCritical,
          FSeverity = SeverityCritical\<rparr>]
      else [])"

definition power_findings :: "GPUHealth \<Rightarrow> Finding list" where
  "power_findings h =
     (if PowerCapped (Pow h) then
        [\<lparr>Code = CodePowerCapped,
          Description = ''Power draw high - drawing '' @ fmt_1f (DrawWatts (Pow h)) @
            '' watts which exceeds the acceptable limit of '' @ fmt_1f (LimitWatts (Pow h)) @ '' watts'',
          FSeverity = SeverityHigh\<rparr>]
      else [])"

definition utilization_findings :: "GPUHealth \<Rightarrow> Finding list" where
  "utilization_findings h =
     (if Utilization h \<le> lowGpuUtilization then
        [\<lparr>Code = CodeLowUtilization,
          Description = ''GPU utilization low - GPU utilization '' @ fmt_1f (Utilization h) @
            ''% which is under the acceptable limit of '' @ fmt_1f lowGpuUtilization @ ''%'',
          FSeverity = SeverityMedium\<rparr>]
      else [])"

definition generateFindings :: "GPUHealth \<Rightarrow> Finding list" where
  "generateFindings h =
     core_findings h @ memory_findings h @ ecc_findings h @ power_findings h @ utilization_findings h"

text \<open>The map literal of \<^verbatim>\<open>isWorseThan\<close>; a missing key reads as zero.\<close>

fun severity_order :: "Severity \<Rightarrow> nat" where
  "severity_order SeverityLow = 1"
| "severity_order SeverityMedium = 2"
| "severity_order SeverityHigh = 3"
| "severity_order SeverityCritical = 4"
| "severity_order (SeverityOther _) = 0"

definition isWorseThan :: "Severity \<Rightarrow> Severity \<Rightarrow> bool" where
  "isWorseThan a b \<longleftrightarrow> severity_order a > severity_order b"

definition GetWorstSeverity :: "Finding list \<Rightarrow> Severity" where
  "GetWorstSeverity findings =
     fold (\<lambda>f worst. if isWorseThan (FSeverity f) worst then FSeverity f else worst) findings SeverityLow"

definition GetRecommendation :: "Severity \<Rightarrow> string" where
  "GetRecommendation s =
     (case s of
        SeverityMedium \<Rightarrow> ''Flag for review at next maintenance window. Continue monitoring.''
      | SeverityHigh \<Rightarrow> ''Schedule maintenance within 24 hours. Monitor closely for deterioration.''
      | SeverityCritical \<Rightarrow> ''Immediate intervention required. Remove GPU from service and inspect hardware.''
      | _ \<Rightarrow> ''No action required. Continue routine monitoring.'')"

definition Analyze :: "GPUHealth \<Rightarrow> time \<Rightarrow> Diagnosis" where
  "Analyze h ts =
     (let findings = generateFindings h; worst = GetWorstSeverity findings
      in \<lparr>ID = ''diag-'' @ GPUID h, DGPUID = GPUID h, DTimestamp = ts, DSeverity = worst,
          Findings = findings, Recommendation = GetRecommendation worst\<rparr>)"

section \<open>store.go\<close>

record DiagStore =
  ddata :: "(string \<times> Diagnosis) list"

definition NewDiagStore :: DiagStore where
  "NewDiagStore = \<lparr>ddata = []\<rparr>"

definition SaveDiag :: "Diagnosis \<Rightarrow> DiagStore \<Rightarrow> DiagStore" where
  "SaveDiag d s = s\<lparr>ddata := AList.update (ID d) d (ddata s)\<rparr>"

definition GetDiagByID :: "DiagStore \<Rightarrow> string \<Rightarrow> Diagnosis option" where
  "GetDiagByID s i = map_of (ddata s) i"

text \<open>\<^verbatim>\<open>List\<close> collects the values in the order the run time iterates the map: a parameter.\<close>

definition ListDiags :: "((string \<times> Diagnosis) list \<Rightarrow> (string \<times> Diagnosis) list) \<Rightarrow> DiagStore \<Rightarrow> Diagnosis list" where
  "ListDiags iter s = map snd (iter (ddata s))"

section \<open>The order of severities\<close>

instantiation Severity :: linorder
begin

definition less_eq_Severity :: "Severity \<Rightarrow> Severity \<Rightarrow> bool" where
  "a \<le> b \<longleftrightarrow> severity_order a < severity_order b \<or>
     severity_order a = severity_order b \<and> string_of_Severity a \<le> string_of_Severity b"

definition less_Severity :: "Severity \<Rightarrow> Severity \<Rightarrow> bool" where
  "a < b \<longleftrightarrow> a \<le> b \<and> \<not> b \<le> (a :: Severity)"

instance
proof
  fix a b c :: Severity
  show "a < b \<longleftrightarrow> a \<le> b \<and> \<not> b \<le> a" by (rule less_Severity_def)
  show "a \<le> a" by (simp add: less_eq_Severity_def)
  show "a \<le> b \<Longrightarrow> b \<le> c \<Longrightarrow> a \<le> c" by (auto simp: less_eq_Severity_def)
  show "a \<le> b \<Longrightarrow> b \<le> a \<Longrightarrow> a = b"
    by (cases a; cases b) (auto simp: less_eq_Severity_def)
  show "a \<le> b \<or> b \<le> a" by (auto simp: less_eq_Severity_def)
qed

end

lemma isWorseThan_less: "SeverityLow \<le> b \<Longrightarrow> isWorseThan a b \<longleftrightarrow> b < a"
  by (cases a; cases b) (auto simp: isWorseThan_def less_Severity_def less_eq_Severity_def)

lemma GetWorstSeverity_Max:
  "GetWorstSeverity fs = Max (insert SeverityLow (FSeverity ` set fs))"
proof -
  have "fold (\<lambda>f worst. if isWorseThan (FSeverity f) worst then FSeverity f else worst) fs w
      = Max (insert w (FSeverity ` set fs))" if "SeverityLow \<le> w" for w
    using that
  proof (induction fs arbitrary: w)
    case Nil
    then show ?case by simp
  next
    case (Cons f fs)
    let ?w = "if isWorseThan (FSeverity f) w then FSeverity f else w"
    have w: "?w = max (FSeverity f) w"
      using isWorseThan_less [OF Cons.prems, of "FSeverity f"] by (cases "w < FSeverity f") (simp_all add: max.absorb3 max.absorb2 not_less)
    have "SeverityLow \<le> ?w" unfolding w using Cons.prems by (simp add: le_max_iff_disj)
    then have "fold (\<lambda>f worst. if isWorseThan (FSeverity f) worst then FSeverity f else worst) (f # fs) w
      = Max (insert (max (FSeverity f) w) (FSeverity ` set fs))" using Cons.IH [of ?w] w by simp
    also have "\<dots> = Max (insert w (FSeverity ` set (f # fs)))"
      by (cases "set fs = {}") (simp_all add: max.left_commute max.commute max.assoc)
    finally show ?case .
  qed
  then show ?thesis by (simp add: GetWorstSeverity_def)
qed

text \<open>Whatever order the run time iterates the map in, a listing has the same records.\<close>

lemma ListDiags_any_order:
  "mset (iter (ddata s)) = mset (ddata s) \<Longrightarrow> mset (ListDiags iter s) = mset (ListDiags (\<lambda>xs. xs) s)"
  by (simp add: ListDiags_def)

interpretation diag_store: listed_store ID SaveDiag GetDiagByID "\<lambda>s. filed ID (ddata s)" "ListDiags (\<lambda>xs. xs)"
proof unfold_locales
  fix d s i
  show "GetDiagByID (SaveDiag d s) i = (if i = ID d then Some d else GetDiagByID s i)"
    by (simp add: GetDiagByID_def SaveDiag_def update_conv')
next
  fix s :: DiagStore and d assume f: "filed ID (ddata s)"
  show "filed ID (ddata (SaveDiag d s))" using f by (simp add: SaveDiag_def filed_update)
  show "d \<in> set (ListDiags (\<lambda>xs. xs) s) \<longleftrightarrow> GetDiagByID s (ID d) = Some d"
    using filed_map_of [OF f, of d] by (simp only: ListDiags_def GetDiagByID_def)
  show "distinct (map ID (ListDiags (\<lambda>xs. xs) s))"
    using filed_distinct [OF f] by (simp only: ListDiags_def)
qed

section \<open>What the analyzer reports\<close>

text \<open>The severity of a snapshot, read off the documented thresholds.\<close>

definition critical_reading :: "GPUHealth \<Rightarrow> bool" where
  "critical_reading h \<longleftrightarrow>
     GPUCoreCriticalThreshold (Temp h) \<le> GPUCoreCelsius (Temp h) \<or>
     0 < MemoryCriticalThreshold (Temp h) \<and> MemoryCriticalThreshold (Temp h) \<le> MemoryCelsius (Temp h) \<or>
     1 \<le> unat (ECCDoubleBitErrors (Mem h))"

definition medium_reading :: "GPUHealth \<Rightarrow> bool" where
  "medium_reading h \<longleftrightarrow>
     GPUCoreWarningThreshold (Temp h) \<le> GPUCoreCelsius (Temp h) \<or>
     0 < MemoryWarningThreshold (Temp h) \<and> MemoryWarningThreshold (Temp h) \<le> MemoryCelsius (Temp h) \<or>
     6 \<le> unat (ECCSingleBitErrors (Mem h)) \<or> Utilization h \<le> 5"

definition graded :: "bool \<Rightarrow> bool \<Rightarrow> bool \<Rightarrow> Severity" where
  "graded critical high medium =
     (if critical then SeverityCritical else if high then SeverityHigh
      else if medium then SeverityMedium else SeverityLow)"

definition severity_spec :: "GPUHealth \<Rightarrow> Severity" where
  "severity_spec h = graded (critical_reading h) (PowerCapped (Pow h)) (medium_reading h)"

lemmas analyzer_defs [model_defs] =
  core_findings_def memory_findings_def ecc_findings_def power_findings_def utilization_findings_def
  eccSingleBitCountWarning_def eccDoubleBitCountCritical_def lowGpuUtilization_def

lemma worst_append: "GetWorstSeverity (fs @ gs) = max (GetWorstSeverity fs) (GetWorstSeverity gs)"
proof -
  have "insert SeverityLow (FSeverity ` set (fs @ gs)) =
      insert SeverityLow (FSeverity ` set fs) \<union> insert SeverityLow (FSeverity ` set gs)" by auto
  then show ?thesis by (simp only: GetWorstSeverity_Max) (subst Max_Un; simp)
qed

lemma worst_single: "GetWorstSeverity [f] = max SeverityLow (FSeverity f)"
  by (simp add: GetWorstSeverity_Max)

lemma worst_Nil: "GetWorstSeverity [] = SeverityLow"
  by (simp add: GetWorstSeverity_Max)

lemma severity_less [simp]:
  "SeverityLow \<le> SeverityMedium" "SeverityLow \<le> SeverityHigh" "SeverityLow \<le> SeverityCritical"
  "SeverityMedium \<le> SeverityHigh" "SeverityMedium \<le> SeverityCritical" "SeverityHigh \<le> SeverityCritical"
  "\<not> SeverityMedium \<le> SeverityLow" "\<not> SeverityHigh \<le> SeverityLow" "\<not> SeverityCritical \<le> SeverityLow"
  "\<not> SeverityHigh \<le> SeverityMedium" "\<not> SeverityCritical \<le> SeverityMedium" "\<not> SeverityCritical \<le> SeverityHigh"
  by (simp_all add: less_eq_Severity_def)

lemma max_graded: "max (graded c h m) (graded c' h' m') = graded (c \<or> c') (h \<or> h') (m \<or> m')"
  by (cases c; cases h; cases m; cases c'; cases h'; cases m'; simp add: graded_def max_def)

lemma worst_parts:
  "GetWorstSeverity (core_findings h) =
     graded (GPUCoreCriticalThreshold (Temp h) \<le> GPUCoreCelsius (Temp h)) False
       (GPUCoreWarningThreshold (Temp h) \<le> GPUCoreCelsius (Temp h))"
  "GetWorstSeverity (memory_findings h) =
     graded (0 < MemoryCriticalThreshold (Temp h) \<and> MemoryCriticalThreshold (Temp h) \<le> MemoryCelsius (Temp h)) False
       (0 < MemoryWarningThreshold (Temp h) \<and> MemoryWarningThreshold (Temp h) \<le> MemoryCelsius (Temp h))"
  "GetWorstSeverity (ecc_findings h) =
     graded (1 \<le> unat (ECCDoubleBitErrors (Mem h))) False (6 \<le> unat (ECCSingleBitErrors (Mem h)))"
  "GetWorstSeverity (power_findings h) = graded False (PowerCapped (Pow h)) False"
  "GetWorstSeverity (utilization_findings h) = graded False False (Utilization h \<le> 5)"
  by (simp_all add: analyzer_defs Let_def worst_append worst_single worst_Nil graded_def max_def)

lemma GetWorstSeverity_findings: "GetWorstSeverity (generateFindings h) = severity_spec h"
  unfolding generateFindings_def worst_append worst_parts max_graded severity_spec_def
    critical_reading_def medium_reading_def by (simp only: simp_thms disj_assoc)

lemma codes_distinct:
  "distinct [CodeGPUThermalThrottle, CodeMemoryThermalThrottle, CodeECCSingleBitError, CodeECCDoubleBitError,
     CodePowerCapped, CodeLowUtilization]"
  unfolding code_defs by simp

lemma part_codes:
  "distinct (map Code (core_findings h)) \<and> Code ` set (core_findings h) \<subseteq> {CodeGPUThermalThrottle}"
  "distinct (map Code (memory_findings h)) \<and> Code ` set (memory_findings h) \<subseteq> {CodeMemoryThermalThrottle}"
  "distinct (map Code (ecc_findings h)) \<and> Code ` set (ecc_findings h) \<subseteq> {CodeECCSingleBitError, CodeECCDoubleBitError}"
  "distinct (map Code (power_findings h)) \<and> Code ` set (power_findings h) \<subseteq> {CodePowerCapped}"
  "distinct (map Code (utilization_findings h)) \<and> Code ` set (utilization_findings h) \<subseteq> {CodeLowUtilization}"
  using codes_distinct by (auto simp: analyzer_defs Let_def)

text \<open>At most one finding per code.\<close>

lemma distinct_parts:
  assumes "distinct xs \<and> set xs \<subseteq> A" and "distinct ys \<and> set ys \<subseteq> B" and "A \<inter> B = {}"
  shows "distinct (xs @ ys) \<and> set (xs @ ys) \<subseteq> A \<union> B"
  using assms by auto

lemma generateFindings_codes_distinct: "distinct (map Code (generateFindings h))"
proof -
  note p = part_codes [of h, folded set_map]
  have d: "{CodeGPUThermalThrottle} \<inter> ({CodeMemoryThermalThrottle} \<union> ({CodeECCSingleBitError, CodeECCDoubleBitError}
      \<union> ({CodePowerCapped} \<union> {CodeLowUtilization}))) = {}"
    "{CodeMemoryThermalThrottle} \<inter> ({CodeECCSingleBitError, CodeECCDoubleBitError}
      \<union> ({CodePowerCapped} \<union> {CodeLowUtilization})) = {}"
    "{CodeECCSingleBitError, CodeECCDoubleBitError} \<inter> ({CodePowerCapped} \<union> {CodeLowUtilization}) = {}"
    "{CodePowerCapped} \<inter> {CodeLowUtilization} = {}"
    using codes_distinct by auto
  show ?thesis
    using distinct_parts [OF p(1) distinct_parts [OF p(2) distinct_parts [OF p(3)
      distinct_parts [OF p(4) p(5) d(4)] d(3)] d(2)] d(1)]
    by (simp only: generateFindings_def map_append)
qed

end
