(* ===== verification/Escalation.thy ===== *)
theory Escalation
  imports Prelude
begin

text \<open>
  The escalation package (\<^verbatim>\<open>internal/escalation/model.go\<close>, \<^verbatim>\<open>store.go\<close>) and the handlers of its
  service (\<^verbatim>\<open>cmd/escalation/main.go\<close>). A handler is a function of the URL parameter, the decoded
  request body where it reads one, the clock where it reads it, and the store. The decoder of
  \<^verbatim>\<open>encoding/json\<close> is represented by its outcome: an error, or a pointer that is nil for the
  document \<^verbatim>\<open>null\<close>.
\<close>

section \<open>HTTP responses\<close>

datatype 'b response =
  HttpError (code: nat) string   \<comment> \<open>\<^verbatim>\<open>http.Error\<close>, \<^verbatim>\<open>http.NotFound\<close>\<close>
| Json (code: nat) 'b            \<comment> \<open>a status code and an encoded body\<close>
| NoBody (code: nat)

definition NotFound404 :: "'b response" where
  "NotFound404 = HttpError 404 ''404 page not found''"

section \<open>model.go\<close>

datatype EscStatus = StatusOpen | StatusResolved | EscStatusOther string

record Escalation =
  EID :: string
  EGPUID :: string
  DiagnosisID :: string
  ESeverity :: string
  EStatus :: EscStatus
  CreatedAt :: time
  ResolvedAt :: "time option"

definition Resolve :: "time \<Rightarrow> Escalation \<Rightarrow> Escalation" where
  "Resolve ts e = e\<lparr>EStatus := StatusResolved, ResolvedAt := Some ts\<rparr>"

section \<open>store.go\<close>

record EscStore =
  edata :: "(string \<times> Escalation) list"

definition NewEscStore :: EscStore where
  "NewEscStore = \<lparr>edata = []\<rparr>"

definition SaveEsc :: "Escalation \<Rightarrow> EscStore \<Rightarrow> EscStore" where
  "SaveEsc e s = s\<lparr>edata := AList.update (EID e) e (edata s)\<rparr>"

definition GetEscByID :: "EscStore \<Rightarrow> string \<Rightarrow> Escalation option" where
  "GetEscByID s i = map_of (edata s) i"

definition ListEscs :: "((string \<times> Escalation) list \<Rightarrow> (string \<times> Escalation) list) \<Rightarrow> EscStore \<Rightarrow> Escalation list" where
  "ListEscs iter s = map snd (iter (edata s))"

abbreviation esc_inv :: "EscStore \<Rightarrow> bool" where
  "esc_inv s \<equiv> filed EID (edata s)"

section \<open>The service\<close>

definition createEscalationHandler ::
  "string \<Rightarrow> (string, Escalation option) result \<Rightarrow> EscStore \<Rightarrow> Escalation response \<times> EscStore" where
  "createEscalationHandler i body s =
     (case GetEscByID s i of
        Some _ \<Rightarrow> (HttpError 400 ''Bad Request: Escalation ID already exists'', s)
      | None \<Rightarrow>
          (case body of
             Inl _ \<Rightarrow> (HttpError 400 ''Bad Request: Unable to process payload'', s)
           | Inr None \<Rightarrow> (HttpError 400 ''Bad Request: Unable to process payload'', s)
           | Inr (Some e) \<Rightarrow> (Json 201 e, SaveEsc e s)))"

definition getEscalationByIDHandler :: "string \<Rightarrow> EscStore \<Rightarrow> Escalation response" where
  "getEscalationByIDHandler i s =
     (case GetEscByID s i of None \<Rightarrow> NotFound404 | Some e \<Rightarrow> Json 200 e)"

definition getEscalationsHandler ::
  "((string \<times> Escalation) list \<Rightarrow> (string \<times> Escalation) list) \<Rightarrow> EscStore \<Rightarrow> Escalation list response" where
  "getEscalationsHandler iter s = Json 200 (ListEscs iter s)"

definition resolveEscalationHandler :: "time \<Rightarrow> string \<Rightarrow> EscStore \<Rightarrow> Escalation response \<times> EscStore" where
  "resolveEscalationHandler now i s =
     (case GetEscByID s i of
        None \<Rightarrow> (NotFound404, s)
      | Some e \<Rightarrow> (NoBody 204, SaveEsc (Resolve now e) s))"

lemmas esc_handler_defs [model_defs] =
  createEscalationHandler_def getEscalationByIDHandler_def getEscalationsHandler_def resolveEscalationHandler_def

section \<open>The store meets its contract\<close>

lemma ListEscs_any_order:
  "mset (iter (edata s)) = mset (edata s) \<Longrightarrow> mset (ListEscs iter s) = mset (ListEscs (\<lambda>xs. xs) s)"
  by (simp add: ListEscs_def)

interpretation esc_store: listed_store EID SaveEsc GetEscByID "\<lambda>s. filed EID (edata s)" "ListEscs (\<lambda>xs. xs)"
proof unfold_locales
  fix e s i
  show "GetEscByID (SaveEsc e s) i = (if i = EID e then Some e else GetEscByID s i)"
    by (simp add: GetEscByID_def SaveEsc_def update_conv')
next
  fix s :: EscStore and e assume f: "esc_inv s"
  show "esc_inv (SaveEsc e s)" using f by (simp add: SaveEsc_def filed_update)
  show "e \<in> set (ListEscs (\<lambda>xs. xs) s) \<longleftrightarrow> GetEscByID s (EID e) = Some e"
    using filed_map_of [OF f, of e] by (simp only: ListEscs_def GetEscByID_def)
  show "distinct (map EID (ListEscs (\<lambda>xs. xs) s))"
    using filed_distinct [OF f] by (simp only: ListEscs_def)
qed

lemma GetEscByID_key: "esc_inv s \<Longrightarrow> GetEscByID s i = Some e \<Longrightarrow> EID e = i"
  by (auto simp: filed_def GetEscByID_def dest!: map_of_SomeD)

section \<open>Requests\<close>

lemma create_response:
  "fst (createEscalationHandler i body s) = Json 201 e \<longleftrightarrow> GetEscByID s i = None \<and> body = Inr (Some e)"
  by (auto simp: createEscalationHandler_def split: option.splits sum.splits)

lemma create_refused: "code (fst (createEscalationHandler i body s)) = 400 \<Longrightarrow> snd (createEscalationHandler i body s) = s"
  by (auto simp: createEscalationHandler_def split: option.splits sum.splits)

lemma create_inv: "esc_inv s \<Longrightarrow> esc_inv (snd (createEscalationHandler i body s))"
  by (auto simp: createEscalationHandler_def esc_store.invar_save split: option.splits sum.splits)

lemma resolve_inv: "esc_inv s \<Longrightarrow> esc_inv (snd (resolveEscalationHandler now i s))"
  by (auto simp: resolveEscalationHandler_def esc_store.invar_save split: option.splits)

lemma Resolve_simps [simp]:
  "EID (Resolve ts e) = EID e" "EStatus (Resolve ts e) = StatusResolved" "ResolvedAt (Resolve ts e) = Some ts"
  by (simp_all add: Resolve_def)

lemma resolve_effect:
  assumes "esc_inv s" and "GetEscByID s i = Some e"
  shows "GetEscByID (snd (resolveEscalationHandler now i s)) j = (if j = i then Some (Resolve now e) else GetEscByID s j)"
  using assms GetEscByID_key [OF assms] by (simp add: resolveEscalationHandler_def esc_store.get_save)

end
