(* ===== verification/Services.thy ===== *)
theory Services
  imports Health Diagnosis Escalation
begin

text \<open>
  The request handlers of the telemetry service (\<^verbatim>\<open>cmd/telemetry/main.go\<close>, less the two handlers
  that read the whole fleet) and of the diagnosis service (\<^verbatim>\<open>cmd/diagnosis/main.go\<close>), each a
  function of its URL parameter, its decoded body, the clock and the state it works on.
\<close>

section \<open>Decoding the settings document\<close>

datatype json = JNull | JInt int | JFloat rat | JObject "(string \<times> json) list" | JOther

definition zero_settings :: SimulationSettings where
  "zero_settings = \<lparr>SpeedMultiplier = 0, HealthyToWarningRate = 0, WarningToCriticalRate = 0,
     WarningToHealthyRate = 0, CriticalToWarningRate = 0, RecoveryWarningRate = 0, ReplacementWarningRate = 0\<rparr>"

definition lower_char :: "char \<Rightarrow> char" where
  "lower_char c = (let n = of_char c :: nat in if 65 \<le> n \<and> n \<le> 90 then char_of (n + 32) else c)"

text \<open>A JSON number read into an \<^verbatim>\<open>int64\<close> must be an integer literal in range; into a
  \<^verbatim>\<open>float64\<close> any number that does not overflow.\<close>

definition decode_int64 :: "json \<Rightarrow> 64 word option" where
  "decode_int64 v = (case v of JInt i \<Rightarrow> if - (2 ^ 63) \<le> i \<and> i < 2 ^ 63 then Some (word_of_int i) else None | _ \<Rightarrow> None)"

definition decode_float64 :: "json \<Rightarrow> rat option" where
  "decode_float64 v =
     (case v of
        JInt i \<Rightarrow> if \<bar>fl64 (of_int i)\<bar> < 2 ^ 1024 then Some (fl64 (of_int i)) else None
      | JFloat r \<Rightarrow> if \<bar>fl64 r\<bar> < 2 ^ 1024 then Some (fl64 r) else None
      | _ \<Rightarrow> None)"

text \<open>
  One member of the object: keys match without regard to case, an unknown key is skipped,
  \<^verbatim>\<open>null\<close> leaves the field as it is, a value of the wrong kind is remembered as an error
  (the boolean) while decoding goes on.
\<close>

definition decode_member :: "string \<times> json \<Rightarrow> SimulationSettings \<times> bool \<Rightarrow> SimulationSettings \<times> bool" where
  "decode_member kv acc =
     (case (kv, acc) of ((k, v), (s, err)) \<Rightarrow>
        let key = map lower_char k;
            float = (\<lambda>set. case decode_float64 v of None \<Rightarrow> (s, True) | Some x \<Rightarrow> (set x, err))
        in if v = JNull then (s, err)
           else if key = ''speed_multiplier'' then
             (case decode_int64 v of None \<Rightarrow> (s, True) | Some x \<Rightarrow> (s\<lparr>SpeedMultiplier := x\<rparr>, err))
           else if key = ''healthy_to_warning_rate'' then float (\<lambda>x. s\<lparr>HealthyToWarningRate := x\<rparr>)
           else if key = ''warning_to_critical_rate'' then float (\<lambda>x. s\<lparr>WarningToCriticalRate := x\<rparr>)
           else if key = ''warning_to_healthy_rate'' then float (\<lambda>x. s\<lparr>WarningToHealthyRate := x\<rparr>)
           else if key = ''critical_to_warning_rate'' then float (\<lambda>x. s\<lparr>CriticalToWarningRate := x\<rparr>)
           else if key = ''recovery_warning_rate'' then float (\<lambda>x. s\<lparr>RecoveryWarningRate := x\<rparr>)
           else if key = ''replacement_warning_rate'' then float (\<lambda>x. s\<lparr>ReplacementWarningRate := x\<rparr>)
           else (s, err))"

text \<open>\<^verbatim>\<open>json.NewDecoder(r.Body).Decode(settings)\<close>; \<open>None\<close> as input is a body that is not JSON.\<close>

definition decode_settings :: "json option \<Rightarrow> SimulationSettings option" where
  "decode_settings body =
     (case body of
        Some (JObject members) \<Rightarrow>
          (case fold decode_member members (zero_settings, False) of (s, err) \<Rightarrow> if err then None else Some s)
      | Some JNull \<Rightarrow> Some zero_settings
      | _ \<Rightarrow> None)"

section \<open>cmd/telemetry: settings\<close>

definition getSimulationSettingsHandler :: "SimulationConfig \<Rightarrow> SimulationSettings response" where
  "getSimulationSettingsHandler c = Json 200 (Config_Get c)"

definition putSimulationSettingsHandler ::
  "json option \<Rightarrow> SimulationConfig \<Rightarrow> SimulationSettings response \<times> SimulationConfig" where
  "putSimulationSettingsHandler body c =
     (case decode_settings body of
        None \<Rightarrow> (HttpError 400 ''unable to parse settings'', c)
      | Some s \<Rightarrow>
          if sint (SpeedMultiplier s) < 1 \<or> sint (SpeedMultiplier s) > 100 then
            (HttpError 400 ''speed multiplier must be between 1 and 100'', c)
          else if HealthyToWarningRate s < 0 \<or> HealthyToWarningRate s > 1 then
            (HttpError 400 ''healthy to warning rate must be between 0.0 and 1.0'', c)
          else if WarningToCriticalRate s < 0 \<or> WarningToHealthyRate s < 0 then
            (HttpError 400 ''warning to critical rate and warning to healthy rate cannot be less than 0.0'', c)
          else if fl64 (WarningToCriticalRate s + WarningToHealthyRate s) \<ge> 1 then
            (HttpError 400 ''warning to critical rate and warning to healthy rate must sum to less than 1.0'', c)
          else if CriticalToWarningRate s < 0 \<or> CriticalToWarningRate s > 1 then
            (HttpError 400 ''critical to warning rate must be between 0.0 and 1.0'', c)
          else if RecoveryWarningRate s < 0 \<or> RecoveryWarningRate s > 1 then
            (HttpError 400 ''recovery warning rate must be between 0.0 and 1.0'', c)
          else if ReplacementWarningRate s < 0 \<or> ReplacementWarningRate s > 1 then
            (HttpError 400 ''replacement warning rate must be between 0.0 and 1.0'', c)
          else case Config_Set s c of (confirmed, c') \<Rightarrow> (Json 200 confirmed, c'))"

definition postResetSimulationSettingsHandler :: "SimulationConfig \<Rightarrow> SimulationSettings response \<times> SimulationConfig" where
  "postResetSimulationSettingsHandler c = (case Config_Reset c of (confirmed, c') \<Rightarrow> (Json 200 confirmed, c'))"

text \<open>
  \<^verbatim>\<open>strconv.ParseInt(v, 10, 64)\<close>. \<^verbatim>\<open>strconv.ParseFloat\<close> is the parameter \<open>ParseFloat\<close> of
  \<open>useEnvVars\<close>: \<open>None\<close> for an error. \<open>Getenv\<close> yields the empty string for an unset variable.
\<close>

definition ParseInt64 :: "string \<Rightarrow> 64 word option" where
  "ParseInt64 v =
     (let (neg, ds) = (case v of [] \<Rightarrow> (False, []) | c # cs \<Rightarrow>
            if c = CHR ''-'' then (True, cs) else if c = CHR ''+'' then (False, cs) else (False, v));
          n = int (read_dec ds);
          i = (if neg then - n else n)
      in if ds = [] \<or> (\<exists>c \<in> set ds. \<not> is_digit c) \<or> i < - (2 ^ 63) \<or> 2 ^ 63 \<le> i then None
         else Some (word_of_int i))"

definition env_float :: "(string \<Rightarrow> rat option) \<Rightarrow> (string \<Rightarrow> string) \<Rightarrow> string \<Rightarrow> rat \<Rightarrow> rat" where
  "env_float ParseFloat Getenv name x =
     (let v = Getenv name in if v = [] then x else case ParseFloat v of None \<Rightarrow> x | Some n \<Rightarrow> n)"

definition useEnvVars :: "(string \<Rightarrow> rat option) \<Rightarrow> (string \<Rightarrow> string) \<Rightarrow> SimulationConfig \<Rightarrow> SimulationConfig" where
  "useEnvVars ParseFloat Getenv c =
     (let s = Config_Get c;
          f = env_float ParseFloat Getenv;
          v = Getenv ''INITIAL_SPEED_MULTIPLIER'';
          s = (if v = [] then s else case ParseInt64 v of None \<Rightarrow> s | Some n \<Rightarrow> s\<lparr>SpeedMultiplier := n\<rparr>);
          s = s\<lparr>HealthyToWarningRate := f ''INITIAL_H_TO_W_RATE'' (HealthyToWarningRate s)\<rparr>;
          s = s\<lparr>WarningToCriticalRate := f ''INITIAL_W_TO_C_RATE'' (WarningToCriticalRate s)\<rparr>;
          s = s\<lparr>WarningToHealthyRate := f ''INITIAL_W_TO_H_RATE'' (WarningToHealthyRate s)\<rparr>;
          s = s\<lparr>CriticalToWarningRate := f ''INITIAL_C_TO_W_RATE'' (CriticalToWarningRate s)\<rparr>;
          s = s\<lparr>RecoveryWarningRate := f ''INITIAL_RECOVERY_WARNING_RATE'' (RecoveryWarningRate s)\<rparr>;
          s = s\<lparr>ReplacementWarningRate := f ''INITIAL_REPLACEMENT_WARNING_RATE'' (ReplacementWarningRate s)\<rparr>
      in snd (Config_Set s c))"

section \<open>cmd/telemetry: single GPUs\<close>

text \<open>\<^verbatim>\<open>Recover\<close> and \<^verbatim>\<open>Replace\<close> return no other errors than the ones named; the text of a 500 is left out.\<close>

definition recoverGPUHandler :: "string \<Rightarrow> gpu_pkg \<Rightarrow> GPUHealth response \<times> gpu_pkg" where
  "recoverGPUHandler gid g =
     (case Recover gid g of (res, g') \<Rightarrow>
        (case res of
           Inr _ \<Rightarrow> NoBody 204
         | Inl (ErrGPUNotFound _) \<Rightarrow> NotFound404
         | Inl (ErrGPUUnrecoverable x) \<Rightarrow>
             HttpError 409 (''gpu requires hardware replacement: '' @ x @ '' has unrecoverable ECC double-bit errors'')
         | Inl _ \<Rightarrow> HttpError 500 [], g'))"

definition replaceGPUHandler :: "string \<Rightarrow> gpu_pkg \<Rightarrow> GPUHealth response \<times> gpu_pkg" where
  "replaceGPUHandler gid g =
     (case Replace gid g of (res, g') \<Rightarrow>
        (case res of
           Inr _ \<Rightarrow> NoBody 204
         | Inl (ErrGPUNotFound _) \<Rightarrow> NotFound404
         | Inl _ \<Rightarrow> HttpError 500 [], g'))"

definition getGpuHandler :: "time \<Rightarrow> string \<Rightarrow> gpu_pkg \<Rightarrow> GPUHealth response \<times> gpu_pkg" where
  "getGpuHandler now gid g =
     (case GetHealth now gid g of
        (Inl _, g') \<Rightarrow> (NotFound404, g')
      | (Inr h, g') \<Rightarrow> (Json 200 h, g'))"

section \<open>cmd/diagnosis\<close>

definition postDiagnosis ::
  "time \<Rightarrow> time \<Rightarrow> string \<Rightarrow> gpu_pkg \<Rightarrow> DiagStore \<Rightarrow> Diagnosis response \<times> gpu_pkg \<times> DiagStore" where
  "postDiagnosis now ts gid g s =
     (case GetHealth now gid g of
        (Inl _, g') \<Rightarrow> (NotFound404, g', s)
      | (Inr h, g') \<Rightarrow> let d = Analyze h ts in (Json 201 d, g', SaveDiag d s))"

definition getDiagnosis :: "string \<Rightarrow> DiagStore \<Rightarrow> Diagnosis response" where
  "getDiagnosis i s = (case GetDiagByID s i of None \<Rightarrow> NotFound404 | Some d \<Rightarrow> Json 200 d)"

definition getDiagnoses ::
  "((string \<times> Diagnosis) list \<Rightarrow> (string \<times> Diagnosis) list) \<Rightarrow> DiagStore \<Rightarrow> Diagnosis list response" where
  "getDiagnoses iter s = Json 200 (ListDiags iter s)"

section \<open>Settings requests\<close>

text \<open>Exactly the documents that decode to valid settings are accepted; any other leaves the configuration alone.\<close>

lemma put_settings_accepts:
  "putSimulationSettingsHandler body c = (Json 200 s, c') \<longleftrightarrow>
     decode_settings body = Some s \<and> valid_settings s \<and> c' = s"
  by (auto simp: putSimulationSettingsHandler_def valid_settings_def not_less not_le split: option.splits)

lemma put_settings_refuses:
  "(\<exists>s. decode_settings body = Some s \<and> valid_settings s) \<or>
     (\<exists>msg. putSimulationSettingsHandler body c = (HttpError 400 msg, c))"
  by (auto simp: putSimulationSettingsHandler_def valid_settings_def not_less not_le split: option.splits)

lemma put_settings_valid: "valid_settings c \<Longrightarrow> valid_settings (snd (putSimulationSettingsHandler body c))"
  by (auto simp: putSimulationSettingsHandler_def valid_settings_def not_less not_le split: option.splits)

section \<open>GPU requests\<close>

lemma recover_handler_code:
  "code (fst (recoverGPUHandler gid g)) =
     (case gstate g gid of None \<Rightarrow> 404 | Some st \<Rightarrow> if failureType st = FailureTypeECCDouble then 409 else 204)"
  by (auto simp: recoverGPUHandler_def Recover_def NotFound404_def GetState_None GetState_Some Let_def
      split: option.splits prod.splits)

lemma replace_handler_code:
  "code (fst (replaceGPUHandler gid g)) = (if gstate g gid = None then 404 else 204)"
  by (cases "gstate g gid")
     (auto simp: replaceGPUHandler_def Replace_def NotFound404_def GetState_None GetState_Some Let_def
      split: prod.splits)

lemma recover_handler_state: "snd (recoverGPUHandler gid g) = snd (Recover gid g)"
  by (simp add: recoverGPUHandler_def split: prod.splits)

lemma replace_handler_state: "snd (replaceGPUHandler gid g) = snd (Replace gid g)"
  by (simp add: replaceGPUHandler_def split: prod.splits)

end
