(* ===== verification/Workflow.thy ===== *)
theory Workflow
  imports Services
begin

text \<open>
  The Temporal activities (\<^verbatim>\<open>internal/temporal/activities/activites.go\<close>), the monitoring workflow
  (\<^verbatim>\<open>internal/temporal/workflows/monitor.go\<close>) and the process that runs them
  (\<^verbatim>\<open>cmd/worker/main.go\<close>). The Temporal SDK is not part of the program: executing an activity is
  the parameter \<open>exec\<close> of the workflow, and what the workflow relies on is \<open>temporal_exec\<close>, the
  documented at-least-once execution of activities.
\<close>

section \<open>Activities\<close>

record worker =
  gpkg :: gpu_pkg
  diagnosisStore :: DiagStore
  escalationStore :: EscStore
  clock :: "nat \<Rightarrow> time"
  clock_pos :: nat

definition worker_now :: "worker \<Rightarrow> time \<times> worker" where
  "worker_now w = (clock w (clock_pos w), w\<lparr>clock_pos := Suc (clock_pos w)\<rparr>)"

definition worker_init :: "(nat \<Rightarrow> nat) \<Rightarrow> (nat \<Rightarrow> time) \<Rightarrow> worker" where
  "worker_init src c = \<lparr>gpkg = gpu_init src, diagnosisStore = NewDiagStore, escalationStore = NewEscStore,
     clock = c, clock_pos = 0\<rparr>"

definition Activity_GetHealth :: "string \<Rightarrow> worker \<Rightarrow> (sim_error, GPUHealth) result \<times> worker" where
  "Activity_GetHealth i w =
     (let (now, w) = worker_now w; (res, g) = GetHealth now i (gpkg w) in (res, w\<lparr>gpkg := g\<rparr>))"

definition Activity_Diagnose :: "GPUHealth \<Rightarrow> worker \<Rightarrow> Diagnosis \<times> worker" where
  "Activity_Diagnose h w =
     (let (now, w) = worker_now w; d = Analyze h now
      in (d, w\<lparr>diagnosisStore := SaveDiag d (diagnosisStore w)\<rparr>))"

definition Activity_Escalate :: "Diagnosis \<Rightarrow> worker \<Rightarrow> Escalation \<times> worker" where
  "Activity_Escalate d w =
     (let (now, w) = worker_now w;
          e = \<lparr>EID = ''esc-'' @ DGPUID d, EGPUID = DGPUID d, DiagnosisID = ID d,
               ESeverity = string_of_Severity (DSeverity d), EStatus = StatusOpen, CreatedAt = now, ResolvedAt = None\<rparr>
      in (e, w\<lparr>escalationStore := SaveEsc e (escalationStore w)\<rparr>))"

section \<open>The workflow\<close>

datatype activity = ActGetHealth string | ActDiagnose GPUHealth | ActEscalate Diagnosis
datatype act_value = VHealth GPUHealth | VDiagnosis Diagnosis | VEscalation Escalation
datatype act_error = ActivityFailed sim_error | ActivityTimeout | DecodeError

type_synonym act_result = "(act_error, act_value) result"

fun run_activity :: "activity \<Rightarrow> worker \<Rightarrow> act_result \<times> worker" where
  "run_activity (ActGetHealth i) w =
     (case Activity_GetHealth i w of (Inl e, w) \<Rightarrow> (Inl (ActivityFailed e), w) | (Inr h, w) \<Rightarrow> (Inr (VHealth h), w))"
| "run_activity (ActDiagnose h) w = (case Activity_Diagnose h w of (d, w) \<Rightarrow> (Inr (VDiagnosis d), w))"
| "run_activity (ActEscalate d) w = (case Activity_Escalate d w of (e, w) \<Rightarrow> (Inr (VEscalation e), w))"

definition MonitorGPU ::
  "(activity \<Rightarrow> worker \<Rightarrow> act_result \<times> worker) \<Rightarrow> string \<Rightarrow> worker \<Rightarrow> (act_error, unit) result \<times> worker" where
  "MonitorGPU exec gpuID w =
     (case exec (ActGetHealth gpuID) w of
        (Inl hErr, w) \<Rightarrow> (Inl hErr, w)
      | (Inr (VHealth h), w) \<Rightarrow>
          (case exec (ActDiagnose h) w of
             (Inl dErr, w) \<Rightarrow> (Inl dErr, w)
           | (Inr (VDiagnosis d), w) \<Rightarrow>
               if DSeverity d = SeverityCritical then
                 (case exec (ActEscalate d) w of
                    (Inl eErr, w) \<Rightarrow> (Inl eErr, w)
                  | (Inr _, w) \<Rightarrow> (Inr (), w))
               else (Inr (), w)
           | (Inr _, w) \<Rightarrow> (Inl DecodeError, w))
      | (Inr _, w) \<Rightarrow> (Inl DecodeError, w))"

text \<open>
  At-least-once execution: an activity is attempted some number of times in a row; a success
  that is reported is the result of the last attempt.
\<close>

fun attempts :: "nat \<Rightarrow> activity \<Rightarrow> worker \<Rightarrow> act_result option \<times> worker" where
  "attempts 0 a w = (None, w)"
| "attempts (Suc n) a w = (case run_activity a (snd (attempts n a w)) of (r, w') \<Rightarrow> (Some r, w'))"

definition temporal_exec :: "(activity \<Rightarrow> worker \<Rightarrow> act_result \<times> worker) \<Rightarrow> bool" where
  "temporal_exec exec \<longleftrightarrow>
     (\<forall>a w. \<exists>n. snd (exec a w) = snd (attempts n a w) \<and>
        (\<forall>v. fst (exec a w) = Inr v \<longrightarrow> fst (attempts n a w) = Some (Inr v)))"

lemma temporal_execE:
  assumes "temporal_exec exec" and "exec a w = (Inr v, w')"
  obtains n where "w' = snd (attempts n a w)" and "fst (attempts n a w) = Some (Inr v)"
  using assms unfolding temporal_exec_def by (metis fst_conv snd_conv)

section \<open>What the attempts of one activity do\<close>

lemma GetHealth_GPUID: "GetHealth now i g = (Inr h, g') \<Longrightarrow> GPUID h = i"
  by (auto simp: GetHealth_def Let_def split: option.splits prod.splits sum.splits if_splits)

lemma attempts_GetHealth_frame:
  "diagnosisStore (snd (attempts n (ActGetHealth i) w)) = diagnosisStore w \<and>
   escalationStore (snd (attempts n (ActGetHealth i) w)) = escalationStore w \<and>
   gstate (gpkg (snd (attempts n (ActGetHealth i) w))) = gstate (gpkg w)"
proof (induction n)
  case (Suc n)
  have "gstate g = gstate (gpkg v)" if "GetHealth t i (gpkg v) = (x, g)" for t x g and v :: worker
    using GetHealth_frame [of t i "gpkg v"] that by simp
  with Suc show ?case by (auto simp: Activity_GetHealth_def worker_now_def Let_def split: prod.splits sum.splits)
qed simp

lemma attempts_GetHealth_result:
  "fst (attempts n (ActGetHealth i) w) = Some (Inr v) \<Longrightarrow>
    \<exists>h now g g'. v = VHealth h \<and> GetHealth now i g = (Inr h, g') \<and> gstate g = gstate (gpkg w)"
  using attempts_GetHealth_frame
  by (cases n) (fastforce simp: Activity_GetHealth_def worker_now_def Let_def split: prod.splits sum.splits)+

lemma attempts_Diagnose:
  "escalationStore (snd (attempts n (ActDiagnose h) w)) = escalationStore w \<and>
   gpkg (snd (attempts n (ActDiagnose h) w)) = gpkg w \<and>
   (\<forall>k. k \<noteq> ''diag-'' @ GPUID h \<longrightarrow>
      GetDiagByID (diagnosisStore (snd (attempts n (ActDiagnose h) w))) k = GetDiagByID (diagnosisStore w) k) \<and>
   (\<forall>v. fst (attempts n (ActDiagnose h) w) = Some (Inr v) \<longrightarrow>
      (\<exists>ts. v = VDiagnosis (Analyze h ts) \<and>
        GetDiagByID (diagnosisStore (snd (attempts n (ActDiagnose h) w))) (''diag-'' @ GPUID h) = Some (Analyze h ts)))"
  by (induction n)
     (auto simp: Activity_Diagnose_def worker_now_def Let_def diag_store.get_save Analyze_def split: prod.splits)

lemma attempts_Escalate:
  "diagnosisStore (snd (attempts n (ActEscalate d) w)) = diagnosisStore w \<and>
   gpkg (snd (attempts n (ActEscalate d) w)) = gpkg w \<and>
   (\<forall>k. k \<noteq> ''esc-'' @ DGPUID d \<longrightarrow>
      GetEscByID (escalationStore (snd (attempts n (ActEscalate d) w))) k = GetEscByID (escalationStore w) k) \<and>
   (\<forall>v. fst (attempts n (ActEscalate d) w) = Some (Inr v) \<longrightarrow>
      (\<exists>e. GetEscByID (escalationStore (snd (attempts n (ActEscalate d) w))) (''esc-'' @ DGPUID d) = Some e \<and>
        EStatus e = StatusOpen \<and> EGPUID e = DGPUID d \<and> DiagnosisID e = ID d \<and>
        ESeverity e = string_of_Severity (DSeverity d) \<and> ResolvedAt e = None))"
  by (induction n)
     (auto simp: Activity_Escalate_def worker_now_def Let_def esc_store.get_save split: prod.splits)

section \<open>Runs of the workflow\<close>

text \<open>
  The health step of a successful run reads a snapshot of the fleet as it is; the rest of the
  run is determined by the diagnosis of that snapshot.
\<close>

lemma MonitorGPU_run:
  assumes "temporal_exec exec" and "MonitorGPU exec i w = (Inr (), w')"
  obtains h now g g' ts where "GetHealth now i g = (Inr h, g')" and "gstate g = gstate (gpkg w)"
    and "gstate (gpkg w') = gstate (gpkg w)"
    and "GetDiagByID (diagnosisStore w') (''diag-'' @ i) = Some (Analyze h ts)"
    and "\<And>k. k \<noteq> ''diag-'' @ i \<Longrightarrow> GetDiagByID (diagnosisStore w') k = GetDiagByID (diagnosisStore w) k"
    and "severity_spec h \<noteq> SeverityCritical \<Longrightarrow> escalationStore w' = escalationStore w"
    and "\<And>k. k \<noteq> ''esc-'' @ i \<Longrightarrow> GetEscByID (escalationStore w') k = GetEscByID (escalationStore w) k"
    and "severity_spec h = SeverityCritical \<Longrightarrow>
      \<exists>e. GetEscByID (escalationStore w') (''esc-'' @ i) = Some e \<and> EStatus e = StatusOpen \<and> EGPUID e = i \<and>
        DiagnosisID e = ''diag-'' @ i \<and> ESeverity e = ''critical'' \<and> ResolvedAt e = None"
proof -
  obtain r1 w1 where r1: "exec (ActGetHealth i) w = (r1, w1)" by fastforce
  have "\<exists>v. r1 = Inr v" using assms(2) by (cases r1) (simp_all add: MonitorGPU_def r1)
  then obtain v where x1: "exec (ActGetHealth i) w = (Inr v, w1)" using r1 by blast
  obtain n1 where n1: "w1 = snd (attempts n1 (ActGetHealth i) w)" "fst (attempts n1 (ActGetHealth i) w) = Some (Inr v)"
    by (rule temporal_execE [OF assms(1) x1])
  obtain h now g g' where h: "v = VHealth h" "GetHealth now i g = (Inr h, g')" "gstate g = gstate (gpkg w)"
    using attempts_GetHealth_result [OF n1(2)] by blast
  have gid: "GPUID h = i" using h(2) by (rule GetHealth_GPUID)
  note f1 = attempts_GetHealth_frame [of n1 i w, folded n1(1)]
  obtain r2 w2 where r2: "exec (ActDiagnose h) w1 = (r2, w2)" by fastforce
  have "\<exists>u. r2 = Inr u" using assms(2) by (cases r2) (simp_all add: MonitorGPU_def x1 h(1) r2)
  then obtain u where x2: "exec (ActDiagnose h) w1 = (Inr u, w2)" using r2 by blast
  obtain n2 where n2: "w2 = snd (attempts n2 (ActDiagnose h) w1)" "fst (attempts n2 (ActDiagnose h) w1) = Some (Inr u)"
    by (rule temporal_execE [OF assms(1) x2])
  note f2 = attempts_Diagnose [of n2 h w1, folded n2(1), unfolded gid]
  obtain ts where ts: "u = VDiagnosis (Analyze h ts)" "GetDiagByID (diagnosisStore w2) (''diag-'' @ i) = Some (Analyze h ts)"
    using f2 n2(2) by blast
  have sev: "DSeverity (Analyze h ts) = severity_spec h" "DGPUID (Analyze h ts) = i" "ID (Analyze h ts) = ''diag-'' @ i"
    by (simp_all add: Analyze_def GetWorstSeverity_findings gid Let_def)
  show ?thesis
  proof (cases "severity_spec h = SeverityCritical")
    case False
    then have "w' = w2" using assms(2) x1 x2 h(1) ts(1) sev by (simp add: MonitorGPU_def)
    then show ?thesis using that [OF h(2,3), of ts] False f1 f2 ts(2) by simp
  next
    case True
    obtain r w3 where x: "exec (ActEscalate (Analyze h ts)) w2 = (r, w3)" by fastforce
    have "(case r of Inl e \<Rightarrow> (Inl e, w3) | Inr _ \<Rightarrow> (Inr (), w3)) = (Inr (), w')"
      using assms(2) by (simp add: MonitorGPU_def x1 x2 h(1) ts(1) sev True x)
    then obtain y where x3: "exec (ActEscalate (Analyze h ts)) w2 = (Inr y, w')"
      using x by (cases r) auto
    obtain n3 where n3: "w' = snd (attempts n3 (ActEscalate (Analyze h ts)) w2)"
      "fst (attempts n3 (ActEscalate (Analyze h ts)) w2) = Some (Inr y)"
      by (rule temporal_execE [OF assms(1) x3])
    note f3 = attempts_Escalate [of n3 "Analyze h ts" w2, folded n3(1), unfolded sev]
    show ?thesis using that [OF h(2,3), of ts] True f1 f2 f3 ts(2) n3(2) by simp
  qed
qed

section \<open>What the analyzer makes of a snapshot\<close>

lemma snapshot_critical:
  assumes "snapshot_ok n st h" and "state_ok st" and "critical_reading h"
  shows "failureType st = FailureTypeECCDouble \<or> failureType st = FailureTypeThermal"
proof (rule ccontr)
  assume "\<not> ?thesis"
  with assms(1,2) have "reading_status FailureTypeThermal (failureType st) (status st) = StatusHealthy"
    and "ECCDoubleBitErrors (Mem h) = 0"
    by (auto simp: snapshot_ok_def reading_status_def state_ok_def ecc_ok_def)
  with assms(1,3) show False by (auto simp: snapshot_ok_def critical_reading_def Let_def)
qed

lemma snapshot_not_critical:
  assumes "snapshot_ok n st h" and "state_ok st"
    and "failureType st \<notin> {FailureTypeECCDouble, FailureTypeThermal}"
  shows "\<not> critical_reading h"
  using snapshot_critical [OF assms(1,2)] assms(3) by blast

lemma snapshot_double:
  assumes "snapshot_ok n st h" and "failureType st = FailureTypeECCDouble"
  shows "severity_spec h = SeverityCritical"
proof -
  have "1 \<le> unat (ECCDoubleBitErrors (Mem h))" using assms by (simp add: snapshot_ok_def ecc_ok_def)
  then show ?thesis by (simp add: severity_spec_def graded_def critical_reading_def)
qed

lemma snapshot_thermal:
  assumes "snapshot_ok n st h" and "failureType st = FailureTypeThermal" and "status st = StatusCritical"
  shows "severity_spec h = SeverityCritical"
proof -
  have "GPUCoreCriticalThreshold (Temp h) \<le> GPUCoreCelsius (Temp h)"
    using assms by (simp add: snapshot_ok_def reading_status_def)
  then show ?thesis by (simp add: severity_spec_def graded_def critical_reading_def)
qed

lemma snapshot_power:
  assumes "snapshot_ok n st h" and "state_ok st" and "failureType st = FailureTypePower"
  shows "severity_spec h = SeverityHigh"
proof -
  have "PowerCapped (Pow h)" using assms(1,3) by (simp add: snapshot_ok_def)
  moreover have "\<not> critical_reading h" using snapshot_not_critical [OF assms(1,2)] assms(3) by simp
  ultimately show ?thesis by (simp add: severity_spec_def graded_def)
qed

lemma snapshot_mild:
  assumes "snapshot_ok n st h" and "state_ok st" and "failureType st \<in> {FailureTypeNone, FailureTypeECCSingle}"
  shows "severity_spec h \<in> {SeverityLow, SeverityMedium}"
proof -
  have "\<not> PowerCapped (Pow h)" using assms(1,3) by (auto simp: snapshot_ok_def)
  moreover have "\<not> critical_reading h" using snapshot_not_critical [OF assms(1,2)] assms(3) by auto
  ultimately show ?thesis by (simp add: severity_spec_def graded_def)
qed

section \<open>The worker process\<close>

text \<open>
  The worker runs activities of many workflow executions against its own copy of the simulator and
  of the two stores. A run of the process is a sequence of activity executions, in which a health
  snapshot is diagnosed only after it was read, and a diagnosis is escalated only after it was made
  and found critical; the sets collect what was read and diagnosed so far. The worker process starts no
  ticker and serves no recover or replace request.
\<close>

inductive worker_run :: "worker \<Rightarrow> GPUHealth set \<Rightarrow> Diagnosis set \<Rightarrow> bool" where
  worker_start: "worker_run (worker_init src c) {} {}"
| worker_health: "worker_run w H D \<Longrightarrow> Activity_GetHealth i w = (Inr h, w') \<Longrightarrow> worker_run w' (insert h H) D"
| worker_health_error: "worker_run w H D \<Longrightarrow> Activity_GetHealth i w = (Inl e, w') \<Longrightarrow> worker_run w' H D"
| worker_diagnose: "worker_run w H D \<Longrightarrow> h \<in> H \<Longrightarrow> Activity_Diagnose h w = (d, w') \<Longrightarrow> worker_run w' H (insert d D)"
| worker_escalate: "worker_run w H D \<Longrightarrow> d \<in> D \<Longrightarrow> DSeverity d = SeverityCritical \<Longrightarrow>
    Activity_Escalate d w = (e, w') \<Longrightarrow> worker_run w' H D"

text \<open>Every execution of the workflow is such a sequence of steps, whatever the retries.\<close>

lemma attempts_GetHealth_run:
  assumes "worker_run w H D"
  shows "\<exists>H'. worker_run (snd (attempts n (ActGetHealth i) w)) H' D \<and>
    (\<forall>h. fst (attempts n (ActGetHealth i) w) = Some (Inr (VHealth h)) \<longrightarrow> h \<in> H')"
proof (induction n)
  case 0
  then show ?case using assms by auto
next
  case (Suc n)
  then obtain H' where r: "worker_run (snd (attempts n (ActGetHealth i) w)) H' D" by blast
  obtain x w' where a: "Activity_GetHealth i (snd (attempts n (ActGetHealth i) w)) = (x, w')" by fastforce
  show ?case using worker_health [OF r] worker_health_error [OF r] a by (cases x) fastforce+
qed

lemma attempts_Diagnose_run:
  assumes "worker_run w H D" and "h \<in> H"
  shows "\<exists>D'. worker_run (snd (attempts n (ActDiagnose h) w)) H D' \<and>
    (\<forall>d. fst (attempts n (ActDiagnose h) w) = Some (Inr (VDiagnosis d)) \<longrightarrow> d \<in> D')"
proof (induction n)
  case (Suc n)
  then obtain D' where r: "worker_run (snd (attempts n (ActDiagnose h) w)) H D'" by blast
  obtain d w' where a: "Activity_Diagnose h (snd (attempts n (ActDiagnose h) w)) = (d, w')" by fastforce
  show ?case using worker_diagnose [OF r assms(2) a] a by auto
qed (use assms in auto)

lemma attempts_Escalate_run:
  assumes "worker_run w H D" and "d \<in> D" and "DSeverity d = SeverityCritical"
  shows "worker_run (snd (attempts n (ActEscalate d) w)) H D"
proof (induction n)
  case (Suc n)
  obtain e w' where a: "Activity_Escalate d (snd (attempts n (ActEscalate d) w)) = (e, w')" by fastforce
  show ?case using worker_escalate [OF Suc assms(2,3) a] a by simp
qed (use assms in simp)

lemma temporal_exec_attempts:
  assumes "temporal_exec exec" and "exec a w = (r, w')"
  obtains n where "w' = snd (attempts n a w)" and "case r of Inl _ \<Rightarrow> True | Inr v \<Rightarrow> fst (attempts n a w) = Some (Inr v)"
proof -
  obtain n where "snd (exec a w) = snd (attempts n a w)"
    "\<forall>v. fst (exec a w) = Inr v \<longrightarrow> fst (attempts n a w) = Some (Inr v)"
    using assms(1) unfolding temporal_exec_def by blast
  with that [of n] assms(2) show thesis by (auto split: sum.splits)
qed

lemma MonitorGPU_worker_run:
  assumes "temporal_exec exec" and "worker_run w H D" and "MonitorGPU exec i w = (res, w')"
  shows "\<exists>H' D'. worker_run w' H' D'"
proof -
  obtain r1 w1 where x1: "exec (ActGetHealth i) w = (r1, w1)" by fastforce
  from temporal_exec_attempts [OF assms(1) x1] obtain n1 where n1: "w1 = snd (attempts n1 (ActGetHealth i) w)"
    "case r1 of Inl _ \<Rightarrow> True | Inr v \<Rightarrow> fst (attempts n1 (ActGetHealth i) w) = Some (Inr v)" .
  from attempts_GetHealth_run [OF assms(2), of n1 i] obtain H1 where run1: "worker_run w1 H1 D"
    and h1: "\<And>h. fst (attempts n1 (ActGetHealth i) w) = Some (Inr (VHealth h)) \<Longrightarrow> h \<in> H1"
    unfolding n1(1) by blast
  show ?thesis
  proof (cases "\<exists>h. r1 = Inr (VHealth h)")
    case False
    then have "w' = w1" using assms(3) by (simp add: MonitorGPU_def x1 split: sum.splits act_value.splits)
    then show ?thesis using run1 by blast
  next
    case True
    then obtain h where h: "r1 = Inr (VHealth h)" by blast
    have hH: "h \<in> H1" using n1(2) h h1 by simp
    obtain r2 w2 where x2: "exec (ActDiagnose h) w1 = (r2, w2)" by fastforce
    from temporal_exec_attempts [OF assms(1) x2] obtain n2 where n2: "w2 = snd (attempts n2 (ActDiagnose h) w1)"
      "case r2 of Inl _ \<Rightarrow> True | Inr v \<Rightarrow> fst (attempts n2 (ActDiagnose h) w1) = Some (Inr v)" .
    from attempts_Diagnose_run [OF run1 hH, of n2] obtain D2 where run2: "worker_run w2 H1 D2"
      and d2: "\<And>d. fst (attempts n2 (ActDiagnose h) w1) = Some (Inr (VDiagnosis d)) \<Longrightarrow> d \<in> D2"
      unfolding n2(1) by blast
    show ?thesis
    proof (cases "\<exists>d. r2 = Inr (VDiagnosis d) \<and> DSeverity d = SeverityCritical")
      case False
      then have "w' = w2" using assms(3) by (simp add: MonitorGPU_def x1 h x2 split: sum.splits act_value.splits if_splits)
      then show ?thesis using run2 by blast
    next
      case True
      then obtain d where d: "r2 = Inr (VDiagnosis d)" "DSeverity d = SeverityCritical" by blast
      obtain r3 w3 where x3: "exec (ActEscalate d) w2 = (r3, w3)" by fastforce
      from temporal_exec_attempts [OF assms(1) x3] obtain n3 where "w3 = snd (attempts n3 (ActEscalate d) w2)" .
      moreover have "d \<in> D2" using n2(2) d d2 by simp
      moreover have "w' = w3" using assms(3) by (simp add: MonitorGPU_def x1 h x2 d x3 split: sum.splits)
      ultimately show ?thesis using attempts_Escalate_run [OF run2 _ d(2)] by blast
    qed
  qed
qed

lemma snapshot_of_healthy:
  assumes "gstate g = states (NewStore gpuIDs)" and "GetHealth now i g = (Inr h, g')"
  shows "severity_spec h \<noteq> SeverityCritical"
proof -
  have "i \<in> set AllIDs"
  proof (rule ccontr)
    assume "i \<notin> set AllIDs"
    then have "gstate g i = None" using assms(1) by (simp add: AllIDs_def)
    then show False using GetHealth_unknown [of g i now] assms(2) by auto
  qed
  then obtain n where n: "1 \<le> n" "n \<le> 10000" "i = gpu_id n" by (auto simp: set_AllIDs)
  have st: "gstate g (gpu_id n) = Some (mk_state StatusHealthy FailureTypeNone)"
    using assms(1) \<open>i \<in> set AllIDs\<close> n(3) by (simp add: AllIDs_def)
  have ok: "state_ok (mk_state StatusHealthy FailureTypeNone)" by (simp add: state_ok_def)
  obtain h' g'' where "GetHealth now (gpu_id n) g = (Inr h', g'')" "snapshot_ok n (mk_state StatusHealthy FailureTypeNone) h'"
    using GetHealth_snapshot [OF n(1,2) st ok] by blast
  then have "snapshot_ok n (mk_state StatusHealthy FailureTypeNone) h" using assms(2) n(3) by simp
  from snapshot_mild [OF this ok] show ?thesis by auto
qed

lemma worker_run_inv:
  "worker_run w H D \<Longrightarrow> gstate (gpkg w) = states (NewStore gpuIDs) \<and> escalationStore w = NewEscStore \<and>
     (\<forall>h\<in>H. severity_spec h \<noteq> SeverityCritical) \<and> (\<forall>d\<in>D. DSeverity d \<noteq> SeverityCritical)"
proof (induction rule: worker_run.induct)
  case (worker_start src c)
  then show ?case by (simp add: worker_init_def gpu_init_def)
next
  case (worker_health w H D i h w')
  obtain now w1 where now: "worker_now w = (now, w1)" by fastforce
  have w1: "gpkg w1 = gpkg w" "escalationStore w1 = escalationStore w" using now by (auto simp: worker_now_def)
  obtain g where g: "GetHealth now i (gpkg w) = (Inr h, g)" "w' = w1\<lparr>gpkg := g\<rparr>"
    using worker_health.hyps(2) w1 by (auto simp: Activity_GetHealth_def now split: prod.splits)
  have "gstate g = gstate (gpkg w)" using GetHealth_frame [of now i "gpkg w"] g(1) by simp
  moreover have "severity_spec h \<noteq> SeverityCritical" using snapshot_of_healthy [OF _ g(1)] worker_health.IH by blast
  ultimately show ?case using worker_health.IH g w1 by auto
next
  case (worker_health_error w H D i e w')
  have "gstate (gpkg w') = gstate (gpkg w)" "escalationStore w' = escalationStore w"
    using worker_health_error.hyps(2) GetHealth_frame
    by (auto simp: Activity_GetHealth_def worker_now_def Let_def split: prod.splits) (metis snd_conv)
  then show ?case using worker_health_error.IH by simp
next
  case (worker_diagnose w H D h d w')
  then have "DSeverity d \<noteq> SeverityCritical"
    by (auto simp: Activity_Diagnose_def worker_now_def Let_def Analyze_def GetWorstSeverity_findings)
  moreover have "gpkg w' = gpkg w" "escalationStore w' = escalationStore w"
    using worker_diagnose.hyps(3) by (auto simp: Activity_Diagnose_def worker_now_def Let_def)
  ultimately show ?case using worker_diagnose.IH by auto
next
  case (worker_escalate w H D d e w')
  then show ?case by blast
qed

end
