(* ===== verification/Worker_Pool.thy ===== *)
theory Worker_Pool
  imports Services
begin

text \<open>
  The worker pool of the telemetry service and its two consumers
  (\<^verbatim>\<open>runWorkerPool\<close>, \<^verbatim>\<open>fetchAllGPUs\<close> and \<^verbatim>\<open>streamSnapshot\<close> of \<^verbatim>\<open>cmd/telemetry/main.go\<close>): a
  feeder goroutine, a hundred worker goroutines, a goroutine that closes the results channel and
  the handler that receives, over two buffered channels, with a context that may be cancelled at
  any time and a simulator that keeps changing underneath. One step of the relation is one channel
  operation of one goroutine. The theorems: no send on a closed channel; without cancellation the
  handler receives exactly one snapshot of every GPU; no goroutine is ever stuck and every run ends.
\<close>

section \<open>State\<close>

definition workerPoolSize :: nat where
  "workerPoolSize = 100"

datatype worker_pc = Receiving | Sending GPUHealth | Returned

datatype consumer_pc = Collecting | Complete | Abandoned

record pool =
  todo :: "string list"  \<comment> \<open>the identifiers the feeder has still to send\<close>
  jobs :: "string list"
  jobs_closed :: bool
  workers :: "worker_pc list"
  results :: "GPUHealth list"
  results_closed :: bool
  healths :: "GPUHealth list"  \<comment> \<open>what the handler has received\<close>
  consumer :: consumer_pc
  cancelled :: bool
  crashed :: bool
  sim :: gpu_pkg

definition runWorkerPool :: "gpu_pkg \<Rightarrow> string list \<Rightarrow> pool" where
  "runWorkerPool g ids = \<lparr>todo = ids, jobs = [], jobs_closed = False,
     workers = replicate workerPoolSize Receiving, results = [], results_closed = False, healths = [],
     consumer = Collecting, cancelled = False, crashed = False, sim = g\<rparr>"

section \<open>Steps\<close>

definition goto_pc :: "nat \<Rightarrow> worker_pc \<Rightarrow> pool \<Rightarrow> pool" where
  "goto_pc i pc p = p\<lparr>workers := (workers p)[i := pc]\<rparr>"

inductive pool_step :: "pool \<Rightarrow> pool \<Rightarrow> bool" where
  feed: "todo p = gid # ids \<Longrightarrow> \<not> jobs_closed p \<Longrightarrow> length (jobs p) < workerPoolSize \<Longrightarrow>
    pool_step p (p\<lparr>todo := ids, jobs := jobs p @ [gid]\<rparr>)"
| feed_cancelled: "todo p \<noteq> [] \<Longrightarrow> \<not> jobs_closed p \<Longrightarrow> cancelled p \<Longrightarrow>
    pool_step p (p\<lparr>todo := [], jobs_closed := True\<rparr>)"
| feed_close: "todo p = [] \<Longrightarrow> \<not> jobs_closed p \<Longrightarrow> pool_step p (p\<lparr>jobs_closed := True\<rparr>)"
| work: "i < length (workers p) \<Longrightarrow> workers p ! i = Receiving \<Longrightarrow> jobs p = gid # js \<Longrightarrow>
    GetHealth now gid (sim p) = (Inr h, g) \<Longrightarrow>
    pool_step p (goto_pc i (Sending h) (p\<lparr>jobs := js, sim := g\<rparr>))"
| work_error: "i < length (workers p) \<Longrightarrow> workers p ! i = Receiving \<Longrightarrow> jobs p = gid # js \<Longrightarrow>
    GetHealth now gid (sim p) = (Inl e, g) \<Longrightarrow>
    pool_step p (p\<lparr>jobs := js, sim := g\<rparr>)"
| work_done: "i < length (workers p) \<Longrightarrow> workers p ! i = Receiving \<Longrightarrow> jobs p = [] \<Longrightarrow> jobs_closed p \<Longrightarrow>
    pool_step p (goto_pc i Returned p)"
| send: "i < length (workers p) \<Longrightarrow> workers p ! i = Sending h \<Longrightarrow> \<not> results_closed p \<Longrightarrow>
    length (results p) < workerPoolSize \<Longrightarrow>
    pool_step p (goto_pc i Receiving (p\<lparr>results := results p @ [h]\<rparr>))"
| send_closed: "i < length (workers p) \<Longrightarrow> workers p ! i = Sending h \<Longrightarrow> results_closed p \<Longrightarrow>
    pool_step p (p\<lparr>crashed := True\<rparr>)"
| send_cancelled: "i < length (workers p) \<Longrightarrow> workers p ! i = Sending h \<Longrightarrow> cancelled p \<Longrightarrow>
    pool_step p (goto_pc i Returned p)"
| wait_close: "set (workers p) \<subseteq> {Returned} \<Longrightarrow> \<not> results_closed p \<Longrightarrow>
    pool_step p (p\<lparr>results_closed := True\<rparr>)"
| receive: "consumer p = Collecting \<Longrightarrow> results p = h # hs \<Longrightarrow>
    pool_step p (p\<lparr>results := hs, healths := healths p @ [h]\<rparr>)"
| receive_closed: "consumer p = Collecting \<Longrightarrow> results p = [] \<Longrightarrow> results_closed p \<Longrightarrow>
    pool_step p (p\<lparr>consumer := Complete\<rparr>)"
| receive_cancelled: "consumer p = Collecting \<Longrightarrow> cancelled p \<Longrightarrow>
    pool_step p (p\<lparr>consumer := Abandoned\<rparr>)"

text \<open>What happens around the pool: the context is cancelled, the simulator moves on.\<close>

inductive env_step :: "pool \<Rightarrow> pool \<Rightarrow> bool" where
  env_cancel: "env_step p (p\<lparr>cancelled := True\<rparr>)"
| env_sim: "sim_step (sim p) g \<Longrightarrow> env_step p (p\<lparr>sim := g\<rparr>)"

inductive pool_reachable :: "pool \<Rightarrow> bool" where
  pool_start: "sim_reachable g \<Longrightarrow> pool_reachable (runWorkerPool g AllIDs)"
| pool_next: "pool_reachable p \<Longrightarrow> pool_step p p' \<Longrightarrow> pool_reachable p'"
| pool_env: "pool_reachable p \<Longrightarrow> env_step p p' \<Longrightarrow> pool_reachable p'"

text \<open>
  The reply of the two handlers once their loop has ended: the list as one JSON document, and the
  events of the stream. Nothing is written when the context ended first.
\<close>

definition fetchAllGPUs :: "pool \<Rightarrow> GPUHealth list response" where
  "fetchAllGPUs p = (case consumer p of Complete \<Rightarrow> Json 200 (healths p) | _ \<Rightarrow> NoBody 200)"

datatype event = Data GPUHealth | Done

definition streamSnapshot :: "pool \<Rightarrow> event list" where
  "streamSnapshot p = map Data (healths p) @ (if consumer p = Complete then [Done] else [])"

section \<open>Sums over the workers\<close>

lemma sum_list_update:
  fixes f :: "'a \<Rightarrow> 'b :: comm_monoid_add"
  assumes "i < length xs"
  shows "sum_list (map f (xs[i := x])) + f (xs ! i) = sum_list (map f xs) + f x"
  using assms by (induction xs arbitrary: i) (auto simp: ac_simps split: nat.splits)

fun carried :: "worker_pc \<Rightarrow> string multiset" where
  "carried (Sending h) = {#GPUID h#}"
| "carried _ = {#}"

definition in_flight :: "pool \<Rightarrow> string multiset" where
  "in_flight p = mset (todo p) + mset (jobs p) + sum_list (map carried (workers p)) +
     mset (map GPUID (results p)) + mset (map GPUID (healths p))"

fun pc_work :: "worker_pc \<Rightarrow> nat" where
  "pc_work (Sending _) = 3"
| "pc_work Receiving = 1"
| "pc_work Returned = 0"

definition pool_work :: "pool \<Rightarrow> nat" where
  "pool_work p = 4 * length (todo p) + 3 * length (jobs p) + sum_list (map pc_work (workers p)) + length (results p) +
     (if jobs_closed p then 0 else 1) + (if results_closed p then 0 else 1) + (if consumer p = Collecting then 1 else 0)"

lemma carried_idle: "sum_list (map carried (replicate n Receiving)) = {#}"
  by (induction n) simp_all

lemma carried_goto:
  assumes "i < length (workers p)" and "workers p ! i = old"
  shows "sum_list (map carried (workers (goto_pc i pc p))) + carried old = sum_list (map carried (workers p)) + carried pc"
  using sum_list_update [OF assms(1), of carried] assms(2) by (simp add: goto_pc_def)

lemma pc_work_goto:
  assumes "i < length (workers p)" and "workers p ! i = old"
  shows "sum_list (map pc_work (workers (goto_pc i pc p))) + pc_work old = sum_list (map pc_work (workers p)) + pc_work pc"
  using sum_list_update [OF assms(1), of pc_work] assms(2) by (simp add: goto_pc_def)

lemma goto_pc_frame [simp]:
  "todo (goto_pc i pc p) = todo p" "jobs (goto_pc i pc p) = jobs p" "jobs_closed (goto_pc i pc p) = jobs_closed p"
  "results (goto_pc i pc p) = results p" "results_closed (goto_pc i pc p) = results_closed p"
  "healths (goto_pc i pc p) = healths p" "consumer (goto_pc i pc p) = consumer p"
  "cancelled (goto_pc i pc p) = cancelled p" "crashed (goto_pc i pc p) = crashed p" "sim (goto_pc i pc p) = sim p"
  "length (workers (goto_pc i pc p)) = length (workers p)"
  by (simp_all add: goto_pc_def)

section \<open>Invariant\<close>

definition reading_ok :: "GPUHealth \<Rightarrow> bool" where
  "reading_ok h \<longleftrightarrow> (\<exists>n st. 1 \<le> n \<and> n \<le> 10000 \<and> state_ok st \<and> snapshot_ok n st h)"

definition chans_inv :: "pool \<Rightarrow> bool" where
  "chans_inv p \<longleftrightarrow> length (workers p) = workerPoolSize \<and> length (jobs p) \<le> workerPoolSize \<and>
     length (results p) \<le> workerPoolSize \<and> (jobs_closed p \<longrightarrow> todo p = []) \<and>
     (Returned \<in> set (workers p) \<longrightarrow> jobs_closed p \<and> jobs p = [] \<or> cancelled p) \<and>
     (results_closed p \<longrightarrow> set (workers p) \<subseteq> {Returned}) \<and>
     (consumer p = Complete \<longrightarrow> results_closed p \<and> results p = []) \<and>
     (consumer p = Abandoned \<longrightarrow> cancelled p) \<and> \<not> crashed p"

definition readings_inv :: "pool \<Rightarrow> bool" where
  "readings_inv p \<longleftrightarrow> fleet_inv (sim p) \<and> (\<forall>h. Sending h \<in> set (workers p) \<longrightarrow> reading_ok h) \<and>
     (\<forall>h \<in> set (results p). reading_ok h) \<and> (\<forall>h \<in> set (healths p). reading_ok h)"

definition flow_inv :: "pool \<Rightarrow> bool" where
  "flow_inv p \<longleftrightarrow> in_flight p \<subseteq># mset AllIDs \<and> (\<not> cancelled p \<longrightarrow> in_flight p = mset AllIDs)"

lemma set_goto_pc: "x \<in> set (workers (goto_pc i pc p)) \<Longrightarrow> x = pc \<or> x \<in> set (workers p)"
  using set_update_subset_insert [of "workers p" i pc] by (auto simp: goto_pc_def)

lemma worker_mem: "i < length (workers p) \<Longrightarrow> workers p ! i = x \<Longrightarrow> x \<in> set (workers p)"
  using nth_mem by blast

lemma chans_inv_step: "pool_step p p' \<Longrightarrow> chans_inv p \<Longrightarrow> chans_inv p'"
proof (induction rule: pool_step.induct)
  case (work i p gid js now h g)
  then show ?case using worker_mem [OF work(1,2)] by (auto simp: chans_inv_def dest!: set_goto_pc)
next
  case (work_error i p gid js now e g)
  then show ?case using worker_mem [OF work_error(1,2)] by (auto simp: chans_inv_def)
next
  case (work_done i p)
  then show ?case using worker_mem [OF work_done(1,2)] by (auto simp: chans_inv_def dest!: set_goto_pc)
next
  case (send i p h)
  then show ?case using worker_mem [OF send(1,2)] by (auto simp: chans_inv_def dest!: set_goto_pc)
next
  case (send_closed i p h)
  then show ?case using worker_mem [OF send_closed(1,2)] by (auto simp: chans_inv_def)
next
  case (send_cancelled i p h)
  then show ?case using worker_mem [OF send_cancelled(1,2)] by (auto simp: chans_inv_def dest!: set_goto_pc)
qed (auto simp: chans_inv_def)

lemma GetHealth_known:
  assumes "fleet_inv g" and "gid \<in> set AllIDs" and "GetHealth now gid g = (r, g')"
  shows "\<exists>h. r = Inr h \<and> reading_ok h \<and> GPUID h = gid"
proof -
  obtain n where n: "1 \<le> n" "n \<le> 10000" "gid = gpu_id n" using assms(2) by (auto simp: set_AllIDs)
  obtain st where st: "gstate g gid = Some st" "state_ok st" using fleet_inv_Some [OF assms(1,2)] by blast
  show ?thesis using GetHealth_snapshot [OF n(1,2), of g st now] st n assms(3)
    by (auto simp: reading_ok_def snapshot_ok_def)
qed

lemma fleet_inv_GetHealth: "fleet_inv g \<Longrightarrow> GetHealth now gid g = (r, g') \<Longrightarrow> fleet_inv g'"
  using GetHealth_frame [of now gid g] GetHealth_hub [of now gid g] by (simp add: fleet_inv_def)

lemma jobs_known: "flow_inv p \<Longrightarrow> jobs p = gid # js \<Longrightarrow> gid \<in> set AllIDs"
  using mset_subset_eqD [of "in_flight p" "mset AllIDs" gid] by (simp add: flow_inv_def in_flight_def)

lemma readings_inv_step:
  assumes "pool_step p p'" and "flow_inv p" and "readings_inv p"
  shows "readings_inv p'"
  using assms
proof (induction rule: pool_step.induct)
  case (work i p gid js now h g)
  then have "reading_ok h" "fleet_inv g"
    using GetHealth_known [OF _ jobs_known work(4)] fleet_inv_GetHealth [OF _ work(4)]
    by (auto simp: readings_inv_def)
  with work show ?case by (auto simp: readings_inv_def dest!: set_goto_pc)
next
  case (work_error i p gid js now e g)
  then show ?case using fleet_inv_GetHealth [OF _ work_error(4)] by (auto simp: readings_inv_def)
next
  case (send i p h)
  then show ?case using worker_mem [OF send(1,2)] by (auto simp: readings_inv_def dest!: set_goto_pc)
qed (auto simp: readings_inv_def dest!: set_goto_pc)

lemma flow_inv_step:
  assumes "pool_step p p'" and "flow_inv p" and "readings_inv p"
  shows "flow_inv p'"
  using assms
proof (induction rule: pool_step.induct)
  case (feed_cancelled p)
  have "in_flight (p\<lparr>todo := [], jobs_closed := True\<rparr>) + mset (todo p) = in_flight p" by (simp add: in_flight_def)
  then have "in_flight (p\<lparr>todo := [], jobs_closed := True\<rparr>) \<subseteq># in_flight p" by (metis mset_subset_eq_add_left)
  then show ?case using feed_cancelled by (auto simp: flow_inv_def intro: subset_mset.trans)
next
  case (work i p gid js now h g)
  then have "GPUID h = gid" using GetHealth_known [OF _ jobs_known work(4)] by (auto simp: readings_inv_def)
  then have "in_flight (goto_pc i (Sending h) (p\<lparr>jobs := js, sim := g\<rparr>)) = in_flight p"
    using carried_goto [of i "p\<lparr>jobs := js, sim := g\<rparr>" Receiving "Sending h"] work by (simp add: in_flight_def)
  then show ?case using work by (simp add: flow_inv_def)
next
  case (work_error i p gid js now e g)
  then show ?case using GetHealth_known [OF _ jobs_known work_error(4)] by (auto simp: readings_inv_def)
next
  case (work_done i p)
  then have "in_flight (goto_pc i Returned p) = in_flight p"
    using carried_goto [of i p Receiving Returned] by (simp add: in_flight_def)
  then show ?case using work_done by (simp add: flow_inv_def)
next
  case (send i p h)
  then have "in_flight (goto_pc i Receiving (p\<lparr>results := results p @ [h]\<rparr>)) = in_flight p"
    using carried_goto [of i "p\<lparr>results := results p @ [h]\<rparr>" "Sending h" Receiving] by (simp add: in_flight_def)
  then show ?case using send by (simp add: flow_inv_def)
next
  case (send_cancelled i p h)
  then have "in_flight (goto_pc i Returned p) + {#GPUID h#} = in_flight p"
    using carried_goto [of i p "Sending h" Returned] by (simp add: in_flight_def)
  then have "in_flight (goto_pc i Returned p) \<subseteq># in_flight p" by (metis mset_subset_eq_add_left)
  then show ?case using send_cancelled by (auto simp: flow_inv_def intro: subset_mset.trans)
qed (auto simp: flow_inv_def in_flight_def)

lemma env_inv:
  assumes "env_step p p'" and "chans_inv p" and "flow_inv p" and "readings_inv p"
  shows "chans_inv p' \<and> flow_inv p' \<and> readings_inv p'"
  using assms by (induction rule: env_step.induct)
    (auto simp: chans_inv_def flow_inv_def in_flight_def readings_inv_def intro: fleet_inv_step)

lemma pool_start_inv:
  assumes "sim_reachable g"
  shows "chans_inv (runWorkerPool g AllIDs)" and "flow_inv (runWorkerPool g AllIDs)" and "readings_inv (runWorkerPool g AllIDs)"
  using sim_reachable_inv [OF assms]
  by (auto simp: chans_inv_def flow_inv_def in_flight_def readings_inv_def runWorkerPool_def carried_idle simp del: map_replicate)

lemma pool_inv: "pool_reachable p \<Longrightarrow> chans_inv p \<and> flow_inv p \<and> readings_inv p"
  by (induction rule: pool_reachable.induct)
     (auto intro: pool_start_inv dest: chans_inv_step flow_inv_step readings_inv_step env_inv)

section \<open>Progress\<close>

definition pool_over :: "pool \<Rightarrow> bool" where
  "pool_over p \<longleftrightarrow> jobs_closed p \<and> set (workers p) \<subseteq> {Returned} \<and> results_closed p \<and> consumer p \<noteq> Collecting"

lemma workerE: assumes "x \<in> set (workers p)" obtains i where "i < length (workers p)" and "workers p ! i = x"
  using assms by (auto simp: in_set_conv_nth)

lemma sending_enabled:
  assumes "chans_inv p" and "Sending h \<in> set (workers p)"
  shows "\<exists>p'. pool_step p p'"
proof -
  obtain i where i: "i < length (workers p)" "workers p ! i = Sending h" by (rule workerE [OF assms(2)])
  have open_results: "\<not> results_closed p" using assms by (auto simp: chans_inv_def)
  show ?thesis
  proof (cases "length (results p) < workerPoolSize")
    case True
    then show ?thesis using pool_step.send [OF i open_results] by blast
  next
    case False
    then obtain r rs where r: "results p = r # rs" by (cases "results p") (auto simp: workerPoolSize_def)
    show ?thesis
    proof (cases "consumer p")
      case Collecting
      then show ?thesis using pool_step.receive [OF _ r] by blast
    next
      case Complete
      then show ?thesis using assms r by (auto simp: chans_inv_def)
    next
      case Abandoned
      then show ?thesis using pool_step.send_cancelled [OF i] assms by (auto simp: chans_inv_def)
    qed
  qed
qed

lemma receiving_enabled:
  assumes "Receiving \<in> set (workers p)" and "jobs p \<noteq> [] \<or> jobs_closed p"
  shows "\<exists>p'. pool_step p p'"
proof -
  obtain i where i: "i < length (workers p)" "workers p ! i = Receiving" by (rule workerE [OF assms(1)])
  show ?thesis
  proof (cases "jobs p")
    case Nil
    then show ?thesis using pool_step.work_done [OF i] assms(2) by blast
  next
    case (Cons gid js)
    obtain r g where "GetHealth 0 gid (sim p) = (r, g)" by fastforce
    then show ?thesis using pool_step.work [OF i Cons] pool_step.work_error [OF i Cons] by (cases r) blast+
  qed
qed

lemma pool_enabled:
  assumes "chans_inv p" and "\<not> pool_over p"
  shows "\<exists>p'. pool_step p p'"
proof (cases "\<exists>h. Sending h \<in> set (workers p)")
  case True
  then show ?thesis using sending_enabled [OF assms(1)] by blast
next
  case idle: False
  show ?thesis
  proof (cases "Receiving \<in> set (workers p) \<and> (jobs p \<noteq> [] \<or> jobs_closed p)")
    case True
    then show ?thesis using receiving_enabled by blast
  next
    case False
    show ?thesis
    proof (cases "jobs_closed p")
      case True
      have returned: "set (workers p) \<subseteq> {Returned}"
        using idle False True by (auto, metis worker_pc.exhaust)
      show ?thesis
      proof (cases "results_closed p")
        case False
        then show ?thesis using pool_step.wait_close [OF returned] by blast
      next
        case closed: True
        then have c: "consumer p = Collecting" using assms(2) returned True by (simp add: pool_over_def)
        show ?thesis
          using pool_step.receive_closed [OF c _ closed] pool_step.receive [OF c] by (cases "results p") blast+
      qed
    next
      case open_jobs: False
      show ?thesis
      proof (cases "todo p")
        case Nil
        then show ?thesis using pool_step.feed_close [OF _ open_jobs] by blast
      next
        case (Cons gid ids)
        show ?thesis
        proof (cases "jobs p = []")
          case True
          then show ?thesis using pool_step.feed [OF Cons open_jobs] by (auto simp: workerPoolSize_def)
        next
          case nonempty: False
          have "set (workers p) \<noteq> {}" using assms(1) by (auto simp: chans_inv_def workerPoolSize_def)
          then obtain w where w: "w \<in> set (workers p)" by (meson all_not_in_conv)
          then have "w = Returned" using idle False nonempty by (cases w rule: worker_pc.exhaust) auto
          with w have "Returned \<in> set (workers p)" by simp
          then have "cancelled p" using assms(1) open_jobs by (auto simp: chans_inv_def)
          then show ?thesis using pool_step.feed_cancelled [OF _ open_jobs] Cons by auto
        qed
      qed
    qed
  qed
qed

section \<open>Termination\<close>

lemma pool_work_decreases:
  assumes "pool_step p p'" and "chans_inv p"
  shows "pool_work p' < pool_work p"
  using assms
proof (induction rule: pool_step.induct)
  case (feed_cancelled p)
  then show ?case by (simp add: pool_work_def)
next
  case (work i p gid js now h g)
  then show ?case using pc_work_goto [of i "p\<lparr>jobs := js, sim := g\<rparr>" Receiving "Sending h"] by (simp add: pool_work_def)
next
  case (work_done i p)
  then show ?case using pc_work_goto [of i p Receiving Returned] by (simp add: pool_work_def)
next
  case (send i p h)
  then show ?case using pc_work_goto [of i "p\<lparr>results := results p @ [h]\<rparr>" "Sending h" Receiving] by (simp add: pool_work_def)
next
  case (send_closed i p h)
  then show ?case using worker_mem [OF send_closed(1,2)] by (auto simp: chans_inv_def)
next
  case (send_cancelled i p h)
  then show ?case using pc_work_goto [of i p "Sending h" Returned] by (simp add: pool_work_def)
qed (auto simp: pool_work_def)

lemma env_pool_work: "env_step p p' \<Longrightarrow> pool_work p' = pool_work p"
  by (induction rule: env_step.induct) (simp_all add: pool_work_def)

lemma pool_work_start: "pool_work (runWorkerPool g AllIDs) = 40103"
  by (simp add: pool_work_def runWorkerPool_def sum_list_replicate workerPoolSize_def AllIDs_def gpuIDs_def)

section \<open>A reply cut short\<close>

text \<open>
  When the context of the list request ends, the workers return and the results channel is closed.
  The select of the handler may then take the closed channel instead of the ended context, and the
  list received so far, here none, is sent as a complete reply.
\<close>

lemma workers_return:
  assumes "pool_reachable (p\<lparr>workers := replicate n Receiving\<rparr>)" and "jobs p = []" and "jobs_closed p"
  shows "k \<le> n \<Longrightarrow> pool_reachable (p\<lparr>workers := replicate k Returned @ replicate (n - k) Receiving\<rparr>)"
proof (induction k)
  case 0
  then show ?case using assms(1) by simp
next
  case (Suc k)
  let ?p = "p\<lparr>workers := replicate k Returned @ replicate (n - k) Receiving\<rparr>"
  have "pool_step ?p (goto_pc k Returned ?p)"
    using Suc.prems assms(2,3) by (intro pool_step.work_done) (auto simp: nth_append)
  moreover have "replicate (n - k) Receiving = Receiving # replicate (n - Suc k) Receiving"
    using Suc.prems by (metis Suc_diff_le diff_Suc_Suc replicate_Suc)
  then have "goto_pc k Returned ?p = p\<lparr>workers := replicate (Suc k) Returned @ replicate (n - Suc k) Receiving\<rparr>"
    by (simp add: goto_pc_def list_update_append replicate_append_same)
  ultimately show ?case using Suc pool_next by (metis Suc_leD)
qed

lemma cut_short:
  assumes "sim_reachable g"
  shows "\<exists>p. pool_reachable p \<and> fetchAllGPUs p = Json 200 [] \<and> streamSnapshot p = [Done]"
proof -
  let ?p0 = "runWorkerPool g AllIDs"
  let ?p1 = "?p0\<lparr>cancelled := True\<rparr>"
  let ?p2 = "?p1\<lparr>todo := [], jobs_closed := True\<rparr>"
  let ?p3 = "?p2\<lparr>workers := replicate workerPoolSize Returned\<rparr>"
  let ?p4 = "?p3\<lparr>results_closed := True\<rparr>"
  have "pool_reachable ?p1" using pool_start [OF assms] env_cancel by (rule pool_env)
  moreover have "pool_step ?p1 ?p2"
    by (rule pool_step.feed_cancelled) (simp_all add: runWorkerPool_def AllIDs_def gpuIDs_def)
  ultimately have "pool_reachable ?p2" by (rule pool_next)
  then have "pool_reachable ?p3"
    using workers_return [where p = ?p2 and n = workerPoolSize and k = workerPoolSize] by (simp add: runWorkerPool_def)
  moreover have "pool_step ?p3 ?p4" by (rule pool_step.wait_close) (auto simp: runWorkerPool_def)
  ultimately have "pool_reachable ?p4" by (rule pool_next)
  moreover have "pool_step ?p4 (?p4\<lparr>consumer := Complete\<rparr>)"
    by (rule pool_step.receive_closed) (simp_all add: runWorkerPool_def)
  ultimately have "pool_reachable (?p4\<lparr>consumer := Complete\<rparr>)" by (rule pool_next)
  moreover have "fetchAllGPUs (?p4\<lparr>consumer := Complete\<rparr>) = Json 200 [] \<and> streamSnapshot (?p4\<lparr>consumer := Complete\<rparr>) = [Done]"
    by (simp add: fetchAllGPUs_def streamSnapshot_def runWorkerPool_def)
  ultimately show ?thesis by blast
qed

end
