(* ===== verification/Event_Stream.thy ===== *)
theory Event_Stream
  imports Worker_Pool
begin

text \<open>
  The event stream of the telemetry service (\<^verbatim>\<open>getAllGPUsHandler\<close> and \<^verbatim>\<open>eventStreamAllGPUs\<close> in
  \<^verbatim>\<open>cmd/telemetry/main.go\<close>): after the snapshot of the worker pool the handler subscribes to the hub and
  forwards a fresh reading for every notification, while other goroutines change the fleet.
\<close>

section \<open>The handlers\<close>

fun strings_contains :: "string \<Rightarrow> string \<Rightarrow> bool" where
  "strings_contains [] sub = (sub = [])"
| "strings_contains (c # s) sub = (take (length sub) (c # s) = sub \<or> strings_contains s sub)"

text \<open>
  A stream after its subscription. The identifiers in \<open>unpublished\<close> are those some goroutine has written to the
  store and not yet published, those in \<open>dropped\<close> had a notification refused by the full channel and no
  reading since, and \<open>since\<close> is the store at the time of the subscription; the three are observations, not state of the handler.
\<close>

record stream =
  snapshot :: "event list"
  updates :: "GPUHealth list"
  chn :: nat
  spkg :: gpu_pkg
  unpublished :: "string list"
  dropped :: "string set"
  since :: "string \<rightharpoonup> gpuState"

datatype stream_start = Refused "unit response" | Ended "event list" | Streaming stream

definition eventStreamAllGPUs :: "bool \<Rightarrow> pool \<Rightarrow> string list \<Rightarrow> gpu_pkg \<Rightarrow> stream_start" where
  "eventStreamAllGPUs flusher p us g =
     (if \<not> flusher then Refused (HttpError 500 ''event streaming not supported'')
      else if consumer p \<noteq> Complete then Ended (streamSnapshot p)
      else case Subscribe (DefaultHub g) of (c, h) \<Rightarrow>
        Streaming \<lparr>snapshot = streamSnapshot p, updates = [], chn = c, spkg = g\<lparr>DefaultHub := h\<rparr>, unpublished = us,
          dropped = {}, since = gstate g\<rparr>)"

datatype all_gpus = EventStream stream_start | Listing "GPUHealth list response"

definition getAllGPUsHandler :: "string \<Rightarrow> bool \<Rightarrow> pool \<Rightarrow> string list \<Rightarrow> gpu_pkg \<Rightarrow> all_gpus" where
  "getAllGPUsHandler accept flusher p us g =
     (if strings_contains accept ''text/event-stream'' then EventStream (eventStreamAllGPUs flusher p us g)
      else Listing (fetchAllGPUs p))"

definition waiting :: "stream \<Rightarrow> string list" where
  "waiting s = buf (chans (DefaultHub (spkg s)) (chn s))"

definition receive :: "stream \<Rightarrow> gpu_pkg" where
  "receive s = (let h = DefaultHub (spkg s)
     in (spkg s)\<lparr>DefaultHub := h\<lparr>chans := (chans h)(chn s := (chans h (chn s))\<lparr>buf := tl (waiting s)\<rparr>)\<rparr>\<rparr>)"

text \<open>
  The steps: the loop receives a notification and sends a reading, or goes on when there is none; other goroutines write a
  state, publish it, subscribe and unsubscribe their own channels, draw numbers and change the settings. Receiving and reading is one step:
  a write in between commutes with the receive.
\<close>

inductive stream_step :: "stream \<Rightarrow> stream \<Rightarrow> bool" where
  forward: "waiting s = gid # rest \<Longrightarrow> GetHealth t gid (receive s) = (Inr h, g) \<Longrightarrow>
    stream_step s (s\<lparr>spkg := g, updates := updates s @ [h], dropped := dropped s - {gid}\<rparr>)"
| skip: "waiting s = gid # rest \<Longrightarrow> GetHealth t gid (receive s) = (Inl e, g) \<Longrightarrow> stream_step s (s\<lparr>spkg := g\<rparr>)"
| change: "gid \<in> set AllIDs \<Longrightarrow> state_ok st \<Longrightarrow>
    stream_step s (s\<lparr>spkg := set_state gid (status st) (failureType st) (spkg s), unpublished := gid # unpublished s\<rparr>)"
| notify: "gid \<in> set (unpublished s) \<Longrightarrow>
    stream_step s (s\<lparr>spkg := publish gid (spkg s), unpublished := remove1 gid (unpublished s),
      dropped := (if length (waiting s) < chan_cap then dropped s else insert gid (dropped s))\<rparr>)"
| other_joins: "stream_step s (s\<lparr>spkg := (spkg s)\<lparr>DefaultHub := snd (Subscribe (DefaultHub (spkg s)))\<rparr>\<rparr>)"
| other_leaves: "c \<in> subs (DefaultHub (spkg s)) \<Longrightarrow> c \<noteq> chn s \<Longrightarrow>
    stream_step s (s\<lparr>spkg := (spkg s)\<lparr>DefaultHub := Unsubscribe c (DefaultHub (spkg s))\<rparr>\<rparr>)"
| other: "DefaultStore g = DefaultStore (spkg s) \<Longrightarrow> DefaultHub g = DefaultHub (spkg s) \<Longrightarrow> stream_step s (s\<lparr>spkg := g\<rparr>)"

inductive stream_reachable :: "stream \<Rightarrow> bool" where
  stream_begin: "pool_reachable p \<Longrightarrow> fleet_inv g \<Longrightarrow> set us \<subseteq> set AllIDs \<Longrightarrow> eventStreamAllGPUs True p us g = Streaming s \<Longrightarrow> stream_reachable s"
| stream_next: "stream_reachable s \<Longrightarrow> stream_step s s' \<Longrightarrow> stream_reachable s'"

text \<open>The deferred call when the context is done.\<close>

definition stream_end :: "stream \<Rightarrow> gpu_pkg" where
  "stream_end s = (spkg s)\<lparr>DefaultHub := Unsubscribe (chn s) (DefaultHub (spkg s))\<rparr>"

section \<open>What the client knows\<close>

text \<open>What the client knows of a GPU: the last update it got, before the first one the state at the subscription.\<close>

definition known :: "(string \<rightharpoonup> gpuState) \<Rightarrow> GPUHealth list \<Rightarrow> string \<rightharpoonup> gpuState" where
  "known base us gid =
     (case find (\<lambda>h. GPUID h = gid) (rev us) of None \<Rightarrow> base gid | Some h \<Rightarrow> Some (mk_state (Health h) (Failure h)))"

definition current :: "stream \<Rightarrow> string \<Rightarrow> bool" where
  "current s gid \<longleftrightarrow> gstate (spkg s) gid = known (since s) (updates s) gid"

definition stream_inv :: "stream \<Rightarrow> bool" where
  "stream_inv s \<longleftrightarrow> fleet_inv (spkg s) \<and> chn s \<in> subs (DefaultHub (spkg s)) \<and> set (waiting s) \<subseteq> set AllIDs \<and>
     set (unpublished s) \<subseteq> set AllIDs \<and> (\<forall>h \<in> set (updates s). reading_ok h) \<and>
     (\<forall>gid. gid \<in> set (unpublished s) \<or> gid \<in> set (waiting s) \<or> gid \<in> dropped s \<or> current s gid)"

lemma known_append:
  "known base (us @ [h]) gid = (if GPUID h = gid then Some (mk_state (Health h) (Failure h)) else known base us gid)"
  by (simp add: known_def)

lemma known_Nil [simp]: "known base [] gid = base gid"
  by (simp add: known_def)

lemma receive_frame [simp]:
  "DefaultStore (receive s) = DefaultStore (spkg s)" "subs (DefaultHub (receive s)) = subs (DefaultHub (spkg s))"
  by (simp_all add: receive_def Let_def)

lemma fleet_inv_receive: "fleet_inv (spkg s) \<Longrightarrow> fleet_inv (receive s)"
  by (auto simp: receive_def Let_def waiting_def intro!: fleet_inv_hub)
     (auto simp: fleet_inv_def hub_ok_def intro: order_trans [OF diff_le_self])

lemma fleet_inv_cong: "fleet_inv g \<Longrightarrow> DefaultStore g' = DefaultStore g \<Longrightarrow> DefaultHub g' = DefaultHub g \<Longrightarrow> fleet_inv g'"
  by (simp add: fleet_inv_def)

lemma stream_inv_begin:
  assumes "fleet_inv g" and "set us \<subseteq> set AllIDs" and "eventStreamAllGPUs True p us g = Streaming s"
  shows "stream_inv s"
  using assms hub_ok_Subscribe [of "DefaultHub g"] fleet_inv_hub [OF assms(1)] fleet_inv_hub_ok [OF assms(1)]
  by (auto simp: eventStreamAllGPUs_def stream_inv_def waiting_def current_def Subscribe_def Let_def make_chan_def
      split: if_splits)

lemma stream_invI:
  assumes "fleet_inv (spkg s)" and "chn s \<in> subs (DefaultHub (spkg s))" and "set (waiting s) \<subseteq> set AllIDs"
    and "set (unpublished s) \<subseteq> set AllIDs" and "\<And>h. h \<in> set (updates s) \<Longrightarrow> reading_ok h"
    and "\<And>gid. gid \<notin> set (unpublished s) \<Longrightarrow> gid \<notin> set (waiting s) \<Longrightarrow> gid \<notin> dropped s \<Longrightarrow> current s gid"
  shows "stream_inv s"
  using assms unfolding stream_inv_def by blast

lemma stream_invD:
  assumes "stream_inv s"
  shows "fleet_inv (spkg s)" "chn s \<in> subs (DefaultHub (spkg s))" "set (waiting s) \<subseteq> set AllIDs"
    "set (unpublished s) \<subseteq> set AllIDs" "h \<in> set (updates s) \<Longrightarrow> reading_ok h"
    "gid \<notin> set (unpublished s) \<Longrightarrow> gid \<notin> set (waiting s) \<Longrightarrow> gid \<notin> dropped s \<Longrightarrow> current s gid"
  using assms unfolding stream_inv_def by blast+

text \<open>A notification of the fleet is always answered with a reading of the current state.\<close>

lemma forward_reading:
  assumes "stream_inv s" and "waiting s = gid # rest"
  shows "\<exists>h g. GetHealth t gid (receive s) = (Inr h, g) \<and> reading_ok h \<and> GPUID h = gid \<and> DefaultStore g = DefaultStore (spkg s) \<and>
    DefaultHub g = DefaultHub (receive s) \<and> gstate (spkg s) gid = Some (mk_state (Health h) (Failure h))"
proof -
  have "gid \<in> set AllIDs" using stream_invD(3) [OF assms(1)] assms(2) by auto
  then obtain n where n: "1 \<le> n" "n \<le> 10000" "gid = gpu_id n" by (auto simp: set_AllIDs)
  obtain st where st: "gstate (spkg s) gid = Some st" "state_ok st"
    using fleet_inv_Some [OF stream_invD(1) [OF assms(1)] \<open>gid \<in> set AllIDs\<close>] by blast
  have st': "gstate (receive s) (gpu_id n) = Some st" using st(1) n(3) by simp
  obtain h g where g: "GetHealth t (gpu_id n) (receive s) = (Inr h, g)" "snapshot_ok n st h" "DefaultStore g = DefaultStore (receive s)"
    using GetHealth_snapshot [OF n(1,2) st' st(2), of t] by blast
  have "reading_ok h" unfolding reading_ok_def using n st(2) g(2) by blast
  moreover have "GPUID h = gid" "mk_state (Health h) (Failure h) = st" using g(2) n(3) by (auto simp: snapshot_ok_def mk_state_surj)
  moreover have "DefaultHub g = DefaultHub (receive s)" using GetHealth_hub [of t "gpu_id n" "receive s"] g(1) by simp
  ultimately show ?thesis using g st(1) n(3) by auto
qed

lemma stream_inv_forward:
  assumes "stream_inv s" and "waiting s = gid # rest" and "GetHealth t gid (receive s) = (Inr h, g)"
  shows "stream_inv (s\<lparr>spkg := g, updates := updates s @ [h], dropped := dropped s - {gid}\<rparr>)" (is "stream_inv ?s")
proof -
  have r: "reading_ok h" "GPUID h = gid" "DefaultStore g = DefaultStore (spkg s)" "DefaultHub g = DefaultHub (receive s)"
    "gstate (spkg s) gid = Some (mk_state (Health h) (Failure h))"
    using forward_reading [OF assms(1,2), of t] assms(3) by auto
  have w: "waiting ?s = rest" using r(4) assms(2) by (simp add: waiting_def receive_def Let_def)
  show ?thesis
  proof (rule stream_invI)
    show "fleet_inv (spkg ?s)" using fleet_inv_cong [OF fleet_inv_receive [OF stream_invD(1) [OF assms(1)]], of g] r by simp
    show "chn ?s \<in> subs (DefaultHub (spkg ?s))" using stream_invD(2) [OF assms(1)] r by simp
    show "set (waiting ?s) \<subseteq> set AllIDs" using stream_invD(3) [OF assms(1)] assms(2) w by auto
    show "current ?s i" if "i \<notin> set (unpublished ?s)" "i \<notin> set (waiting ?s)" "i \<notin> dropped ?s" for i
      using stream_invD(6) [OF assms(1), of i] that r assms(2) w
      by (auto simp: current_def known_append)
  qed (use stream_invD(4,5) [OF assms(1)] r in auto)
qed

lemma stream_inv_change:
  assumes "stream_inv s" and "gid \<in> set AllIDs" and "state_ok st"
  shows "stream_inv (s\<lparr>spkg := set_state gid (status st) (failureType st) (spkg s), unpublished := gid # unpublished s\<rparr>)"
    (is "stream_inv ?s")
proof (rule stream_invI)
  show "fleet_inv (spkg ?s)" using stream_invD(1) [OF assms(1)] assms(2,3) by (auto simp: fleet_inv_def set_state_def mk_state_surj)
  show "current ?s i" if "i \<notin> set (unpublished ?s)" "i \<notin> set (waiting ?s)" "i \<notin> dropped ?s" for i
    using stream_invD(6) [OF assms(1), of i] that by (auto simp: current_def waiting_def set_state_def)
qed (use stream_invD(2-5) [OF assms(1)] assms(2) in \<open>auto simp: waiting_def set_state_def\<close>)

lemma waiting_notify:
  assumes "stream_inv s"
  shows "buf (chans (DefaultHub (publish gid (spkg s))) (chn s)) =
    (if length (waiting s) < chan_cap then waiting s @ [gid] else waiting s)"
  using Publish_delivers [OF fleet_inv_hub_ok [OF stream_invD(1) [OF assms]], of gid "chn s"] stream_invD(2) [OF assms]
  by (simp add: publish_def waiting_def)

lemma stream_inv_notify:
  assumes "stream_inv s" and "gid \<in> set (unpublished s)"
  shows "stream_inv (s\<lparr>spkg := publish gid (spkg s), unpublished := remove1 gid (unpublished s),
    dropped := (if length (waiting s) < chan_cap then dropped s else insert gid (dropped s))\<rparr>)" (is "stream_inv ?s")
proof (rule stream_invI)
  show "fleet_inv (spkg ?s)" using fleet_inv_hub [OF stream_invD(1) [OF assms(1)]]
    hub_ok_Publish [OF fleet_inv_hub_ok [OF stream_invD(1) [OF assms(1)]]] by (simp add: publish_def)
  show "set (unpublished ?s) \<subseteq> set AllIDs" using stream_invD(4) [OF assms(1)] by (auto dest: notin_set_remove1)
  show "set (waiting ?s) \<subseteq> set AllIDs"
    using stream_invD(3,4) [OF assms(1)] assms(2) by (auto simp: waiting_def [of ?s] waiting_notify [OF assms(1)] split: if_splits)
  show "current ?s i" if "i \<notin> set (unpublished ?s)" "i \<notin> set (waiting ?s)" "i \<notin> dropped ?s" for i
  proof -
    have "i \<noteq> gid" "i \<notin> set (waiting s)" "i \<notin> dropped s"
      using that(2,3) by (auto simp: waiting_def [of ?s] waiting_notify [OF assms(1)] split: if_splits)
    then have "current s i" using stream_invD(6) [OF assms(1), of i] that(1) in_set_remove1 [of i gid "unpublished s"] by simp
    then show ?thesis by (simp add: current_def publish_def)
  qed
qed (use stream_invD(2,5) [OF assms(1)] in \<open>auto simp: publish_def\<close>)

lemma stream_inv_other:
  assumes "stream_inv s" and "DefaultStore g = DefaultStore (spkg s)" and "hub_ok (DefaultHub g)"
    and "chn s \<in> subs (DefaultHub g)" and "buf (chans (DefaultHub g) (chn s)) = waiting s"
  shows "stream_inv (s\<lparr>spkg := g\<rparr>)"
proof (rule stream_invI)
  show "fleet_inv (spkg (s\<lparr>spkg := g\<rparr>))" using stream_invD(1) [OF assms(1)] assms(2,3) by (simp add: fleet_inv_def)
  show "current (s\<lparr>spkg := g\<rparr>) i"
    if "i \<notin> set (unpublished (s\<lparr>spkg := g\<rparr>))" "i \<notin> set (waiting (s\<lparr>spkg := g\<rparr>))" "i \<notin> dropped (s\<lparr>spkg := g\<rparr>)" for i
    using stream_invD(6) [OF assms(1), of i] that assms(2,5) by (simp add: current_def waiting_def)
qed (use stream_invD(3-5) [OF assms(1)] assms(4,5) in \<open>auto simp: waiting_def\<close>)

lemma stream_inv_step: "stream_step s s' \<Longrightarrow> stream_inv s \<Longrightarrow> stream_inv s'"
proof (induction rule: stream_step.induct)
  case (skip s gid rest t e g)
  then show ?case using forward_reading [of s gid rest t] by auto
next
  case (other_joins s)
  have ok: "hub_ok (DefaultHub (spkg s))" using fleet_inv_hub_ok [OF stream_invD(1) [OF other_joins]] .
  then have "chn s < next_chan (DefaultHub (spkg s))" using stream_invD(2) [OF other_joins] by (simp add: hub_ok_def)
  then show ?case using stream_inv_other [OF other_joins, of "(spkg s)\<lparr>DefaultHub := snd (Subscribe (DefaultHub (spkg s)))\<rparr>"]
      hub_ok_Subscribe [OF ok] stream_invD(2) [OF other_joins] by (simp add: Subscribe_def Let_def waiting_def)
next
  case (other_leaves c s)
  have ok: "hub_ok (DefaultHub (spkg s))" using fleet_inv_hub_ok [OF stream_invD(1) [OF other_leaves(3)]] .
  show ?case using stream_inv_other [OF other_leaves(3), of "(spkg s)\<lparr>DefaultHub := Unsubscribe c (DefaultHub (spkg s))\<rparr>"]
      hub_ok_Unsubscribe [OF ok other_leaves(1)] stream_invD(2) [OF other_leaves(3)] other_leaves(1,2)
    by (auto simp: Unsubscribe_def Let_def waiting_def)
next
  case (other g s)
  then show ?case using stream_inv_other [of s g] fleet_inv_hub_ok [of "spkg s"] stream_invD(1,2) [of s] by (simp add: waiting_def)
qed (blast intro: stream_inv_forward stream_inv_change stream_inv_notify)+

lemma stream_inv: "stream_reachable s \<Longrightarrow> stream_inv s"
  by (induction rule: stream_reachable.induct) (auto intro: stream_inv_begin stream_inv_step)

lemma stream_end_clean:
  assumes "stream_inv s"
  shows "hub_ok (DefaultHub (stream_end s)) \<and> chn s \<notin> subs (DefaultHub (stream_end s))"
  using hub_ok_Unsubscribe [OF fleet_inv_hub_ok [OF stream_invD(1) [OF assms]] stream_invD(2) [OF assms]]
  by (auto simp: stream_end_def Unsubscribe_def Let_def)

end
