(* ===== verification/Demo_Setup.thy ===== *)
theory Demo_Setup
  imports Services Api_Types
begin

text \<open>
  The program that prepares the demo cluster (\<^verbatim>\<open>cmd/demo-setup/main.go\<close>). The outside world is the record
  \<open>outside\<close> of the library calls the program makes, over a state \<open>'w\<close> they may change. The two polling loops are
  partial functions: not returning is the value \<open>None\<close>. A fatal error is the result \<open>Inl\<close>; log lines are left out.
\<close>

section \<open>The world\<close>

datatype create_error = AlreadyExists | CreateError string

record WorkerNode =
  Labels :: "string list"  \<comment> \<open>the keys\<close>
  WNConditions :: "(string \<times> string) list"  \<comment> \<open>type and status\<close>

record ('c, 'w) outside =
  Getenv :: "string \<Rightarrow> string"
  ReadFile :: "string \<Rightarrow> 'w \<Rightarrow> (string, string) result \<times> 'w"
  RESTConfigFromKubeConfig :: "string \<Rightarrow> (string, 'c) result"
  NewDiscoveryClient :: "'c \<Rightarrow> string option"  \<comment> \<open>the error, if any\<close>
  ServerVersion :: "'c \<Rightarrow> 'w \<Rightarrow> string option \<times> 'w"
  UnmarshalCRD :: "string \<Rightarrow> (string, string) result"
  NewExtClient :: "'c \<Rightarrow> string option"
  CreateCRD :: "'c \<Rightarrow> string \<Rightarrow> 'w \<Rightarrow> create_error option \<times> 'w"
  AddToScheme :: "string \<Rightarrow> string option"
  NewClient :: "'c \<Rightarrow> string option"
  ListNodes :: "'w \<Rightarrow> (string, WorkerNode list) result \<times> 'w"
  CreateCR :: "GPUHealthCR \<Rightarrow> 'w \<Rightarrow> create_error option \<times> 'w"
  NewRequest :: "string \<Rightarrow> string option"
  DoPut :: "string \<Rightarrow> json \<Rightarrow> 'w \<Rightarrow> (string, nat) result \<times> 'w"
  Dial :: "string \<Rightarrow> 'w \<Rightarrow> string option \<times> 'w"
  ExecuteWorkflow :: "string \<Rightarrow> string \<Rightarrow> string \<Rightarrow> 'w \<Rightarrow> string option \<times> 'w"  \<comment> \<open>identifier, task queue, argument\<close>
  Sleep :: "int \<Rightarrow> 'w \<Rightarrow> 'w"

section \<open>The GPUs of the demo\<close>

record gpuDef =
  defName :: string
  defNode :: string
  defGPUID :: string
  defPolicy :: RemediationPolicy

definition demoNode1 :: string where "demoNode1 = ''gpu-node-1''"
definition demoNode2 :: string where "demoNode2 = ''gpu-node-2''"
definition demoNode3 :: string where "demoNode3 = ''gpu-node-3''"

definition gpu_def :: "string \<Rightarrow> string \<Rightarrow> string \<Rightarrow> RemediationPolicy \<Rightarrow> gpuDef" where
  "gpu_def n nd i p = \<lparr>defName = n, defNode = nd, defGPUID = i, defPolicy = p\<rparr>"

definition demoGPUs :: "gpuDef list" where
  "demoGPUs =
    [gpu_def ''gpu-drain-1'' demoNode1 ''GPU-00001'' RemediationPolicyDrain,
     gpu_def ''gpu-drain-2'' demoNode1 ''GPU-00002'' RemediationPolicyDrain,
     gpu_def ''gpu-drain-3'' demoNode1 ''GPU-00003'' RemediationPolicyDrain,
     gpu_def ''gpu-drain-4'' demoNode1 ''GPU-00004'' RemediationPolicyDrain,
     gpu_def ''gpu-escalate-1'' demoNode2 ''GPU-00005'' RemediationPolicyEscalate,
     gpu_def ''gpu-escalate-2'' demoNode2 ''GPU-00006'' RemediationPolicyEscalate,
     gpu_def ''gpu-escalate-3'' demoNode2 ''GPU-00007'' RemediationPolicyEscalate,
     gpu_def ''gpu-escalate-4'' demoNode2 ''GPU-00008'' RemediationPolicyEscalate,
     gpu_def ''gpu-observe-1'' demoNode3 ''GPU-00009'' RemediationPolicyNone,
     gpu_def ''gpu-observe-2'' demoNode3 ''GPU-00010'' RemediationPolicyNone,
     gpu_def ''gpu-observe-3'' demoNode3 ''GPU-00011'' RemediationPolicyNone,
     gpu_def ''gpu-observe-4'' demoNode3 ''GPU-00012'' RemediationPolicyNone]"

section \<open>Waiting\<close>

text \<open>\<^verbatim>\<open>bytes.Replace(s, old, new, 1)\<close> for a pattern that is not empty.\<close>

fun replace_first :: "string \<Rightarrow> string \<Rightarrow> string \<Rightarrow> string" where
  "replace_first old new [] = []"
| "replace_first old new (c # cs) =
     (if take (length old) (c # cs) = old then new @ drop (length old) (c # cs) else c # replace_first old new cs)"

definition patchKubeconfig :: "('c, 'w) outside \<Rightarrow> string \<Rightarrow> string \<Rightarrow> 'w \<Rightarrow> (string, string) result \<times> 'w" where
  "patchKubeconfig e path k3sServer w =
     (case ReadFile e path w of
        (Inl err, w) \<Rightarrow> (Inl err, w)
      | (Inr data, w) \<Rightarrow> (Inr (replace_first ''127.0.0.1:6443'' k3sServer data), w))"

text \<open>
  A \<^verbatim>\<open>for\<close> loop that returns the first success of an attempt and sleeps for the seconds a failed attempt asks for.
\<close>

partial_function (option) poll :: "('w \<Rightarrow> (int, 'a) result \<times> 'w) \<Rightarrow> (int \<Rightarrow> 'w \<Rightarrow> 'w) \<Rightarrow> 'w \<Rightarrow> ('a \<times> 'w) option" where
  "poll attempt sleep w =
     (case attempt w of
        (Inr a, w') \<Rightarrow> Some (a, w')
      | (Inl secs, w') \<Rightarrow> poll attempt sleep (sleep secs w'))"

text \<open>One round of \<^verbatim>\<open>waitForK3s\<close>.\<close>

definition k3s_attempt :: "('c, 'w) outside \<Rightarrow> string \<Rightarrow> string \<Rightarrow> 'w \<Rightarrow> (int, 'c) result \<times> 'w" where
  "k3s_attempt e path k3sServer w =
     (case patchKubeconfig e path k3sServer w of
        (Inl _, w) \<Rightarrow> (Inl 2, w)
      | (Inr data, w) \<Rightarrow>
          (case RESTConfigFromKubeConfig e data of
             Inl _ \<Rightarrow> (Inl 2, w)
           | Inr cfg \<Rightarrow>
               if NewDiscoveryClient e cfg \<noteq> None then (Inl 2, w)
               else case ServerVersion e cfg w of
                 (Some _, w) \<Rightarrow> (Inl 3, w)
               | (None, w) \<Rightarrow> (Inr cfg, w)))"

definition waitForK3s :: "('c, 'w) outside \<Rightarrow> string \<Rightarrow> string \<Rightarrow> 'w \<Rightarrow> ('c \<times> 'w) option" where
  "waitForK3s e path k3sServer = poll (k3s_attempt e path k3sServer) (Sleep e)"

definition buildK8sClient :: "('c, 'w) outside \<Rightarrow> 'c \<Rightarrow> string option" where
  "buildK8sClient e cfg =
     (case AddToScheme e ''clientgo'' of
        Some err \<Rightarrow> Some err
      | None \<Rightarrow> (case AddToScheme e ''v1alpha1'' of Some err \<Rightarrow> Some err | None \<Rightarrow> NewClient e cfg))"

definition count_ready :: "WorkerNode list \<Rightarrow> nat" where
  "count_ready nodes =
     fold (\<lambda>n ready.
       if ''node-role.kubernetes.io/control-plane'' \<in> set (Labels n) then ready
       else fold (\<lambda>(ty, st) r. if ty = ''Ready'' \<and> st = ''True'' then r + 1 else r) (WNConditions n) ready) nodes 0"

definition nodes_attempt :: "('c, 'w) outside \<Rightarrow> nat \<Rightarrow> 'w \<Rightarrow> (int, unit) result \<times> 'w" where
  "nodes_attempt e required w =
     (case ListNodes e w of
        (Inl _, w) \<Rightarrow> (Inl 3, w)
      | (Inr items, w) \<Rightarrow> if count_ready items \<ge> required then (Inr (), w) else (Inl 3, w))"

definition waitForNodes :: "('c, 'w) outside \<Rightarrow> 'c \<Rightarrow> nat \<Rightarrow> 'w \<Rightarrow> ((string, unit) result \<times> 'w) option" where
  "waitForNodes e cfg required w =
     (case buildK8sClient e cfg of
        Some err \<Rightarrow> Some (Inl (''building k8s client: '' @ err), w)
      | None \<Rightarrow> map_option (\<lambda>(u, w). (Inr u, w)) (poll (nodes_attempt e required) (Sleep e) w))"

section \<open>Creating\<close>

definition installCRD :: "('c, 'w) outside \<Rightarrow> 'c \<Rightarrow> 'w \<Rightarrow> string option \<times> 'w" where
  "installCRD e cfg w =
     (case ReadFile e ''/etc/demo/crd.yaml'' w of
        (Inl err, w) \<Rightarrow> (Some (''reading CRD YAML: '' @ err), w)
      | (Inr crdYAML, w) \<Rightarrow>
          (case UnmarshalCRD e crdYAML of
             Inl err \<Rightarrow> (Some (''parsing CRD YAML: '' @ err), w)
           | Inr crd \<Rightarrow>
               (case NewExtClient e cfg of
                  Some err \<Rightarrow> (Some err, w)
                | None \<Rightarrow>
                    (case CreateCRD e cfg crd w of
                       (None, w) \<Rightarrow> (None, w)
                     | (Some AlreadyExists, w) \<Rightarrow> (None, w)
                     | (Some (CreateError err), w) \<Rightarrow> (Some err, w)))))"

definition new_cr :: "gpuDef \<Rightarrow> GPUHealthCR" where
  "new_cr d = \<lparr>Name = defName d, UID = [], ResourceVersion = [], Generation = 0,
     Spec = \<lparr>NodeName = defNode d, SpecGPUID = defGPUID d, RemediationPolicy = defPolicy d, MaxRemediationAttempts = 3,
       ReplacementTimeoutSeconds = 0, RejoiningTimeoutSeconds = 0\<rparr>,
     Status = \<lparr>Phase = PhaseNewCR, ReplacementStartedAt = None, Conditions = [], StatusFindings = [], RemediationAttempts = 0,
       LastTransitionTime = None, ObservedGeneration = 0\<rparr>\<rparr>"

fun create_each :: "('c, 'w) outside \<Rightarrow> gpuDef list \<Rightarrow> 'w \<Rightarrow> string option \<times> 'w" where
  "create_each e [] w = (None, w)"
| "create_each e (d # ds) w =
     (case CreateCR e (new_cr d) w of
        (None, w) \<Rightarrow> create_each e ds w
      | (Some AlreadyExists, w) \<Rightarrow> create_each e ds w
      | (Some (CreateError err), w) \<Rightarrow> (Some (''creating '' @ defName d @ '': '' @ err), w))"

definition createCRs :: "('c, 'w) outside \<Rightarrow> 'w \<Rightarrow> string option \<times> 'w" where
  "createCRs e = create_each e demoGPUs"

section \<open>Simulator and workflows\<close>

text \<open>\<^verbatim>\<open>json.Marshal\<close> of a map writes its keys in order.\<close>

definition tuning :: json where
  "tuning = JObject
    [(''critical_to_warning_rate'', JFloat (20 / 100)), (''healthy_to_warning_rate'', JFloat (10 / 100)),
     (''speed_multiplier'', JInt 5), (''warning_to_critical_rate'', JFloat (25 / 100)),
     (''warning_to_healthy_rate'', JFloat (5 / 100))]"

definition tuneSimulator :: "('c, 'w) outside \<Rightarrow> string \<Rightarrow> 'w \<Rightarrow> string option \<times> 'w" where
  "tuneSimulator e telemetryURL w =
     (let url = telemetryURL @ ''/v1/simulation/settings''
      in case NewRequest e url of
           Some err \<Rightarrow> (Some err, w)
         | None \<Rightarrow>
             (case DoPut e url tuning w of
                (Inl err, w) \<Rightarrow> (Some err, w)
              | (Inr sc, w) \<Rightarrow> if sc \<noteq> 200 then (Some (''unexpected status '' @ show_dec sc), w) else (None, w)))"

fun start_each :: "('c, 'w) outside \<Rightarrow> gpuDef list \<Rightarrow> 'w \<Rightarrow> 'w" where
  "start_each e [] w = w"
| "start_each e (d # ds) w =
     (case ExecuteWorkflow e (''monitor-'' @ defGPUID d) ''gpu-monitor'' (defGPUID d) w of (_, w) \<Rightarrow> start_each e ds w)"

definition startWorkflows :: "('c, 'w) outside \<Rightarrow> string \<Rightarrow> 'w \<Rightarrow> string option \<times> 'w" where
  "startWorkflows e temporalAddr w =
     (case Dial e temporalAddr w of
        (Some err, w) \<Rightarrow> (Some (''dialing Temporal: '' @ err), w)
      | (None, w) \<Rightarrow> (None, start_each e demoGPUs w))"

definition env_or :: "('c, 'w) outside \<Rightarrow> string \<Rightarrow> string \<Rightarrow> string" where
  "env_or e name dflt = (if Getenv e name = [] then dflt else Getenv e name)"

definition demo_main :: "('c, 'w) outside \<Rightarrow> 'w \<Rightarrow> ((string, unit) result \<times> 'w) option" where
  "demo_main e w =
     (case waitForK3s e (env_or e ''KUBECONFIG'' ''/kubeconfig/config'') (env_or e ''K3S_SERVER'' ''k3s-server:6443'') w of
        None \<Rightarrow> None
      | Some (cfg, w) \<Rightarrow>
          (case installCRD e cfg w of
             (Some err, w) \<Rightarrow> Some (Inl (''installing CRD: '' @ err), w)
           | (None, w) \<Rightarrow>
               (case waitForNodes e cfg 3 w of
                  None \<Rightarrow> None
                | Some (Inl err, w) \<Rightarrow> Some (Inl err, w)
                | Some (Inr _, w) \<Rightarrow>
                    (case createCRs e w of
                       (Some err, w) \<Rightarrow> Some (Inl (''creating CRs: '' @ err), w)
                     | (None, w) \<Rightarrow>
                         (let (_, w) = startWorkflows e (env_or e ''TEMPORAL_ADDRESS'' ''temporal:7233'') w;
                              (_, w) = tuneSimulator e (env_or e ''TELEMETRY_URL'' ''http://telemetry:3000'') w
                          in Some (Inr (), w))))))"

section \<open>When polling ends\<close>

fun after_rounds :: "('w \<Rightarrow> (int, 'a) result \<times> 'w) \<Rightarrow> (int \<Rightarrow> 'w \<Rightarrow> 'w) \<Rightarrow> nat \<Rightarrow> 'w \<Rightarrow> 'w option" where
  "after_rounds attempt sleep 0 w = Some w"
| "after_rounds attempt sleep (Suc n) w =
     (case attempt w of (Inr _, _) \<Rightarrow> None | (Inl secs, w') \<Rightarrow> after_rounds attempt sleep n (sleep secs w'))"

lemma poll_success:
  "after_rounds attempt sleep n w = Some v \<Longrightarrow> attempt v = (Inr a, v') \<Longrightarrow> poll attempt sleep w = Some (a, v')"
proof (induction n arbitrary: w)
  case 0
  then show ?case by (subst poll.simps) simp
next
  case (Suc n)
  then obtain secs w1 where "attempt w = (Inl secs, w1)" "poll attempt sleep (sleep secs w1) = Some (a, v')"
    by (auto split: prod.splits sum.splits)
  then show ?case by (subst poll.simps) simp
qed

lemma poll_result:
  fixes attempt :: "'w \<Rightarrow> (int, 'a) result \<times> 'w"
  assumes "poll attempt sleep w = Some (a, v')"
  shows "\<exists>n v. after_rounds attempt sleep n w = Some v \<and> attempt v = (Inr a, v')"
proof -
  have "\<exists>n v. after_rounds attempt sleep n w = Some v \<and> attempt v = (Inr (fst r), snd r)" if "poll attempt sleep w = Some r" for r
  proof (rule poll.raw_induct [of "\<lambda>attempt sleep w r. \<exists>n v. after_rounds attempt sleep n w = Some v \<and> attempt v = (Inr (fst r), snd r)",
        OF _ that])
    fix f :: "('w \<Rightarrow> (int, 'a) result \<times> 'w) \<Rightarrow> (int \<Rightarrow> 'w \<Rightarrow> 'w) \<Rightarrow> 'w \<Rightarrow> ('a \<times> 'w) option" and attempt sleep w r
    assume 1: "\<And>attempt sleep w r. f attempt sleep w = Some r \<Longrightarrow>
        \<exists>n v. after_rounds attempt sleep n w = Some v \<and> attempt v = (Inr (fst r), snd r)"
      "(case attempt w of (Inl secs, w') \<Rightarrow> f attempt sleep (sleep secs w') | (Inr a, w') \<Rightarrow> Some (a, w')) = Some r"
    obtain x w1 where x: "attempt w = (x, w1)" by fastforce
    show "\<exists>n v. after_rounds attempt sleep n w = Some v \<and> attempt v = (Inr (fst r), snd r)"
    proof (cases x)
      case (Inl secs)
      then have "f attempt sleep (sleep secs w1) = Some r" using 1(2) x by simp
      from 1(1) [OF this] obtain n v where n: "after_rounds attempt sleep n (sleep secs w1) = Some v" "attempt v = (Inr (fst r), snd r)"
        by blast
      then have "after_rounds attempt sleep (Suc n) w = Some v" using x Inl by simp
      then show ?thesis using n(2) by blast
    next
      case (Inr b)
      then have "after_rounds attempt sleep 0 w = Some w \<and> attempt w = (Inr (fst r), snd r)" using 1(2) x by auto
      then show ?thesis by blast
    qed
  qed
  from this [OF assms] show ?thesis by simp
qed

lemma poll_iff:
  "poll attempt sleep w = Some (a, v') \<longleftrightarrow> (\<exists>n v. after_rounds attempt sleep n w = Some v \<and> attempt v = (Inr a, v'))"
  using poll_success poll_result by metis

section \<open>Resources\<close>

text \<open>
  What the program relies on of the API server: creating a resource stores it under its name with the specification it was
  given, fields left at their zero value apart, is refused when the name is taken, and changes no other resource.
\<close>

definition as_specified :: "GPUHealthCR \<Rightarrow> GPUHealthCR \<Rightarrow> bool" where
  "as_specified cr cr' \<longleftrightarrow> NodeName (Spec cr') = NodeName (Spec cr) \<and> SpecGPUID (Spec cr') = SpecGPUID (Spec cr) \<and>
     policy cr' = policy cr \<and> (MaxRemediationAttempts (Spec cr) \<noteq> 0 \<longrightarrow> MaxRemediationAttempts (Spec cr') = MaxRemediationAttempts (Spec cr))"

definition creates :: "('c, 'w) outside \<Rightarrow> ('w \<Rightarrow> string \<rightharpoonup> GPUHealthCR) \<Rightarrow> bool" where
  "creates e crs \<longleftrightarrow> (\<forall>cr w. case CreateCR e cr w of
       (None, w') \<Rightarrow> crs w (Name cr) = None \<and> (\<exists>cr'. as_specified cr cr' \<and> crs w' = (crs w)(Name cr \<mapsto> cr'))
     | (Some AlreadyExists, w') \<Rightarrow> crs w (Name cr) \<noteq> None \<and> crs w' = crs w
     | (Some (CreateError _), w') \<Rightarrow> crs w' = crs w)"

definition created_as :: "gpuDef \<Rightarrow> GPUHealthCR \<Rightarrow> bool" where
  "created_as d cr \<longleftrightarrow> NodeName (Spec cr) = defNode d \<and> SpecGPUID (Spec cr) = defGPUID d \<and> policy cr = defPolicy d \<and>
     MaxRemediationAttempts (Spec cr) = 3"

lemma created_new: "as_specified (new_cr d) cr \<Longrightarrow> created_as d cr"
  by (simp add: as_specified_def created_as_def new_cr_def)

lemma Name_new_cr [simp]: "Name (new_cr d) = defName d"
  by (simp add: new_cr_def)

lemma create_cases:
  assumes "creates e crs"
  obtains (made) w' cr where "CreateCR e (new_cr d) w = (None, w')" and "crs w (defName d) = None" and "created_as d cr"
      and "crs w' = (crs w)(defName d \<mapsto> cr)"
  | (there) w' where "CreateCR e (new_cr d) w = (Some AlreadyExists, w')" and "crs w (defName d) \<noteq> None" and "crs w' = crs w"
  | (failed) w' err where "CreateCR e (new_cr d) w = (Some (CreateError err), w')" and "crs w' = crs w"
proof -
  obtain x w' where c: "CreateCR e (new_cr d) w = (x, w')" by fastforce
  have law: "case CreateCR e (new_cr d) w of
      (None, w') \<Rightarrow> crs w (Name (new_cr d)) = None \<and> (\<exists>cr'. as_specified (new_cr d) cr' \<and> crs w' = (crs w)(Name (new_cr d) \<mapsto> cr'))
    | (Some AlreadyExists, w') \<Rightarrow> crs w (Name (new_cr d)) \<noteq> None \<and> crs w' = crs w
    | (Some (CreateError _), w') \<Rightarrow> crs w' = crs w"
    by (rule assms [unfolded creates_def, THEN spec, THEN spec])
  show thesis
  proof (cases x)
    case None
    with law c obtain cr' where "as_specified (new_cr d) cr'" "crs w (defName d) = None" "crs w' = (crs w)(defName d \<mapsto> cr')" by auto
    then show thesis using made c None created_new by blast
  next
    case (Some err)
    then show thesis using law c there failed by (cases err) auto
  qed
qed

text \<open>Creating never changes or removes what is there.\<close>

lemma create_each_keeps:
  assumes "creates e crs" and "crs w n = Some cr"
  shows "crs (snd (create_each e ds w)) n = Some cr"
  using assms(2)
proof (induction ds arbitrary: w)
  case (Cons d ds)
  show ?case using Cons by (cases rule: create_cases [OF assms(1), of d w]) (auto intro!: Cons.IH split: if_splits)
qed simp

lemma create_each_others:
  assumes "creates e crs" and "n \<notin> defName ` set ds"
  shows "crs (snd (create_each e ds w)) n = crs w n"
  using assms(2)
proof (induction ds arbitrary: w)
  case (Cons d ds)
  show ?case using Cons by (cases rule: create_cases [OF assms(1), of d w]) (auto simp: Cons.IH)
qed simp

lemma create_each_new:
  assumes "creates e crs" and "create_each e ds w = (None, w')" and "d \<in> set ds" and "distinct (map defName ds)"
  shows "\<exists>cr. crs w' (defName d) = Some cr \<and> (crs w (defName d) = None \<longrightarrow> created_as d cr)"
  using assms(2-4)
proof (induction ds arbitrary: w)
  case (Cons d0 ds)
  have keep: "crs v n = Some cr \<Longrightarrow> create_each e ds v = (None, w') \<Longrightarrow> crs w' n = Some cr" for v n cr
    using create_each_keeps [OF assms(1), of v n cr ds] by simp
  from assms(1) show ?case
  proof (cases rule: create_cases [where d = d0 and w = w])
    case (made v cr)
    with Cons.prems(1) have r: "create_each e ds v = (None, w')" by simp
    show ?thesis
    proof (cases "d = d0")
      case True
      then show ?thesis using keep [OF _ r, of "defName d0" cr] made by auto
    next
      case False
      then have "d \<in> set ds" using Cons.prems(2) by simp
      moreover from this have "defName d \<noteq> defName d0" using Cons.prems(3) by (metis distinct.simps(2) imageI list.simps(9) set_map)
      ultimately have "d \<in> set ds" "crs v (defName d) = crs w (defName d)" using made(4) by simp_all
      then show ?thesis using Cons.IH [OF r] Cons.prems(3) by simp
    qed
  next
    case (there v)
    with Cons.prems(1) have r: "create_each e ds v = (None, w')" by simp
    show ?thesis
    proof (cases "d = d0")
      case True
      then show ?thesis using keep [OF _ r, of "defName d0"] there by auto
    next
      case False
      then show ?thesis using Cons.IH [OF r] Cons.prems(2,3) there(3) by simp
    qed
  next
    case failed
    with Cons.prems(1) show ?thesis by simp
  qed
qed simp

lemma create_each_again:
  assumes "creates e crs" and "\<forall>d \<in> set ds. crs w (defName d) \<noteq> None"
  shows "crs (snd (create_each e ds w)) = crs w"
  using assms(2)
proof (induction ds arbitrary: w)
  case (Cons d ds)
  show ?case using Cons by (cases rule: create_cases [OF assms(1), of d w]) (auto simp: Cons.IH)
qed simp

lemma demoGPUs_names: "distinct (map defName demoGPUs)"
  by (simp add: demoGPUs_def gpu_def_def)

section \<open>The tuning document\<close>

lemma decode_rate:
  assumes "0 \<le> r" and "r \<le> 1 / 4"
  shows "decode_float64 (JFloat r) = Some (fl64 r)"
proof -
  have "(1::rat) \<le> 2 ^ 1024" by (rule one_le_power) simp
  then have "\<bar>fl64 r\<bar> < 2 ^ 1024" using fl64_rate [OF assms] by linarith
  then show ?thesis by (simp add: decode_float64_def)
qed

lemma tuning_keys:
  "map lower_char ''critical_to_warning_rate'' = ''critical_to_warning_rate''"
  "map lower_char ''healthy_to_warning_rate'' = ''healthy_to_warning_rate''"
  "map lower_char ''speed_multiplier'' = ''speed_multiplier''"
  "map lower_char ''warning_to_critical_rate'' = ''warning_to_critical_rate''"
  "map lower_char ''warning_to_healthy_rate'' = ''warning_to_healthy_rate''"
  by code_simp+

lemma tuning_decoded:
  "decode_settings (Some tuning) = Some \<lparr>SpeedMultiplier = 5, HealthyToWarningRate = fl64 (10 / 100), WarningToCriticalRate = fl64 (25 / 100),
     WarningToHealthyRate = fl64 (5 / 100), CriticalToWarningRate = fl64 (20 / 100), RecoveryWarningRate = 0, ReplacementWarningRate = 0\<rparr>"
proof -
  have 5: "decode_int64 (JInt 5) = Some 5" by (simp add: decode_int64_def)
  note r = decode_rate [of "20 / 100"] decode_rate [of "10 / 100"] decode_rate [of "25 / 100"] decode_rate [of "5 / 100"]
  show ?thesis using r by (simp add: decode_settings_def tuning_def decode_member_def tuning_keys 5 zero_settings_def Let_def del: list.map)
qed

lemma tuning_decodes:
  "\<exists>s. decode_settings (Some tuning) = Some s \<and> valid_settings s \<and> SpeedMultiplier s = 5 \<and> RecoveryWarningRate s = 0 \<and>
     ReplacementWarningRate s = 0"
proof -
  have r: "0 \<le> fl64 x \<and> fl64 x \<le> 1" if "0 \<le> x" "x \<le> 1 / 4" for x using fl64_rate [OF that] by simp
  have "fl64 (fl64 (25 / 100) + fl64 (5 / 100)) < 1" using fl64_rate_sum [of "25 / 100" "5 / 100"] by simp
  then show ?thesis using r [of "10 / 100"] r [of "25 / 100"] r [of "5 / 100"] r [of "20 / 100"]
    by (simp add: tuning_decoded valid_settings_def)
qed

end
