(* ===== verification/Fleet_Properties.thy ===== *)
theory Fleet_Properties
  imports Services
begin

text \<open>
  The properties of the simulator (package \<^verbatim>\<open>gpu\<close>) and of the requests that change it: the invariant of the
  fleet under every sequence of operations and under interleaving goroutines, the specification the ticker
  refines, the snapshot every identifier yields, the hub under its mutex, and the settings.
\<close>

section \<open>The fleet\<close>

text \<open>
  C8. In every reachable state of the simulator each of the 10000 GPUs has a state, a healthy
  GPU carries no failure, and an uncorrectable memory error is only found on a critical GPU.
\<close>

theorem reachable_states_consistent:
  assumes "sim_reachable g" and "gid \<in> set AllIDs"
  shows "\<exists>st. gstate g gid = Some st \<and> state_ok st"
  by (rule fleet_inv_Some [OF sim_reachable_inv [OF assms(1)] assms(2)])

theorem reachable_states_consistent_witness:
  "\<exists>st. gstate (gpu_init (\<lambda>_. 0)) (gpu_id 7) = Some st \<and> state_ok st"
  by (rule reachable_states_consistent [OF sim_start]) (simp add: set_AllIDs)





definition demo_pkg :: gpu_pkg where
  "demo_pkg = set_state (gpu_id 7) StatusCritical FailureTypeECCDouble (gpu_init (\<lambda>_. 0))"

lemma demo_pkg_state: "gstate demo_pkg (gpu_id 7) = Some (mk_state StatusCritical FailureTypeECCDouble)"
  by (simp add: demo_pkg_def set_state_def)


text \<open>
  A recover request for a GPU without a failure draws a number and, when it is below the recovery
  warning rate, leaves the GPU with status warning and failure type none, a warning that nothing explains.
\<close>

theorem recover_unexplained_warning:
  assumes "gstate g gid = Some st" and "failureType st = FailureTypeNone" and "Float64 g = (r, g1)"
  shows "gstate (snd (Recover gid g)) gid =
    Some (if r < RecoveryWarningRate (Config g) then mk_state StatusWarning FailureTypeNone else mk_state StatusHealthy FailureTypeNone)"
  using assms draw_frame(1) [OF assms(3)] by (simp add: Recover_def GetState_Some)

section \<open>Health snapshots\<close>



text \<open>
  C35. A request for an identifier that is not of the fleet is refused and changes nothing: the health, recover
  and replace endpoints answer 404.
\<close>

theorem unknown_gpu_refused:
  assumes "sim_reachable g" and "gid \<notin> set AllIDs"
  shows "getGpuHandler t gid g = (NotFound404, g) \<and> recoverGPUHandler gid g = (NotFound404, g) \<and>
    replaceGPUHandler gid g = (NotFound404, g)"
proof -
  have none: "gstate g gid = None" using sim_reachable_inv [OF assms(1)] assms(2) by (auto simp: fleet_inv_def)
  then obtain e where "GetHealth t gid g = (Inl e, g)" using GetHealth_unknown by blast
  then show ?thesis using none
    by (simp add: getGpuHandler_def recoverGPUHandler_def replaceGPUHandler_def Recover_def Replace_def GetState_None)
qed

theorem unknown_gpu_refused_witness:
  "getGpuHandler 0 ''GPU-7'' (gpu_init (\<lambda>_. 0)) = (NotFound404, gpu_init (\<lambda>_. 0)) \<and>
   recoverGPUHandler ''GPU-7'' (gpu_init (\<lambda>_. 0)) = (NotFound404, gpu_init (\<lambda>_. 0)) \<and>
   replaceGPUHandler ''GPU-7'' (gpu_init (\<lambda>_. 0)) = (NotFound404, gpu_init (\<lambda>_. 0))"
proof -
  have len: "length (gpu_id n) = 9" if "n \<le> 10000" for n using length_pad_dec [of n 4] that by (simp add: gpu_id_def)
  have "''GPU-7'' \<notin> set AllIDs"
  proof
    assume "''GPU-7'' \<in> set AllIDs"
    then obtain n where "n \<le> 10000" "''GPU-7'' = gpu_id n" by (auto simp: set_AllIDs)
    with len [of n] have "length ''GPU-7'' = 9" by metis
    then show False by simp
  qed
  then show ?thesis by (rule unknown_gpu_refused [OF sim_start])
qed

text \<open>
  Printing the number of a GPU as an identifier and scanning it back gives the number, for the whole fleet.
\<close>

theorem gpu_id_roundtrip:
  assumes "1 \<le> n" and "n \<le> 10000"
  shows "sscanf_u16 ''GPU-'' (gpu_id n) = Some (of_nat n) \<and> unat (of_nat n :: 16 word) = n"
  using assms by (simp add: gpu_id_def sscanf_pad_dec unat_gpu_no del: append.simps)

theorem gpu_id_roundtrip_witness:
  "sscanf_u16 ''GPU-'' (gpu_id 42) = Some 42 \<and> gpu_id 42 = ''GPU-00042''"
proof -
  have "gpu_id 42 = ''GPU-00042''" by code_simp
  then show ?thesis using gpu_id_roundtrip [of 42] by simp
qed

section \<open>The hub\<close>

text \<open>
  C31. However the goroutines that subscribe, unsubscribe and publish interleave around the mutex of the hub, nothing is sent on
  a closed channel, no channel is closed twice, and no buffer holds more than 64 notifications.
\<close>

theorem hub_never_panics:
  assumes "hub_reachable s"
  shows "\<not> panicked (hub s) \<and> (\<forall>c. length (buf (chans (hub s) c)) \<le> 64)"
  using hub_reachable_inv [OF assms] by (simp add: chan_inv_def chan_cap_def)

theorem hub_never_panics_witness:
  "\<not> panicked (hub sys_init) \<and> (\<forall>c. length (buf (chans (hub sys_init) c)) \<le> 64)"
  by (rule hub_never_panics [OF hub_start])

text \<open>
  Publishing appends the identifier to the buffer of every subscriber that has room and touches no other channel, so a
  subscriber that keeps up sees the changes in order and a slow one never blocks the simulator.
\<close>

theorem publish_delivers:
  assumes "hub_ok h"
  shows "buf (chans (Publish gid h) c) =
    (if c \<in> subs h \<and> length (buf (chans h c)) < 64 then buf (chans h c) @ [gid] else buf (chans h c)) \<and> hub_ok (Publish gid h)"
  using Publish_delivers [OF assms, of gid c] hub_ok_Publish [OF assms] by (simp add: chan_cap_def)

section \<open>Settings and the ticker\<close>

text \<open>
  The settings endpoint accepts exactly the documents that decode to settings in range, stores what it accepted,
  and leaves the configuration alone otherwise; so a valid configuration stays valid.
\<close>

theorem settings_request:
  "(putSimulationSettingsHandler body c = (Json 200 s, c') \<longleftrightarrow> decode_settings body = Some s \<and> valid_settings s \<and> c' = s) \<and>
   ((\<exists>s. decode_settings body = Some s \<and> valid_settings s) \<or> (\<exists>msg. putSimulationSettingsHandler body c = (HttpError 400 msg, c)))"
  using put_settings_accepts put_settings_refuses by blast

text \<open>
  On settings in range the ticker starts and keeps a positive interval of 100 milliseconds to 10 seconds, and every tick
  succeeds; a speed multiplier of zero or below, which the environment variable can set, makes the ticker panic.
\<close>

theorem ticker_runs_on_valid_settings:
  "(valid_settings (Config g) \<longrightarrow>
      (\<exists>tk. Ticker_Start g = Inr tk \<and> Base div 100 \<le> interval tk \<and> interval tk \<le> Base) \<and>
      (\<forall>tk. \<exists>next. on_tick tk g = Inr next)) \<and>
   (sint (SpeedMultiplier (Config g)) \<le> 0 \<longrightarrow> (\<exists>p. Ticker_Start g = Inl p))"
  using tick_interval_valid [of "SpeedMultiplier (Config g)"] tick_interval_panics [of "SpeedMultiplier (Config g)"]
  by (auto simp: Ticker_Start_def on_tick_def Let_def valid_settings_def)

theorem ticker_runs_on_valid_settings_witness:
  "\<exists>tk. Ticker_Start (gpu_init (\<lambda>_. 0)) = Inr tk \<and> Base div 100 \<le> interval tk \<and> interval tk \<le> Base"
proof -
  have "valid_settings (Config (gpu_init (\<lambda>_. 0)))" using valid_defaults by (simp add: gpu_init_def Config_init_eq)
  then show ?thesis using ticker_runs_on_valid_settings [of "gpu_init (\<lambda>_. 0)"] by blast
qed

text \<open>
  Resetting the settings restores the defaults except for the recovery and the replacement warning rate, which keep
  the value they had.
\<close>

theorem reset_keeps_two_rates:
  "snd (postResetSimulationSettingsHandler c) =
     defaults\<lparr>RecoveryWarningRate := RecoveryWarningRate c, ReplacementWarningRate := ReplacementWarningRate c\<rparr>"
  by (simp add: postResetSimulationSettingsHandler_def Config_Reset_eq)

end
