(* ===== verification/Service_Properties.thy ===== *)
theory Service_Properties
  imports Workflow Event_Stream Demo_Setup Fleet_Properties
begin

text \<open>
  The properties of the diagnosis and escalation services, of the monitoring workflow and its worker process, and of
  the worker pool and the event stream that report the whole fleet, and of the demo set-up.
\<close>

section \<open>Diagnosis\<close>

text \<open>
  C19. Equivalence with the thresholds: the severity the analyzer reports for a snapshot is the one read off the
  documented thresholds (\<open>severity_spec\<close>), it is the maximum over the findings, and no code is reported twice.
\<close>

theorem diagnosis_severity:
  "DSeverity (Analyze h ts) = severity_spec h \<and>
   DSeverity (Analyze h ts) = Max (insert SeverityLow (FSeverity ` set (Findings (Analyze h ts)))) \<and>
   distinct (map Code (Findings (Analyze h ts)))"
  using GetWorstSeverity_Max [of "generateFindings h"] GetWorstSeverity_findings [of h] generateFindings_codes_distinct [of h]
  by (simp add: Analyze_def Let_def)

text \<open>
  A diagnosis request for a GPU of the fleet is answered with 201 and stored under its identifier, replaces the
  previous diagnosis of that GPU only, and can be read back.
\<close>

theorem diagnosis_request:
  assumes "GetHealth t gid g = (Inr h, g')"
  shows "\<exists>d s'. postDiagnosis t ts gid g s = (Json 201 d, g', s') \<and> d = Analyze h ts \<and> getDiagnosis (ID d) s' = Json 200 d \<and>
    (\<forall>i. i \<noteq> ''diag-'' @ gid \<longrightarrow> getDiagnosis i s' = getDiagnosis i s)"
  using assms GetHealth_GPUID [OF assms]
  by (auto simp: postDiagnosis_def getDiagnosis_def diag_store.get_save Analyze_def Let_def)

theorem diagnosis_request_witness:
  "\<exists>h g'. GetHealth 0 (gpu_id 7) (gpu_init (\<lambda>_. 0)) = (Inr h, g') \<and>
    (\<exists>d s'. postDiagnosis 0 1 (gpu_id 7) (gpu_init (\<lambda>_. 0)) NewDiagStore = (Json 201 d, g', s') \<and> getDiagnosis (ID d) s' = Json 200 d)"
proof -
  have "gpu_id 7 \<in> set AllIDs" by (simp add: set_AllIDs)
  obtain h g' where h: "GetHealth 0 (gpu_id 7) (gpu_init (\<lambda>_. 0)) = (Inr h, g')"
    using GetHealth_known [OF fleet_inv_init \<open>gpu_id 7 \<in> set AllIDs\<close>] by (metis prod.exhaust)
  then show ?thesis using diagnosis_request [OF h, of 1 NewDiagStore] by blast
qed

section \<open>Escalation\<close>

text \<open>
  Resolving an escalation of a store in order marks it resolved with the time of the request and leaves the others; an
  unknown identifier is answered 404 and changes nothing.
\<close>

theorem escalation_resolve:
  assumes "esc_inv s"
  shows "case GetEscByID s i of
      None \<Rightarrow> resolveEscalationHandler t i s = (NotFound404, s)
    | Some e \<Rightarrow> code (fst (resolveEscalationHandler t i s)) = 204 \<and> esc_inv (snd (resolveEscalationHandler t i s)) \<and>
        (\<forall>j. GetEscByID (snd (resolveEscalationHandler t i s)) j = (if j = i then Some (Resolve t e) else GetEscByID s j))"
  using resolve_effect [OF assms] resolve_inv [OF assms, of t i]
  by (auto simp: resolveEscalationHandler_def split: option.splits)

definition demo_esc :: Escalation where
  "demo_esc = \<lparr>EID = ''esc-1'', EGPUID = ''GPU-00001'', DiagnosisID = ''diag-1'', ESeverity = ''critical'', EStatus = StatusOpen,
     CreatedAt = 0, ResolvedAt = None\<rparr>"

lemma demo_esc_inv: "esc_inv (SaveEsc demo_esc NewEscStore)"
  by (rule esc_store.invar_save) (simp add: NewEscStore_def)

lemma demo_esc_get: "GetEscByID (SaveEsc demo_esc NewEscStore) ''esc-1'' = Some demo_esc"
  by (simp add: esc_store.get_save demo_esc_def)

theorem escalation_resolve_witness:
  "GetEscByID (snd (resolveEscalationHandler 9 ''esc-1'' (SaveEsc demo_esc NewEscStore))) ''esc-1'' = Some (Resolve 9 demo_esc)"
  using escalation_resolve [OF demo_esc_inv, where i = "''esc-1''" and t = 9] by (simp add: demo_esc_get)

text \<open>
  Creating an escalation checks the identifier of the URL but stores under the identifier of the body: when the two
  differ, an escalation that already exists under the body's identifier is overwritten, resolved or not.
\<close>

theorem create_overwrites:
  assumes "GetEscByID s i = None" and "GetEscByID s (EID e) = Some old"
  shows "fst (createEscalationHandler i (Inr (Some e)) s) = Json 201 e \<and>
    GetEscByID (snd (createEscalationHandler i (Inr (Some e)) s)) (EID e) = Some e"
  using assms by (simp add: createEscalationHandler_def esc_store.get_save)

section \<open>The monitoring workflow\<close>

text \<open>
  C32. A successful run of the workflow on a GPU of a consistent fleet stores a diagnosis of a snapshot of that GPU, whatever
  the retries of its activities, and leaves the simulator's states alone. It raises an escalation for a GPU with an uncorrectable memory error or a critical
  thermal failure, and none for one whose failure is power, a correctable memory error or none, even a critical one.
\<close>

theorem monitor_escalates_critical:
  assumes "temporal_exec exec" and "MonitorGPU exec (gpu_id n) w = (Inr (), w')" and "1 \<le> n" and "n \<le> 10000"
    and "gstate (gpkg w) (gpu_id n) = Some st" and "state_ok st"
  shows "(\<exists>h ts. snapshot_ok n st h \<and> GetDiagByID (diagnosisStore w') (''diag-'' @ gpu_id n) = Some (Analyze h ts)) \<and>
    gstate (gpkg w') = gstate (gpkg w) \<and>
    (failureType st = FailureTypeECCDouble \<or> failureType st = FailureTypeThermal \<and> status st = StatusCritical \<longrightarrow>
       (\<exists>e. GetEscByID (escalationStore w') (''esc-'' @ gpu_id n) = Some e \<and> EStatus e = StatusOpen \<and> EGPUID e = gpu_id n)) \<and>
    (failureType st \<in> {FailureTypePower, FailureTypeECCSingle, FailureTypeNone} \<longrightarrow> escalationStore w' = escalationStore w)"
  using assms(1,2)
proof (rule MonitorGPU_run)
  fix h t g g' ts
  assume r: "GetHealth t (gpu_id n) g = (Inr h, g')" "gstate g = gstate (gpkg w)" "gstate (gpkg w') = gstate (gpkg w)"
    "GetDiagByID (diagnosisStore w') (''diag-'' @ gpu_id n) = Some (Analyze h ts)"
    "severity_spec h \<noteq> SeverityCritical \<Longrightarrow> escalationStore w' = escalationStore w"
    "severity_spec h = SeverityCritical \<Longrightarrow>
      \<exists>e. GetEscByID (escalationStore w') (''esc-'' @ gpu_id n) = Some e \<and> EStatus e = StatusOpen \<and> EGPUID e = gpu_id n \<and>
        DiagnosisID e = ''diag-'' @ gpu_id n \<and> ESeverity e = ''critical'' \<and> ResolvedAt e = None"
  have snap: "snapshot_ok n st h" using GetHealth_snapshot [OF assms(3,4), of g st t] assms(5,6) r(1,2) by auto
  note sev = snapshot_double [OF snap] snapshot_thermal [OF snap] snapshot_power [OF snap assms(6)] snapshot_mild [OF snap assms(6)]
  show ?thesis using r(3-6) snap sev by auto
qed

lemma temporal_direct: "temporal_exec run_activity"
  unfolding temporal_exec_def by (intro allI exI [of _ 1]) (simp split: prod.splits)

definition demo_worker :: worker where
  "demo_worker = (worker_init (\<lambda>_. 0) (\<lambda>_. 0))\<lparr>gpkg := demo_pkg\<rparr>"

lemma MonitorGPU_direct:
  assumes "GetHealth (clock w (clock_pos w)) i (gpkg w) = (Inr h, g)"
  shows "\<exists>w'. MonitorGPU run_activity i w = (Inr (), w')"
  using assms
  by (simp add: MonitorGPU_def Activity_GetHealth_def worker_now_def Let_def Activity_Diagnose_def Activity_Escalate_def)

theorem monitor_escalates_critical_witness:
  "\<exists>w' e. MonitorGPU run_activity (gpu_id 7) demo_worker = (Inr (), w') \<and>
     GetEscByID (escalationStore w') (''esc-'' @ gpu_id 7) = Some e \<and> EStatus e = StatusOpen \<and> EGPUID e = gpu_id 7"
proof -
  let ?st = "mk_state StatusCritical FailureTypeECCDouble"
  have st: "gstate (gpkg demo_worker) (gpu_id 7) = Some ?st" using demo_pkg_state by (simp add: demo_worker_def)
  have ok: "state_ok ?st" by (simp add: state_ok_def)
  have n: "1 \<le> (7::nat)" "7 \<le> (10000::nat)" by simp_all
  obtain h g where "GetHealth (clock demo_worker (clock_pos demo_worker)) (gpu_id 7) (gpkg demo_worker) = (Inr h, g)"
    using GetHealth_snapshot [OF n st ok] by blast
  then obtain w' where w': "MonitorGPU run_activity (gpu_id 7) demo_worker = (Inr (), w')" using MonitorGPU_direct by blast
  show ?thesis using monitor_escalates_critical [OF temporal_direct w' n st ok] w' by auto
qed

text \<open>
  C37. The worker process runs its workflows on a simulator of its own that no ticker drives: whatever the interleaving and the
  retries of its activities, every diagnosis is below critical and its escalation store stays empty.
\<close>

theorem worker_never_escalates:
  assumes "worker_run w H D"
  shows "escalationStore w = NewEscStore \<and> (\<forall>d \<in> D. DSeverity d \<noteq> SeverityCritical)"
  using worker_run_inv [OF assms] by blast

theorem worker_never_escalates_witness:
  "escalationStore (snd (MonitorGPU run_activity (gpu_id 7) (worker_init (\<lambda>_. 0) (\<lambda>_. 0)))) = NewEscStore"
proof -
  obtain res w' where r: "MonitorGPU run_activity (gpu_id 7) (worker_init (\<lambda>_. 0) (\<lambda>_. 0)) = (res, w')" by fastforce
  obtain H D where "worker_run w' H D" using MonitorGPU_worker_run [OF temporal_direct worker_start r] by blast
  from worker_never_escalates [OF this] show ?thesis by (simp add: r)
qed

section \<open>The worker pool\<close>

lemma pool_step_cancelled: "pool_step p p' \<Longrightarrow> cancelled p' = cancelled p"
  by (induction rule: pool_step.induct) simp_all

lemma pool_completes:
  "pool_reachable p \<Longrightarrow> \<exists>p'. pool_reachable p' \<and> pool_over p' \<and> cancelled p' = cancelled p"
proof (induction "pool_work p" arbitrary: p rule: less_induct)
  case less
  show ?case
  proof (cases "pool_over p")
    case True
    then show ?thesis using less.prems by blast
  next
    case False
    have inv: "chans_inv p" using pool_inv [OF less.prems] by blast
    obtain q where q: "pool_step p q" using pool_enabled [OF inv False] by blast
    from less.hyps [OF pool_work_decreases [OF q inv] pool_next [OF less.prems q]]
    show ?thesis using pool_step_cancelled [OF q] by simp
  qed
qed

lemma distinct_of_count: "(\<And>i. count (mset xs) i \<le> 1) \<Longrightarrow> distinct xs"
proof (induction xs)
  case (Cons x xs)
  have "count (mset xs) i \<le> 1" for i by (rule le_trans [OF _ Cons.prems [of i]]) simp
  moreover have "x \<notin> set xs" using Cons.prems [of x] by (simp add: count_mset_0_iff)
  ultimately show ?case using Cons.IH by simp
qed simp

lemma count_of_distinct: "distinct xs \<Longrightarrow> count (mset xs) i \<le> 1"
  by (simp add: distinct_count_atmost_1)

lemma carried_returned: "set ws \<subseteq> {Returned} \<Longrightarrow> sum_list (map carried ws) = {#}"
  by (induction ws) auto

text \<open>
  C13. A listing of the fleet whose context did not end early contains exactly one snapshot of each of the 10000 GPUs,
  each a faithful reading of a consistent state, however the feeder, the hundred workers and the simulator interleave.
\<close>

theorem pool_reports_fleet:
  assumes "pool_reachable p" and "consumer p = Complete" and "\<not> cancelled p"
  shows "mset (map GPUID (healths p)) = mset AllIDs \<and> (\<forall>h \<in> set (healths p). reading_ok h) \<and>
    fetchAllGPUs p = Json 200 (healths p) \<and> streamSnapshot p = map Data (healths p) @ [Done]"
proof -
  have inv: "chans_inv p" "flow_inv p" "readings_inv p" using pool_inv [OF assms(1)] by blast+
  have ret: "results_closed p" "results p = []" "set (workers p) \<subseteq> {Returned}" using inv(1) assms(2) by (auto simp: chans_inv_def)
  have "workers p \<noteq> []" using inv(1) by (auto simp: chans_inv_def workerPoolSize_def)
  then have "Returned \<in> set (workers p)" using ret(3) by (cases "workers p") auto
  then have "jobs p = []" "todo p = []" using inv(1) assms(3) by (auto simp: chans_inv_def)
  then have "mset (map GPUID (healths p)) = mset AllIDs"
    using inv(2) assms(3) ret carried_returned [OF ret(3)] by (simp add: flow_inv_def in_flight_def)
  then show ?thesis using inv(3) assms(2) by (auto simp: readings_inv_def fetchAllGPUs_def streamSnapshot_def)
qed

theorem pool_reports_fleet_witness:
  "\<exists>p. pool_reachable p \<and> mset (map GPUID (healths p)) = mset AllIDs \<and> fetchAllGPUs p = Json 200 (healths p)"
proof -
  obtain p where p: "pool_reachable p" "pool_over p" "\<not> cancelled p"
    using pool_completes [OF pool_start [OF sim_start]] by (auto simp: runWorkerPool_def)
  have "consumer p = Complete" using p pool_inv [OF p(1)] by (cases "consumer p") (auto simp: pool_over_def chans_inv_def)
  then show ?thesis using pool_reports_fleet [OF p(1) _ p(3)] p(1) by blast
qed

text \<open>
  C33. No goroutine of the pool sends on a closed channel, the buffers stay within their hundred entries, and even a listing that
  was cancelled never contains a GPU twice.
\<close>

theorem pool_safe:
  assumes "pool_reachable p"
  shows "\<not> crashed p \<and> length (jobs p) \<le> 100 \<and> length (results p) \<le> 100 \<and> distinct (map GPUID (healths p))"
proof -
  have inv: "chans_inv p" "flow_inv p" using pool_inv [OF assms] by blast+
  have "mset (map GPUID (healths p)) \<subseteq># in_flight p" unfolding in_flight_def by simp
  then have "mset (map GPUID (healths p)) \<subseteq># mset AllIDs" using inv(2) subset_mset.trans unfolding flow_inv_def by blast
  then have "count (mset (map GPUID (healths p))) i \<le> 1" for i
    using count_of_distinct [OF distinct_AllIDs, of i] mset_subset_eq_count [of "mset (map GPUID (healths p))" "mset AllIDs" i]
    by linarith
  then have "distinct (map GPUID (healths p))" by (rule distinct_of_count)
  then show ?thesis using inv(1) by (simp add: chans_inv_def workerPoolSize_def)
qed

theorem pool_safe_witness:
  "\<not> crashed (runWorkerPool (gpu_init (\<lambda>_. 0)) AllIDs) \<and> length (jobs (runWorkerPool (gpu_init (\<lambda>_. 0)) AllIDs)) \<le> 100 \<and>
   length (results (runWorkerPool (gpu_init (\<lambda>_. 0)) AllIDs)) \<le> 100 \<and>
   distinct (map GPUID (healths (runWorkerPool (gpu_init (\<lambda>_. 0)) AllIDs)))"
  by (rule pool_safe [OF pool_start [OF sim_start]])

text \<open>
  C14. Termination: until the pool is over, with every goroutine returned and the handler done, one of its goroutines can take a step; every
  step of the pool decreases a measure that the simulator and a cancellation leave alone. So each request ends and leaks no goroutine, cancelled or not.
\<close>

theorem pool_terminates:
  assumes "pool_reachable p"
  shows "(\<not> pool_over p \<longrightarrow> (\<exists>p'. pool_step p p')) \<and> (\<forall>p'. pool_step p p' \<longrightarrow> pool_work p' < pool_work p) \<and>
    (\<forall>p'. env_step p p' \<longrightarrow> pool_work p' = pool_work p)"
  using pool_inv [OF assms] pool_enabled [of p] pool_work_decreases [of p] env_pool_work [of p] by blast

theorem pool_terminates_witness:
  "\<exists>p'. pool_step (runWorkerPool (gpu_init (\<lambda>_. 0)) AllIDs) p' \<and> pool_work p' < 40103"
proof -
  let ?p = "runWorkerPool (gpu_init (\<lambda>_. 0)) AllIDs"
  have "\<not> pool_over ?p" by (simp add: pool_over_def runWorkerPool_def)
  then obtain p' where "pool_step ?p p'" "pool_work p' < pool_work ?p"
    using pool_terminates [OF pool_start [OF sim_start]] by blast
  then show ?thesis by (metis pool_work_start)
qed

text \<open>
  When the context of a listing ends early, the handler may still find the results channel closed first and send what it
  has as a complete answer: from every state of the simulator there is a run that answers with an empty fleet.
\<close>

theorem listing_cut_short:
  assumes "sim_reachable g"
  shows "\<exists>p. pool_reachable p \<and> fetchAllGPUs p = Json 200 [] \<and> streamSnapshot p = [Done]"
  by (rule cut_short [OF assms])

section \<open>The event stream\<close>

lemma pool_finishes: "\<exists>p. pool_reachable p \<and> consumer p = Complete"
proof -
  obtain p where p: "pool_reachable p" "pool_over p" "\<not> cancelled p"
    using pool_completes [OF pool_start [OF sim_start]] by (auto simp: runWorkerPool_def)
  have "consumer p = Complete" using p pool_inv [OF p(1)] by (cases "consumer p") (auto simp: pool_over_def chans_inv_def)
  then show ?thesis using p(1) by blast
qed


lemma demo_stream:
  "\<exists>s. stream_reachable s \<and> waiting s = [] \<and> unpublished s = [] \<and> dropped s = {} \<and> updates s \<noteq> []"
proof -
  let ?g = "gpu_init (\<lambda>_. 0)" and ?i = "gpu_id 7" and ?st = "mk_state StatusCritical FailureTypeThermal"
  obtain p where p: "pool_reachable p" "consumer p = Complete" using pool_finishes by blast
  then have "\<exists>s0. eventStreamAllGPUs True p [] ?g = Streaming s0" by (simp add: eventStreamAllGPUs_def split: prod.split)
  then obtain s0 where s0: "eventStreamAllGPUs True p [] ?g = Streaming s0" ..
  have r0: "stream_reachable s0" by (rule stream_begin [OF p(1) fleet_inv_init _ s0]) simp
  have e0: "waiting s0 = []" "unpublished s0 = []" "dropped s0 = {}" "updates s0 = []"
    using s0 p(2) by (auto simp: eventStreamAllGPUs_def waiting_def Subscribe_def Let_def make_chan_def)
  define s1 where "s1 = s0\<lparr>spkg := set_state ?i (status ?st) (failureType ?st) (spkg s0), unpublished := ?i # unpublished s0\<rparr>"
  have "?i \<in> set AllIDs" by (simp add: set_AllIDs)
  then have r1: "stream_reachable s1" unfolding s1_def by (rule stream_next [OF r0 change]) (simp add: state_ok_def)
  have e1: "waiting s1 = []" "unpublished s1 = [?i]" "dropped s1 = {}" using e0 by (simp_all add: s1_def waiting_def set_state_def)
  define s2 where "s2 = s1\<lparr>spkg := publish ?i (spkg s1), unpublished := remove1 ?i (unpublished s1),
    dropped := (if length (waiting s1) < chan_cap then dropped s1 else insert ?i (dropped s1))\<rparr>"
  have r2: "stream_reachable s2" unfolding s2_def by (rule stream_next [OF r1 notify]) (simp add: e1)
  have e2: "waiting s2 = [?i]" "unpublished s2 = []" "dropped s2 = {}"
    using e1 waiting_notify [OF stream_inv [OF r1], of ?i] by (simp_all add: s2_def waiting_def [of s2] chan_cap_def waiting_def)
  obtain h g where f: "GetHealth 0 ?i (receive s2) = (Inr h, g)" "DefaultHub g = DefaultHub (receive s2)"
    using forward_reading [OF stream_inv [OF r2] e2(1), of 0] by blast
  have "stream_reachable (s2\<lparr>spkg := g, updates := updates s2 @ [h], dropped := dropped s2 - {?i}\<rparr>)"
    by (rule stream_next [OF r2 forward [OF e2(1) f(1)]])
  moreover have "waiting (s2\<lparr>spkg := g, updates := updates s2 @ [h], dropped := dropped s2 - {?i}\<rparr>) = []"
    using f(2) e2(1) by (simp add: waiting_def receive_def Let_def)
  ultimately show ?thesis using e2 by (intro exI conjI) (assumption | simp)+
qed


section \<open>The demo set-up\<close>

text \<open>
  C38. Creating the resources of the demo is idempotent on an API server that stores what it accepts: after a run without an error each of the
  twelve GPUs has its resource, as specified unless the name was taken before; resources that were there are unchanged, no other is
  touched, and a second run changes nothing.
\<close>

theorem demo_resources:
  assumes "creates e crs" and "createCRs e w = (None, w')"
  shows "(\<forall>d \<in> set demoGPUs. \<exists>cr. crs w' (defName d) = Some cr \<and> (crs w (defName d) = None \<longrightarrow> created_as d cr)) \<and>
    (\<forall>n cr. crs w n = Some cr \<longrightarrow> crs w' n = Some cr) \<and> (\<forall>n. n \<notin> defName ` set demoGPUs \<longrightarrow> crs w' n = crs w n) \<and>
    crs (snd (createCRs e w')) = crs w'"
proof -
  have new: "\<exists>cr. crs w' (defName d) = Some cr \<and> (crs w (defName d) = None \<longrightarrow> created_as d cr)" if "d \<in> set demoGPUs" for d
    using create_each_new [OF assms(1) assms(2) [unfolded createCRs_def] that demoGPUs_names] .
  then have "crs (snd (createCRs e w')) = crs w'" unfolding createCRs_def by (intro create_each_again [OF assms(1)]) force
  then show ?thesis
    using new create_each_keeps [OF assms(1)] create_each_others [OF assms(1)] assms(2) unfolding createCRs_def by (metis snd_conv)
qed

text \<open>A server that keeps the resources in a map, and nothing else.\<close>

definition demo_outside :: "(unit, string \<rightharpoonup> GPUHealthCR) outside" where
  "demo_outside = \<lparr>Getenv = (\<lambda>_. []), ReadFile = (\<lambda>_ w. (Inr [], w)), RESTConfigFromKubeConfig = (\<lambda>_. Inr ()),
     NewDiscoveryClient = (\<lambda>_. None), ServerVersion = (\<lambda>_ w. (None, w)), UnmarshalCRD = (\<lambda>x. Inr x), NewExtClient = (\<lambda>_. None),
     CreateCRD = (\<lambda>_ _ w. (None, w)), AddToScheme = (\<lambda>_. None), NewClient = (\<lambda>_. None),
     ListNodes = (\<lambda>w. (Inr (replicate 3 \<lparr>Labels = [], WNConditions = [(''Ready'', ''True'')]\<rparr>), w)),
     CreateCR = (\<lambda>cr w. if w (Name cr) = None then (None, w(Name cr \<mapsto> cr)) else (Some AlreadyExists, w)),
     NewRequest = (\<lambda>_. None), DoPut = (\<lambda>_ _ w. (Inr 200, w)), Dial = (\<lambda>_ w. (None, w)), ExecuteWorkflow = (\<lambda>_ _ _ w. (None, w)),
     Sleep = (\<lambda>_ w. w)\<rparr>"

lemma demo_outside_creates: "creates demo_outside (\<lambda>w. w)"
  by (auto simp: creates_def demo_outside_def as_specified_def)

lemma demo_outside_succeeds: "fst (create_each demo_outside ds w) = None"
  by (induction ds arbitrary: w) (auto simp: demo_outside_def)

theorem demo_resources_witness:
  "\<exists>cr. snd (createCRs demo_outside Map.empty) ''gpu-drain-2'' = Some cr \<and> SpecGPUID (Spec cr) = ''GPU-00002'' \<and>
     policy cr = RemediationPolicyDrain"
proof -
  let ?d = "gpu_def ''gpu-drain-2'' demoNode1 ''GPU-00002'' RemediationPolicyDrain"
  have "createCRs demo_outside Map.empty = (None, snd (createCRs demo_outside Map.empty))"
    using demo_outside_succeeds [of demoGPUs Map.empty] by (simp add: createCRs_def prod_eq_iff)
  note demo_resources [OF demo_outside_creates this]
  moreover have "?d \<in> set demoGPUs" by (simp add: demoGPUs_def)
  ultimately have "\<exists>cr. snd (createCRs demo_outside Map.empty) (defName ?d) = Some cr \<and> created_as ?d cr" by blast
  then show ?thesis by (auto simp: gpu_def_def created_as_def)
qed

text \<open>
  The loop that waits for the worker nodes returns exactly when one of its polls, each made after all earlier ones failed, lists
  enough ready nodes that are not control-plane nodes; until then it goes on.
\<close>

theorem demo_waits:
  assumes "buildK8sClient e cfg = None"
  shows "(\<exists>v'. waitForNodes e cfg required w = Some (Inr (), v')) \<longleftrightarrow>
    (\<exists>n v items v'. after_rounds (nodes_attempt e required) (Sleep e) n w = Some v \<and> ListNodes e v = (Inr items, v') \<and>
       required \<le> count_ready items)"
proof -
  have "nodes_attempt e required v = (Inr (), v') \<longleftrightarrow> (\<exists>items. ListNodes e v = (Inr items, v') \<and> required \<le> count_ready items)" for v v'
    by (auto simp: nodes_attempt_def split: prod.splits sum.splits)
  then show ?thesis using assms poll_iff [of "nodes_attempt e required" "Sleep e" w "()"]
    by (auto simp: waitForNodes_def)
qed

theorem demo_waits_witness:
  "\<exists>v'. waitForNodes demo_outside () 3 Map.empty = Some (Inr (), v')"
proof -
  have b: "buildK8sClient demo_outside () = None" by (simp add: buildK8sClient_def demo_outside_def)
  have l: "ListNodes demo_outside Map.empty = (Inr (replicate 3 \<lparr>Labels = [], WNConditions = [(''Ready'', ''True'')]\<rparr>), Map.empty)"
    by (simp add: demo_outside_def)
  have c: "3 \<le> count_ready (replicate 3 \<lparr>Labels = [], WNConditions = [(''Ready'', ''True'')]\<rparr>)"
    by (simp add: count_ready_def numeral_3_eq_3)
  have "after_rounds (nodes_attempt demo_outside 3) (Sleep demo_outside) 0 Map.empty = Some Map.empty" by simp
  then show ?thesis using demo_waits [OF b, of 3 Map.empty] l c by blast
qed

text \<open>
  The settings the demo sends are accepted by the telemetry service. They leave out the recovery and the replacement warning
  rate, which the service takes as zero: from then on every replaced GPU, and every recovered GPU without a memory error, comes back healthy.
\<close>

theorem demo_tuning:
  assumes "putSimulationSettingsHandler (Some tuning) c = (resp, c')" and "Config g = c'" and "gstate g gid = Some st"
  shows "resp = Json 200 c' \<and> SpeedMultiplier c' = 5 \<and>
    gstate (snd (replaceGPUHandler gid g)) gid = Some (mk_state StatusHealthy FailureTypeNone) \<and>
    (failureType st \<notin> {FailureTypeECCSingle, FailureTypeECCDouble} \<longrightarrow>
       gstate (snd (recoverGPUHandler gid g)) gid = Some (mk_state StatusHealthy FailureTypeNone))"
proof -
  obtain s where s: "decode_settings (Some tuning) = Some s" "valid_settings s" "SpeedMultiplier s = 5"
    "RecoveryWarningRate s = 0" "ReplacementWarningRate s = 0"
    using tuning_decodes by blast
  then have c: "resp = Json 200 s" "c' = s" using put_settings_accepts [of "Some tuning" c s s] assms(1) by auto
  obtain r g1 where d: "Float64 g = (r, g1)" by fastforce
  have r: "0 \<le> r" "Config g1 = s" using Float64_range [OF d] draw_frame(1) [OF d] assms(2) c by auto
  show ?thesis using assms(3) c s(3-5) d r
    by (auto simp: replace_handler_state recover_handler_state Replace_def Recover_def GetState_Some)
qed

theorem demo_tuning_witness:
  "gstate (snd (replaceGPUHandler (gpu_id 7) (demo_pkg\<lparr>Config := snd (putSimulationSettingsHandler (Some tuning) Config_init)\<rparr>))) (gpu_id 7)
     = Some (mk_state StatusHealthy FailureTypeNone)"
proof -
  obtain resp c' where p: "putSimulationSettingsHandler (Some tuning) Config_init = (resp, c')" by fastforce
  have g: "gstate (demo_pkg\<lparr>Config := c'\<rparr>) (gpu_id 7) = Some (mk_state StatusCritical FailureTypeECCDouble)"
    using demo_pkg_state by simp
  show ?thesis using demo_tuning [OF p _ g] by (simp add: p)
qed

end
