(* ===== verification/Schema.thy ===== *)
theory Schema
  imports Cluster Demo_Setup
begin

text \<open>
  The schema of the custom resource, as the markers \<^verbatim>\<open>+kubebuilder:default\<close>,
  \<^verbatim>\<open>+kubebuilder:validation\<close> and the JSON tags of \<^verbatim>\<open>api/v1alpha1/gpuhealth_types.go\<close> give it: what the API
  server fills in, what it refuses, and how a Go value reaches it. The lemmas show that what the operator
  and the demo set-up write is inside the schema.
\<close>

section \<open>The specification\<close>

text \<open>A specification as JSON: a field that is left out is \<^const>\<open>None\<close>.\<close>

record spec_fields =
  nodeName :: "string option"
  gpuID :: "string option"
  remediationPolicy :: "RemediationPolicy option"
  maxRemediationAttempts :: "32 word option"
  replacementTimeoutSeconds :: "32 word option"
  rejoiningTimeoutSeconds :: "32 word option"

definition omitempty :: "32 word \<Rightarrow> 32 word option" where
  "omitempty n = (if n = 0 then None else Some n)"

definition marshal_spec :: "GPUHealthSpec \<Rightarrow> spec_fields" where
  "marshal_spec s = \<lparr>nodeName = Some (NodeName s), gpuID = Some (SpecGPUID s), remediationPolicy = Some (RemediationPolicy s),
     maxRemediationAttempts = omitempty (MaxRemediationAttempts s),
     replacementTimeoutSeconds = omitempty (ReplacementTimeoutSeconds s),
     rejoiningTimeoutSeconds = omitempty (RejoiningTimeoutSeconds s)\<rparr>"

definition or_default :: "'a \<Rightarrow> 'a option \<Rightarrow> 'a option" where
  "or_default d x = (case x of None \<Rightarrow> Some d | Some v \<Rightarrow> Some v)"

definition default_spec :: "spec_fields \<Rightarrow> spec_fields" where
  "default_spec f = f\<lparr>remediationPolicy := or_default RemediationPolicyNone (remediationPolicy f),
     maxRemediationAttempts := or_default 3 (maxRemediationAttempts f),
     replacementTimeoutSeconds := or_default 1800 (replacementTimeoutSeconds f),
     rejoiningTimeoutSeconds := or_default 300 (rejoiningTimeoutSeconds f)\<rparr>"

fun valid_policy :: "RemediationPolicy \<Rightarrow> bool" where
  "valid_policy (RemediationPolicyOther _) = False"
| "valid_policy _ = True"

definition all_if_set :: "('a \<Rightarrow> bool) \<Rightarrow> 'a option \<Rightarrow> bool" where
  "all_if_set P x = (case x of None \<Rightarrow> True | Some v \<Rightarrow> P v)"

definition valid_spec :: "spec_fields \<Rightarrow> bool" where
  "valid_spec f \<longleftrightarrow> nodeName f \<noteq> None \<and> gpuID f \<noteq> None \<and> remediationPolicy f \<noteq> None \<and>
     all_if_set valid_policy (remediationPolicy f) \<and>
     all_if_set (\<lambda>n. 1 \<le>s n \<and> n \<le>s 100) (maxRemediationAttempts f) \<and>
     all_if_set (\<lambda>n. 60 \<le>s n) (replacementTimeoutSeconds f) \<and> all_if_set (\<lambda>n. 60 \<le>s n) (rejoiningTimeoutSeconds f)"

text \<open>Decoding leaves a field that is not there at its zero value.\<close>

definition unmarshal_spec :: "spec_fields \<Rightarrow> GPUHealthSpec" where
  "unmarshal_spec f = \<lparr>NodeName = case_option [] id (nodeName f), SpecGPUID = case_option [] id (gpuID f),
     RemediationPolicy = case_option (RemediationPolicyOther []) id (remediationPolicy f),
     MaxRemediationAttempts = case_option 0 id (maxRemediationAttempts f),
     ReplacementTimeoutSeconds = case_option 0 id (replacementTimeoutSeconds f),
     RejoiningTimeoutSeconds = case_option 0 id (rejoiningTimeoutSeconds f)\<rparr>"

definition admit_spec :: "spec_fields \<Rightarrow> spec_fields option" where
  "admit_spec f = (if valid_spec (default_spec f) then Some (default_spec f) else None)"

section \<open>The status\<close>

fun valid_phase :: "GPUPhase \<Rightarrow> bool" where
  "valid_phase (PhaseOther _) = False"
| "valid_phase _ = True"  \<comment> \<open>the empty phase is left out of the JSON (\<^verbatim>\<open>omitempty\<close>)\<close>

fun valid_finding_type :: "FindingType \<Rightarrow> bool" where
  "valid_finding_type (FindingOther _) = False"
| "valid_finding_type _ = True"

definition valid_finding :: "CRFinding \<Rightarrow> bool" where
  "valid_finding f \<longleftrightarrow> valid_finding_type (Type f) \<and> CRSeverity f \<in> {FindingSeverityWarning, FindingSeverityCritical} \<and> 1 \<le>s Count f"

definition valid_status :: "GPUHealthStatus \<Rightarrow> bool" where
  "valid_status st \<longleftrightarrow> valid_phase (Phase st) \<and> distinct (map CondType (Conditions st)) \<and>
     length (StatusFindings st) \<le> 100 \<and> list_all valid_finding (StatusFindings st)"

section \<open>Admission of a specification\<close>

lemmas schema_defs = marshal_spec_def default_spec_def unmarshal_spec_def omitempty_def or_default_def all_if_set_def

lemma default_spec_idem: "default_spec (default_spec f) = default_spec f"
  by (simp add: default_spec_def or_default_def split: option.splits)

lemma admit_spec_fixed: "admit_spec f = Some g \<Longrightarrow> admit_spec g = Some g \<and> valid_spec g"
  by (auto simp: admit_spec_def default_spec_idem split: if_splits)

text \<open>A Go value reaches the server with its zero fields replaced by the defaults.\<close>

definition with_defaults :: "GPUHealthSpec \<Rightarrow> GPUHealthSpec" where
  "with_defaults s = s\<lparr>MaxRemediationAttempts := (if MaxRemediationAttempts s = 0 then 3 else MaxRemediationAttempts s),
     ReplacementTimeoutSeconds := (if ReplacementTimeoutSeconds s = 0 then 1800 else ReplacementTimeoutSeconds s),
     RejoiningTimeoutSeconds := (if RejoiningTimeoutSeconds s = 0 then 300 else RejoiningTimeoutSeconds s)\<rparr>"

definition spec_in_range :: "GPUHealthSpec \<Rightarrow> bool" where
  "spec_in_range s \<longleftrightarrow> valid_policy (RemediationPolicy s) \<and> 1 \<le> sint (MaxRemediationAttempts s) \<and>
     sint (MaxRemediationAttempts s) \<le> 100 \<and> 60 \<le> sint (ReplacementTimeoutSeconds s) \<and> 60 \<le> sint (RejoiningTimeoutSeconds s)"

lemma unmarshal_default: "unmarshal_spec (default_spec (marshal_spec s)) = with_defaults s"
  by (simp add: schema_defs with_defaults_def)

lemma valid_spec_iff: "valid_spec (default_spec (marshal_spec s)) \<longleftrightarrow> spec_in_range (with_defaults s)"
  by (auto simp: valid_spec_def spec_in_range_def with_defaults_def schema_defs word_sle_eq)

lemma with_defaults_id: "spec_in_range s \<Longrightarrow> with_defaults s = s"
  by (auto simp: with_defaults_def spec_in_range_def)

lemma admit_marshal:
  "map_option unmarshal_spec (admit_spec (marshal_spec s)) = (if spec_in_range (with_defaults s) then Some (with_defaults s) else None)"
  by (simp add: admit_spec_def valid_spec_iff unmarshal_default)

lemma unmarshal_valid: "admit_spec f = Some g \<Longrightarrow> spec_in_range (unmarshal_spec g)"
  by (auto simp: admit_spec_def valid_spec_def spec_in_range_def schema_defs word_sle_eq split: option.splits if_splits)

text \<open>The durations computed from an admitted specification are those of unbounded arithmetic.\<close>

lemma timeout_in_range:
  assumes "spec_in_range s"
  shows "0 < timeout (ReplacementTimeoutSeconds s)" and "timeout (ReplacementTimeoutSeconds s) < 2 ^ 63"
    and "0 < timeout (RejoiningTimeoutSeconds s)" and "timeout (RejoiningTimeoutSeconds s) < 2 ^ 63"
  using assms sint_lt [of "ReplacementTimeoutSeconds s"] sint_lt [of "RejoiningTimeoutSeconds s"]
  by (simp_all add: timeout_def spec_in_range_def)

section \<open>What a merge of findings keeps\<close>

lemma candidates_valid:
  assumes "c \<in> set (candidates tel)"
  shows "valid_finding_type (Type c) \<and> CRSeverity c \<in> {FindingSeverityWarning, FindingSeverityCritical}"
  using assms
  by (auto simp: candidates_def ecc_candidates_def core_candidates_def memory_candidates_def power_candidates_def
      candidate_def Let_def split: if_splits)

lemma Count_Suc:
  fixes n :: "32 word"
  assumes "1 \<le>s n" and "sint n < 2 ^ 31 - 1"
  shows "1 \<le>s n + 1"
proof -
  have "sint (n + 1) = signed_take_bit 31 (sint n + 1)" by (simp add: sint_word_ariths)
  also have "\<dots> = sint n + 1" using assms by (intro signed_take_bit_int_eq_self) (simp_all add: word_sle_eq)
  finally show ?thesis using assms(1) by (simp add: word_sle_eq)
qed

definition counts_below :: "CRFinding list \<Rightarrow> bool" where
  "counts_below fs \<longleftrightarrow> list_all (\<lambda>f. sint (Count f) < 2 ^ 31 - 1) fs"

lemma first_seen_valid:
  "valid_finding_type (Type c) \<Longrightarrow> CRSeverity c \<in> {FindingSeverityWarning, FindingSeverityCritical} \<Longrightarrow> valid_finding (first_seen ts c)"
  by (auto simp: valid_finding_def first_seen_def word_sle_eq word_sless_alt)

lemma seen_again_valid:
  assumes "valid_finding f" and "sint (Count f) < 2 ^ 31 - 1" and "CRSeverity c \<in> {FindingSeverityWarning, FindingSeverityCritical}"
  shows "valid_finding (seen_again ts c f)"
  using assms Count_Suc [of "Count f"] by (auto simp: valid_finding_def seen_again_def word_sle_eq word_sless_alt)

lemma mergeFindings_valid:
  assumes "one_per_type fs" and "list_all valid_finding fs" and "counts_below fs"
  shows "list_all valid_finding (mergeFindings ts fs tel n)"
proof -
  have "valid_finding (merged ts fs c)" if "c \<in> set (candidates tel)" for c
    using candidates_valid [OF that] assms
    by (auto simp: merged_def finding_of_Some counts_below_def list_all_iff intro!: first_seen_valid seen_again_valid split: option.splits)
  then have "\<forall>f \<in> set (merge_spec ts (candidates tel) fs). valid_finding f"
    using assms(2) by (auto simp: merge_spec_def list_all_iff)
  then show ?thesis unfolding mergeFindings_eq [OF assms(1)] list_all_iff by (meson in_set_dropD)
qed

section \<open>Properties\<close>





text \<open>
  Every resource of the demo is admitted, with the default timeouts, and starts inside the limits that bound its remediation.
\<close>

theorem demo_resources_admitted:
  assumes "d \<in> set demoGPUs"
  shows "\<exists>g. admit_spec (marshal_spec (Spec (new_cr d))) = Some g \<and> spec_in_range (unmarshal_spec g) \<and>
    limits_ok ((new_cr d)\<lparr>Spec := unmarshal_spec g\<rparr>) \<and> valid_status (Status (new_cr d))"
proof -
  have "valid_policy (defPolicy d)" using assms by (auto simp: demoGPUs_def gpu_def_def)
  then have r: "spec_in_range (with_defaults (Spec (new_cr d)))" by (simp add: spec_in_range_def with_defaults_def new_cr_def)
  then obtain g where g: "admit_spec (marshal_spec (Spec (new_cr d))) = Some g" "unmarshal_spec g = with_defaults (Spec (new_cr d))"
    using admit_marshal [of "Spec (new_cr d)"] by auto
  then show ?thesis using r by (auto simp: limits_ok_def valid_status_def new_cr_def with_defaults_def)
qed

end
