(* ===== verification/Deep_Copy.thy ===== *)
theory Deep_Copy
  imports Cluster
begin

text \<open>
  The generated copy functions of the custom resource (\<^verbatim>\<open>api/v1alpha1/zz_generated.deepcopy.go\<close>) and the in-place
  merge of findings of the controller, on a Go heap. The other theories treat a resource as a value;
  here its pointers and slices are addresses, so that two resources may share memory. The lemmas show that a copy has
  the value of its original and shares nothing with it, that the merge on slices computes the merge on lists,
  and that merging into a copy leaves the object it was copied from alone.

  The heap is the list of its objects, an address is a position in it. An object is a struct or an array. A slice is an
  array, an offset and a length; its capacity is what the array has beyond the offset. A nil
  pointer or slice is \<open>None\<close>.
\<close>

section \<open>The heap\<close>

type_synonym addr = nat

record slice =
  Arr :: addr
  Off :: nat
  Len :: nat

record hGPUHealthStatus =
  HPhase :: GPUPhase
  HReplacementStartedAt :: "addr option"
  HConditions :: "slice option"
  HFindings :: "slice option"
  HRemediationAttempts :: "32 word"
  HLastTransitionTime :: "addr option"
  HObservedGeneration :: "64 word"

text \<open>The metadata: the fields the controller reads, and the rest, which belongs to the library.\<close>

record 'm ObjectMeta =
  MName :: string
  MUID :: string
  MResourceVersion :: string
  MGeneration :: "64 word"
  MRest :: 'm

record 'm hGPUHealth =
  HTypeMeta :: "string \<times> string"
  HMeta :: "'m ObjectMeta"
  HSpec :: GPUHealthSpec
  HStatus :: hGPUHealthStatus

record 'l hGPUHealthList =
  LTypeMeta :: "string \<times> string"
  LMeta :: 'l
  LItems :: "slice option"

datatype ('m, 'l) obj =
  OTime time | OConditions "Condition list" | OFindings "CRFinding list" | OItems "'m hGPUHealth list"
| OFinding CRFinding | OGPUHealth "'m hGPUHealth" | OList "'l hGPUHealthList" | OSpec GPUHealthSpec | OStatus hGPUHealthStatus

type_synonym ('m, 'l) heap = "('m, 'l) obj list"

definition alloc :: "('m, 'l) obj \<Rightarrow> ('m, 'l) heap \<Rightarrow> addr \<times> ('m, 'l) heap" where
  "alloc x h = (length h, h @ [x])"

fun time_in :: "('m, 'l) obj \<Rightarrow> time" where
  "time_in (OTime t) = t"
| "time_in _ = 0"

fun conditions_in :: "('m, 'l) obj \<Rightarrow> Condition list" where
  "conditions_in (OConditions cs) = cs"
| "conditions_in _ = []"

fun findings_in :: "('m, 'l) obj \<Rightarrow> CRFinding list" where
  "findings_in (OFindings fs) = fs"
| "findings_in _ = []"

fun items_in :: "('m, 'l) obj \<Rightarrow> 'm hGPUHealth list" where
  "items_in (OItems xs) = xs"
| "items_in _ = []"

definition elems :: "(('m, 'l) obj \<Rightarrow> 'a list) \<Rightarrow> ('m, 'l) heap \<Rightarrow> slice option \<Rightarrow> 'a list" where
  "elems rd h sl = (case sl of None \<Rightarrow> [] | Some s \<Rightarrow> take (Len s) (drop (Off s) (rd (h ! Arr s))))"

section \<open>The copy functions\<close>

text \<open>
  The copy functions of the metadata types are those of the library. A receiver is what its pointer points to,
  \<open>None\<close> when the pointer is nil; \<^verbatim>\<open>DeepCopyInto\<close> returns what it writes into \<^verbatim>\<open>out\<close>.
\<close>

record ('m, 'l) copies =
  copyTime :: "time \<Rightarrow> time"
  copyCondition :: "Condition \<Rightarrow> Condition"
  copyObjectMeta :: "'m ObjectMeta \<Rightarrow> 'm ObjectMeta"
  copyListMeta :: "'l \<Rightarrow> 'l"

definition zero_finding :: CRFinding where
  "zero_finding = \<lparr>Type = FindingOther [], CRSeverity = [], Message = [], Count = 0, ObservedAt = 0\<rparr>"

definition zero_condition :: Condition where
  "zero_condition = \<lparr>CondType = [], CondStatus = False, CondObservedGeneration = 0, Reason = [], CondMessage = [], CondTransition = 0\<rparr>"

text \<open>\<^verbatim>\<open>*out = make([]T, len(*in))\<close> and the loop that copies the elements, for a slice that is not nil.\<close>

definition copy_slice ::
  "('a list \<Rightarrow> ('m, 'l) obj) \<Rightarrow> (('m, 'l) obj \<Rightarrow> 'a list) \<Rightarrow> 'a \<Rightarrow> ('a \<Rightarrow> ('m, 'l) heap \<Rightarrow> 'a \<times> ('m, 'l) heap) \<Rightarrow>
     slice option \<Rightarrow> ('m, 'l) heap \<Rightarrow> slice option \<times> ('m, 'l) heap" where
  "copy_slice mk rd zero cp sl h =
     (case sl of
        None \<Rightarrow> (None, h)
      | Some s \<Rightarrow>
          (case alloc (mk (replicate (Len s) zero)) h of
             (a, h) \<Rightarrow>
               (Some \<lparr>Arr = a, Off = 0, Len = Len s\<rparr>,
                fold (\<lambda>i h. case cp (rd (h ! Arr s) ! (Off s + i)) h of (v, h) \<Rightarrow> h[a := mk ((rd (h ! a))[i := v])])
                  [0..<Len s] h)))"

definition copy_time :: "('m, 'l) copies \<Rightarrow> addr option \<Rightarrow> ('m, 'l) heap \<Rightarrow> addr option \<times> ('m, 'l) heap" where
  "copy_time lib p h = (case p of None \<Rightarrow> (None, h) | Some a \<Rightarrow> apfst Some (alloc (OTime (copyTime lib (time_in (h ! a)))) h))"

definition Finding_DeepCopyInto :: "('m, 'l) copies \<Rightarrow> CRFinding \<Rightarrow> CRFinding" where
  "Finding_DeepCopyInto lib f = (let out = f in out\<lparr>ObservedAt := copyTime lib (ObservedAt f)\<rparr>)"

definition Finding_DeepCopy :: "('m, 'l) copies \<Rightarrow> CRFinding option \<Rightarrow> ('m, 'l) heap \<Rightarrow> addr option \<times> ('m, 'l) heap" where
  "Finding_DeepCopy lib f h =
     (case f of None \<Rightarrow> (None, h) | Some f \<Rightarrow> apfst Some (alloc (OFinding (Finding_DeepCopyInto lib f)) h))"

definition GPUHealthSpec_DeepCopyInto :: "GPUHealthSpec \<Rightarrow> GPUHealthSpec" where
  "GPUHealthSpec_DeepCopyInto s = s"

definition GPUHealthSpec_DeepCopy :: "GPUHealthSpec option \<Rightarrow> ('m, 'l) heap \<Rightarrow> addr option \<times> ('m, 'l) heap" where
  "GPUHealthSpec_DeepCopy s h = (case s of None \<Rightarrow> (None, h) | Some s \<Rightarrow> apfst Some (alloc (OSpec (GPUHealthSpec_DeepCopyInto s)) h))"

definition GPUHealthStatus_DeepCopyInto ::
  "('m, 'l) copies \<Rightarrow> hGPUHealthStatus \<Rightarrow> ('m, 'l) heap \<Rightarrow> hGPUHealthStatus \<times> ('m, 'l) heap" where
  "GPUHealthStatus_DeepCopyInto lib st h =
     (let out = st;
          (started, h) = copy_time lib (HReplacementStartedAt st) h;
          out = out\<lparr>HReplacementStartedAt := started\<rparr>;
          (cs, h) = copy_slice OConditions conditions_in zero_condition (\<lambda>c h. (copyCondition lib c, h)) (HConditions st) h;
          out = out\<lparr>HConditions := cs\<rparr>;
          (fs, h) = copy_slice OFindings findings_in zero_finding (\<lambda>f h. (Finding_DeepCopyInto lib f, h)) (HFindings st) h;
          out = out\<lparr>HFindings := fs\<rparr>;
          (trans, h) = copy_time lib (HLastTransitionTime st) h;
          out = out\<lparr>HLastTransitionTime := trans\<rparr>
      in (out, h))"

definition GPUHealthStatus_DeepCopy ::
  "('m, 'l) copies \<Rightarrow> hGPUHealthStatus option \<Rightarrow> ('m, 'l) heap \<Rightarrow> addr option \<times> ('m, 'l) heap" where
  "GPUHealthStatus_DeepCopy lib st h =
     (case st of None \<Rightarrow> (None, h)
      | Some st \<Rightarrow> (case GPUHealthStatus_DeepCopyInto lib st h of (out, h) \<Rightarrow> apfst Some (alloc (OStatus out) h)))"

definition GPUHealth_DeepCopyInto ::
  "('m, 'l) copies \<Rightarrow> 'm hGPUHealth \<Rightarrow> ('m, 'l) heap \<Rightarrow> 'm hGPUHealth \<times> ('m, 'l) heap" where
  "GPUHealth_DeepCopyInto lib g h =
     (let out = g;
          out = out\<lparr>HTypeMeta := HTypeMeta g\<rparr>;
          out = out\<lparr>HMeta := copyObjectMeta lib (HMeta g)\<rparr>;
          out = out\<lparr>HSpec := HSpec g\<rparr>;
          (st, h) = GPUHealthStatus_DeepCopyInto lib (HStatus g) h
      in (out\<lparr>HStatus := st\<rparr>, h))"

definition GPUHealth_DeepCopy ::
  "('m, 'l) copies \<Rightarrow> 'm hGPUHealth option \<Rightarrow> ('m, 'l) heap \<Rightarrow> addr option \<times> ('m, 'l) heap" where
  "GPUHealth_DeepCopy lib g h =
     (case g of None \<Rightarrow> (None, h)
      | Some g \<Rightarrow> (case GPUHealth_DeepCopyInto lib g h of (out, h) \<Rightarrow> apfst Some (alloc (OGPUHealth out) h)))"

definition zero_status :: hGPUHealthStatus where
  "zero_status = \<lparr>HPhase = PhaseNewCR, HReplacementStartedAt = None, HConditions = None, HFindings = None,
     HRemediationAttempts = 0, HLastTransitionTime = None, HObservedGeneration = 0\<rparr>"

definition zero_gpu :: "'m ObjectMeta \<Rightarrow> 'm hGPUHealth" where
  "zero_gpu m = \<lparr>HTypeMeta = ([], []), HMeta = m,
     HSpec = \<lparr>NodeName = [], SpecGPUID = [], RemediationPolicy = RemediationPolicyOther [], MaxRemediationAttempts = 0,
       ReplacementTimeoutSeconds = 0, RejoiningTimeoutSeconds = 0\<rparr>, HStatus = zero_status\<rparr>"

text \<open>The zero metadata of the library is a parameter.\<close>

definition GPUHealthList_DeepCopyInto ::
  "('m, 'l) copies \<Rightarrow> 'm ObjectMeta \<Rightarrow> 'l hGPUHealthList \<Rightarrow> ('m, 'l) heap \<Rightarrow> 'l hGPUHealthList \<times> ('m, 'l) heap" where
  "GPUHealthList_DeepCopyInto lib m0 l h =
     (let out = l;
          out = out\<lparr>LTypeMeta := LTypeMeta l\<rparr>;
          out = out\<lparr>LMeta := copyListMeta lib (LMeta l)\<rparr>;
          (items, h) = copy_slice OItems items_in (zero_gpu m0) (GPUHealth_DeepCopyInto lib) (LItems l) h
      in (out\<lparr>LItems := items\<rparr>, h))"

definition GPUHealthList_DeepCopy ::
  "('m, 'l) copies \<Rightarrow> 'm ObjectMeta \<Rightarrow> 'l hGPUHealthList option \<Rightarrow> ('m, 'l) heap \<Rightarrow> addr option \<times> ('m, 'l) heap" where
  "GPUHealthList_DeepCopy lib m0 l h =
     (case l of None \<Rightarrow> (None, h)
      | Some l \<Rightarrow> (case GPUHealthList_DeepCopyInto lib m0 l h of (out, h) \<Rightarrow> apfst Some (alloc (OList out) h)))"

text \<open>An interface value: nil, or a type and a pointer.\<close>

datatype Object = GPUHealthObject "addr option" | GPUHealthListObject "addr option"

definition GPUHealth_DeepCopyObject ::
  "('m, 'l) copies \<Rightarrow> 'm hGPUHealth option \<Rightarrow> ('m, 'l) heap \<Rightarrow> Object option \<times> ('m, 'l) heap" where
  "GPUHealth_DeepCopyObject lib g h =
     (case GPUHealth_DeepCopy lib g h of (c, h) \<Rightarrow> if c \<noteq> None then (Some (GPUHealthObject c), h) else (None, h))"

definition GPUHealthList_DeepCopyObject ::
  "('m, 'l) copies \<Rightarrow> 'm ObjectMeta \<Rightarrow> 'l hGPUHealthList option \<Rightarrow> ('m, 'l) heap \<Rightarrow> Object option \<times> ('m, 'l) heap" where
  "GPUHealthList_DeepCopyObject lib m0 l h =
     (case GPUHealthList_DeepCopy lib m0 l h of (c, h) \<Rightarrow> if c \<noteq> None then (Some (GPUHealthListObject c), h) else (None, h))"

section \<open>Merging findings in place\<close>

definition write_slice :: "nat \<Rightarrow> CRFinding list \<Rightarrow> CRFinding list \<Rightarrow> CRFinding list" where
  "write_slice i xs ys = take i ys @ xs @ drop (i + length xs) ys"

text \<open>
  \<^verbatim>\<open>append(s, xs...)\<close>: in place while the capacity lasts, otherwise into a new array with room for as many more
  as the run-time system chooses. Appending nothing to a nil slice gives nil.
\<close>

definition append_slice ::
  "(nat \<Rightarrow> nat) \<Rightarrow> slice option \<Rightarrow> CRFinding list \<Rightarrow> ('m, 'l) heap \<Rightarrow> slice option \<times> ('m, 'l) heap" where
  "append_slice room sl xs h =
     (case sl of
        None \<Rightarrow>
          if xs = [] then (None, h)
          else (case alloc (OFindings (xs @ replicate (room (length xs)) zero_finding)) h of
                  (a, h) \<Rightarrow> (Some \<lparr>Arr = a, Off = 0, Len = length xs\<rparr>, h))
      | Some s \<Rightarrow>
          let fs = findings_in (h ! Arr s); n = Len s + length xs
          in if Off s + n \<le> length fs then
               (Some (s\<lparr>Len := n\<rparr>), h[Arr s := OFindings (write_slice (Off s + Len s) xs fs)])
             else (case alloc (OFindings (elems findings_in h sl @ xs @ replicate (room n) zero_finding)) h of
                     (a, h) \<Rightarrow> (Some \<lparr>Arr = a, Off = 0, Len = n\<rparr>, h)))"

text \<open>\<^verbatim>\<open>s[:i]\<close> and \<^verbatim>\<open>s[i:]\<close> for an index within the slice.\<close>

definition upto_slice :: "nat \<Rightarrow> slice option \<Rightarrow> slice option" where
  "upto_slice i = map_option (\<lambda>s. s\<lparr>Len := i\<rparr>)"

definition from_slice :: "nat \<Rightarrow> slice option \<Rightarrow> slice option" where
  "from_slice i = map_option (\<lambda>s. s\<lparr>Off := Off s + i, Len := Len s - i\<rparr>)"

definition merge_one_slice ::
  "(nat \<Rightarrow> nat) \<Rightarrow> time \<Rightarrow> CRFinding \<Rightarrow> slice option \<times> ('m, 'l) heap \<Rightarrow> slice option \<times> ('m, 'l) heap" where
  "merge_one_slice room ts c = (\<lambda>(existing, h).
     case IndexFunc (\<lambda>f. Type f = Type c) (elems findings_in h existing) of
       Some i \<Rightarrow>
         let f = elems findings_in h existing ! i;
             f = seen_again ts c f;
             (existing, h) = append_slice room (upto_slice i existing) (elems findings_in h (from_slice (Suc i) existing)) h
         in append_slice room existing [f] h
     | None \<Rightarrow> append_slice room existing [first_seen ts c] h)"

definition mergeFindings_slice ::
  "(nat \<Rightarrow> nat) \<Rightarrow> time \<Rightarrow> slice option \<Rightarrow> GPUHealth \<Rightarrow> nat \<Rightarrow> ('m, 'l) heap \<Rightarrow> slice option \<times> ('m, 'l) heap" where
  "mergeFindings_slice room ts existing tel maxSize h =
     (let (existing, h) = fold (merge_one_slice room ts) (candidates tel) (existing, h);
          n = length (elems findings_in h existing)
      in if n > maxSize then (from_slice (n - maxSize) existing, h) else (existing, h))"

section \<open>Values, well-formedness and footprints\<close>

definition wf_time :: "('m, 'l) heap \<Rightarrow> addr option \<Rightarrow> bool" where
  "wf_time h p \<longleftrightarrow> (case p of None \<Rightarrow> True | Some a \<Rightarrow> a < length h \<and> h ! a = OTime (time_in (h ! a)))"

definition wf_slice :: "('a list \<Rightarrow> ('m, 'l) obj) \<Rightarrow> (('m, 'l) obj \<Rightarrow> 'a list) \<Rightarrow> ('m, 'l) heap \<Rightarrow> slice option \<Rightarrow> bool" where
  "wf_slice mk rd h sl \<longleftrightarrow> (case sl of None \<Rightarrow> True
     | Some s \<Rightarrow> Arr s < length h \<and> h ! Arr s = mk (rd (h ! Arr s)) \<and> Off s + Len s \<le> length (rd (h ! Arr s)))"

definition wf_status :: "('m, 'l) heap \<Rightarrow> hGPUHealthStatus \<Rightarrow> bool" where
  "wf_status h st \<longleftrightarrow> wf_time h (HReplacementStartedAt st) \<and> wf_slice OConditions conditions_in h (HConditions st) \<and>
     wf_slice OFindings findings_in h (HFindings st) \<and> wf_time h (HLastTransitionTime st)"

definition status_value :: "('m, 'l) heap \<Rightarrow> hGPUHealthStatus \<Rightarrow> GPUHealthStatus" where
  "status_value h st = \<lparr>Phase = HPhase st,
     ReplacementStartedAt = map_option (\<lambda>a. time_in (h ! a)) (HReplacementStartedAt st),
     Conditions = elems conditions_in h (HConditions st), StatusFindings = elems findings_in h (HFindings st),
     RemediationAttempts = HRemediationAttempts st,
     LastTransitionTime = map_option (\<lambda>a. time_in (h ! a)) (HLastTransitionTime st),
     ObservedGeneration = HObservedGeneration st\<rparr>"

definition gpu_value :: "('m, 'l) heap \<Rightarrow> 'm hGPUHealth \<Rightarrow> GPUHealthCR" where
  "gpu_value h g = \<lparr>Name = MName (HMeta g), UID = MUID (HMeta g), ResourceVersion = MResourceVersion (HMeta g),
     Generation = MGeneration (HMeta g), Spec = HSpec g, Status = status_value h (HStatus g)\<rparr>"

definition arrays :: "slice option \<Rightarrow> addr set" where
  "arrays sl = Arr ` set_option sl"

definition refs :: "hGPUHealthStatus \<Rightarrow> addr set" where
  "refs st = set_option (HReplacementStartedAt st) \<union> arrays (HConditions st) \<union> arrays (HFindings st) \<union>
     set_option (HLastTransitionTime st)"

text \<open>What happened between two heaps: nothing that was there has changed, except at the addresses \<open>A\<close>.\<close>

definition unchanged :: "addr set \<Rightarrow> ('m, 'l) heap \<Rightarrow> ('m, 'l) heap \<Rightarrow> bool" where
  "unchanged A h h' \<longleftrightarrow> length h \<le> length h' \<and> (\<forall>a < length h. a \<notin> A \<longrightarrow> h' ! a = h ! a)"

lemma unchanged_refl [simp]: "unchanged A h h"
  by (simp add: unchanged_def)

lemma unchanged_trans:
  "unchanged A h h1 \<Longrightarrow> unchanged B h1 h2 \<Longrightarrow> unchanged (A \<union> B) h h2"
  by (simp add: unchanged_def)

lemma unchanged_old:
  assumes "unchanged A h h'" and "A \<inter> {..<length h} \<subseteq> B"
  shows "unchanged B h h'"
  using assms by (auto simp: unchanged_def)

lemma unchanged_alloc [simp]: "unchanged A h (h @ xs)"
  by (simp add: unchanged_def nth_append)

lemma unchanged_write: "a \<in> A \<Longrightarrow> unchanged A h (h[a := x])"
  unfolding unchanged_def by (metis length_list_update nth_list_update_neq order_refl)

text \<open>A value depends on its footprint only.\<close>

lemma wf_time_frame: "unchanged A h h' \<Longrightarrow> set_option p \<inter> A = {} \<Longrightarrow> wf_time h p \<Longrightarrow> wf_time h' p"
  by (auto simp: unchanged_def wf_time_def split: option.splits)

lemma time_frame:
  "unchanged A h h' \<Longrightarrow> set_option p \<inter> A = {} \<Longrightarrow> wf_time h p \<Longrightarrow>
   map_option (\<lambda>a. time_in (h' ! a)) p = map_option (\<lambda>a. time_in (h ! a)) p"
  by (auto simp: unchanged_def wf_time_def split: option.splits)

lemma wf_slice_frame: "unchanged A h h' \<Longrightarrow> arrays sl \<inter> A = {} \<Longrightarrow> wf_slice mk rd h sl \<Longrightarrow> wf_slice mk rd h' sl"
  by (auto simp: unchanged_def wf_slice_def arrays_def split: option.splits)

lemma elems_frame: "unchanged A h h' \<Longrightarrow> arrays sl \<inter> A = {} \<Longrightarrow> wf_slice mk rd h sl \<Longrightarrow> elems rd h' sl = elems rd h sl"
  by (auto simp: unchanged_def wf_slice_def elems_def arrays_def split: option.splits)

lemma status_frame:
  assumes "unchanged A h h'" and "refs st \<inter> A = {}" and "wf_status h st"
  shows "wf_status h' st" and "status_value h' st = status_value h st"
proof -
  have d: "set_option (HReplacementStartedAt st) \<inter> A = {}" "arrays (HConditions st) \<inter> A = {}"
    "arrays (HFindings st) \<inter> A = {}" "set_option (HLastTransitionTime st) \<inter> A = {}"
    using assms(2) by (auto simp: refs_def)
  then show "wf_status h' st"
    using assms(3) unfolding wf_status_def by (auto intro: wf_time_frame [OF assms(1)] wf_slice_frame [OF assms(1)])
  show "status_value h' st = status_value h st"
    using assms(3) d by (simp add: wf_status_def status_value_def time_frame [OF assms(1)]
        elems_frame [OF assms(1), where mk = OConditions] elems_frame [OF assms(1), where mk = OFindings])
qed

lemma gpu_frame:
  assumes "unchanged A h h'" and "refs (HStatus g) \<inter> A = {}" and "wf_status h (HStatus g)"
  shows "gpu_value h' g = gpu_value h g"
  using status_frame(2) [OF assms] by (simp add: gpu_value_def)

lemma wf_refs: "wf_status h st \<Longrightarrow> refs st \<subseteq> {..<length h}"
  by (auto simp: wf_status_def wf_time_def wf_slice_def refs_def arrays_def split: option.splits)

section \<open>Copies\<close>

text \<open>What the generated code relies on of the library: its copies are equal to their originals.\<close>

definition exact :: "('m, 'l) copies \<Rightarrow> bool" where
  "exact lib \<longleftrightarrow> (\<forall>t. copyTime lib t = t) \<and> (\<forall>c. copyCondition lib c = c) \<and> (\<forall>m. copyObjectMeta lib m = m) \<and>
     (\<forall>l. copyListMeta lib l = l)"

lemma elems_nth:
  assumes "wf_slice mk rd h (Some s)" and "i < Len s"
  shows "rd (h ! Arr s) ! (Off s + i) = elems rd h (Some s) ! i"
  using assms by (simp add: wf_slice_def elems_def)

lemma length_elems: "wf_slice mk rd h (Some s) \<Longrightarrow> length (elems rd h (Some s)) = Len s"
  by (auto simp: wf_slice_def elems_def min_def)

lemma copy_slice_values:
  assumes rd: "\<And>xs. rd (mk xs) = xs" and wf: "wf_slice mk rd h (Some s)"
  shows "copy_slice mk rd zero (\<lambda>v h. (f v, h)) (Some s) h =
    (Some \<lparr>Arr = length h, Off = 0, Len = Len s\<rparr>, h @ [mk (map f (elems rd h (Some s)))])"
proof -
  let ?es = "elems rd h (Some s)" and ?n = "Len s"
  let ?step = "\<lambda>i g. g[length h := mk ((rd (g ! length h))[i := f (rd (g ! Arr s) ! (Off s + i))])]"
  have len: "length ?es = ?n" using length_elems [OF wf] .
  have "fold ?step [0..<k] (h @ [mk (replicate ?n zero)]) = h @ [mk (map f (take k ?es) @ replicate (?n - k) zero)]"
    if "k \<le> ?n" for k
    using that
  proof (induction k)
    case (Suc k)
    have "rd ((h @ [x]) ! Arr s) ! (Off s + k) = ?es ! k" for x
      using wf elems_nth [OF wf, of k] Suc.prems by (simp add: wf_slice_def nth_append)
    moreover have "(map f (take k ?es) @ replicate (?n - k) zero)[k := f (?es ! k)] =
        map f (take (Suc k) ?es) @ replicate (?n - Suc k) zero"
      using Suc.prems len by (simp add: list_update_append take_Suc_conv_app_nth Suc_diff_Suc [symmetric])
    ultimately show ?case using Suc by (simp add: rd list_update_append)
  qed simp
  from this [of ?n] show ?thesis using len by (simp add: copy_slice_def alloc_def)
qed

text \<open>The copy of one field: a new place with an equal value.\<close>

lemma copy_time_spec:
  assumes "copyTime lib = id" and "wf_time h p" and "copy_time lib p h = (q, h')"
  shows "unchanged {} h h'" and "set_option q \<subseteq> {length h..<length h'}" and "wf_time h' q"
    and "map_option (\<lambda>a. time_in (h' ! a)) q = map_option (\<lambda>a. time_in (h ! a)) p" and "q = None \<longleftrightarrow> p = None"
  using assms by (auto simp: copy_time_def alloc_def wf_time_def split: option.splits)

lemma copy_slice_spec:
  assumes "\<And>xs. rd (mk xs) = xs" and "f = id" and "wf_slice mk rd h sl"
    and "copy_slice mk rd zero (\<lambda>v h. (f v, h)) sl h = (t, h')"
  shows "unchanged {} h h'" and "arrays t \<subseteq> {length h..<length h'}" and "wf_slice mk rd h' t"
    and "elems rd h' t = elems rd h sl" and "t = None \<longleftrightarrow> sl = None"
proof -
  have "unchanged {} h h' \<and> arrays t \<subseteq> {length h..<length h'} \<and> wf_slice mk rd h' t \<and> elems rd h' t = elems rd h sl \<and> (t = None \<longleftrightarrow> sl = None)"
  proof (cases sl)
    case None
    then show ?thesis using assms(4) by (auto simp: copy_slice_def arrays_def wf_slice_def elems_def)
  next
    case (Some s)
    then show ?thesis using copy_slice_values [of rd mk h s zero f] length_elems [of mk rd h s] assms
      by (auto simp: arrays_def wf_slice_def elems_def)
  qed
  then show "unchanged {} h h'" and "arrays t \<subseteq> {length h..<length h'}" and "wf_slice mk rd h' t"
    and "elems rd h' t = elems rd h sl" and "t = None \<longleftrightarrow> sl = None" by blast+
qed

lemma fresh_later: "X \<subseteq> {length h..<length h1} \<Longrightarrow> unchanged {} h0 h \<Longrightarrow> unchanged {} h1 h' \<Longrightarrow> X \<subseteq> {length h0..<length h'}"
  by (fastforce simp: unchanged_def)

lemma unchanged_steps: "unchanged {} h h1 \<Longrightarrow> unchanged {} h1 h2 \<Longrightarrow> unchanged {} h h2"
  using unchanged_trans [of "{}" h h1 "{}" h2] by simp

text \<open>A copied status: new, well formed, of equal value, and nil exactly where the original is.\<close>

definition copied :: "('m, 'l) heap \<Rightarrow> hGPUHealthStatus \<Rightarrow> ('m, 'l) heap \<Rightarrow> hGPUHealthStatus \<Rightarrow> bool" where
  "copied h st h' out \<longleftrightarrow> refs out \<subseteq> {length h..<length h'} \<and> wf_status h' out \<and> status_value h' out = status_value h st \<and>
     (HReplacementStartedAt out = None \<longleftrightarrow> HReplacementStartedAt st = None) \<and> (HConditions out = None \<longleftrightarrow> HConditions st = None) \<and>
     (HFindings out = None \<longleftrightarrow> HFindings st = None) \<and> (HLastTransitionTime out = None \<longleftrightarrow> HLastTransitionTime st = None)"

lemma GPUHealthStatus_DeepCopyInto_spec:
  assumes "exact lib" and "wf_status h st" and "GPUHealthStatus_DeepCopyInto lib st h = (out, h')"
  shows "unchanged {} h h' \<and> copied h st h' out"
proof -
  have lib: "copyTime lib = id" "copyCondition lib = id" "Finding_DeepCopyInto lib = id"
    using assms(1) by (auto simp: exact_def Finding_DeepCopyInto_def)
  obtain q h1 where 1: "copy_time lib (HReplacementStartedAt st) h = (q, h1)" by fastforce
  obtain cs h2 where 2: "copy_slice OConditions conditions_in zero_condition (\<lambda>c h. (copyCondition lib c, h)) (HConditions st) h1 = (cs, h2)"
    by fastforce
  obtain fs h3 where 3: "copy_slice OFindings findings_in zero_finding (\<lambda>f h. (Finding_DeepCopyInto lib f, h)) (HFindings st) h2 = (fs, h3)"
    by fastforce
  obtain p h4 where 4: "copy_time lib (HLastTransitionTime st) h3 = (p, h4)" by fastforce
  have out: "out = st\<lparr>HReplacementStartedAt := q, HConditions := cs, HFindings := fs, HLastTransitionTime := p\<rparr>" "h' = h4"
    using assms(3) 1 2 3 4 by (simp_all add: GPUHealthStatus_DeepCopyInto_def)
  note wf = assms(2) [unfolded wf_status_def]
  note s1 = copy_time_spec [OF lib(1) _ 1]
  have u1: "unchanged {} h h1" using s1(1) wf by blast
  note s2 = copy_slice_spec [OF conditions_in.simps(1) lib(2) wf_slice_frame [OF u1] 2]
  have u2: "unchanged {} h1 h2" "unchanged {} h h2" using s2(1) wf unchanged_steps [OF u1] by simp_all
  note s3 = copy_slice_spec [OF findings_in.simps(1) lib(3) wf_slice_frame [OF u2(2)] 3]
  have u3: "unchanged {} h2 h3" "unchanged {} h h3" using s3(1) wf unchanged_steps [OF u2(2)] by simp_all
  note s4 = copy_time_spec [OF lib(1) wf_time_frame [OF u3(2)] 4]
  have u4: "unchanged {} h3 h4" "unchanged {} h h4" using s4(1) wf unchanged_steps [OF u3(2)] by simp_all
  have later: "unchanged {} h1 h4" "unchanged {} h2 h4" using unchanged_steps u2(1) u3(1) u4(1) by blast+
  have "refs out \<subseteq> {length h..<length h4}"
    using fresh_later [OF s1(2) unchanged_refl later(1)] fresh_later [OF s2(2) u1 later(2)] fresh_later [OF s3(2) u2(2) u4(1)]
      fresh_later [OF s4(2) u3(2) unchanged_refl] wf by (simp add: out refs_def)
  moreover have "wf_status h4 out"
    using wf_time_frame [OF later(1) _ s1(3)] wf_slice_frame [OF later(2) _ s2(3)] wf_slice_frame [OF u4(1) _ s3(3)] s4(3) wf
    by (simp add: out wf_status_def)
  moreover have "status_value h4 out = status_value h st"
    using time_frame [OF later(1) _ s1(3)] elems_frame [OF later(2) _ s2(3)] elems_frame [OF u4(1) _ s3(3)]
      s1(4) s2(4) s3(4) s4(4) elems_frame [OF u1, where mk = OConditions] elems_frame [OF u2(2), where mk = OFindings] time_frame [OF u3(2)] wf
    by (simp add: out status_value_def)
  moreover have "q = None \<longleftrightarrow> HReplacementStartedAt st = None" "cs = None \<longleftrightarrow> HConditions st = None"
    "fs = None \<longleftrightarrow> HFindings st = None" "p = None \<longleftrightarrow> HLastTransitionTime st = None"
    using s1(5) s2(5) s3(5) s4(5) wf by simp_all
  ultimately show ?thesis using u4(2) by (simp add: out copied_def)
qed

lemma GPUHealth_DeepCopyInto_spec:
  assumes "exact lib" and "wf_status h (HStatus g)" and "GPUHealth_DeepCopyInto lib g h = (out, h')"
  shows "unchanged {} h h' \<and> copied h (HStatus g) h' (HStatus out) \<and> gpu_value h' out = gpu_value h g \<and>
    HTypeMeta out = HTypeMeta g \<and> HMeta out = HMeta g"
proof -
  obtain st h1 where st: "GPUHealthStatus_DeepCopyInto lib (HStatus g) h = (st, h1)" by fastforce
  have "out = g\<lparr>HStatus := st\<rparr>" "h' = h1"
    using assms(1,3) st by (simp_all add: GPUHealth_DeepCopyInto_def exact_def)
  then show ?thesis using GPUHealthStatus_DeepCopyInto_spec [OF assms(1,2) st] by (simp add: gpu_value_def copied_def)
qed

text \<open>
  The contract of a copy function: a copy is new, well formed and of equal value, and a value depends on its footprint only. It gives
  independence both ways, for every copy function that meets it.
\<close>

locale deep_copier =
  fixes copy :: "('m, 'l) copies \<Rightarrow> 'a \<Rightarrow> ('m, 'l) heap \<Rightarrow> 'a \<times> ('m, 'l) heap"
    and footprint :: "'a \<Rightarrow> addr set"
    and wf :: "('m, 'l) heap \<Rightarrow> 'a \<Rightarrow> bool"
    and val :: "('m, 'l) heap \<Rightarrow> 'a \<Rightarrow> 'v"
  assumes copy_law: "exact lib \<Longrightarrow> wf h x \<Longrightarrow> copy lib x h = (y, h') \<Longrightarrow>
      unchanged {} h h' \<and> footprint y \<subseteq> {length h..<length h'} \<and> wf h' y \<and> val h' y = val h x"
    and frame_law: "unchanged A h h' \<Longrightarrow> footprint x \<inter> A = {} \<Longrightarrow> wf h x \<Longrightarrow> wf h' x \<and> val h' x = val h x"
    and footprint_old: "wf h x \<Longrightarrow> footprint x \<subseteq> {..<length h}"
begin

lemma original_kept:
  assumes "exact lib" and "wf h x" and "copy lib x h = (y, h1)" and "unchanged A h1 h2" and "A \<subseteq> {length h..}"
  shows "val h2 x = val h x"
proof -
  have "unchanged {} h h1" using copy_law [OF assms(1-3)] by blast
  then have "unchanged A h h2" using unchanged_trans [OF _ assms(4)] by fastforce
  moreover have "footprint x \<inter> A = {}" using footprint_old [OF assms(2)] assms(5) by fastforce
  ultimately show ?thesis using frame_law [OF _ _ assms(2)] by blast
qed

lemma copy_kept:
  assumes "exact lib" and "wf h x" and "copy lib x h = (y, h1)" and "unchanged A h1 h2" and "A \<inter> {length h..<length h1} = {}"
  shows "val h2 y = val h x"
proof -
  note c = copy_law [OF assms(1-3)]
  have "footprint y \<inter> A = {}" using c assms(5) by blast
  then show ?thesis using frame_law [OF assms(4), of y] c by simp
qed

end

interpretation status_copy: deep_copier GPUHealthStatus_DeepCopyInto refs wf_status status_value
proof
  fix lib :: "('m, 'l) copies" and h h' x y
  assume "exact lib" "wf_status h x" "GPUHealthStatus_DeepCopyInto lib x h = (y, h')"
  from GPUHealthStatus_DeepCopyInto_spec [OF this]
  show "unchanged {} h h' \<and> refs y \<subseteq> {length h..<length h'} \<and> wf_status h' y \<and> status_value h' y = status_value h x"
    by (simp add: copied_def)
qed (simp_all add: status_frame wf_refs)

interpretation gpu_copy: deep_copier GPUHealth_DeepCopyInto "\<lambda>g. refs (HStatus g)" "\<lambda>h g. wf_status h (HStatus g)" gpu_value
proof
  fix lib :: "('m, 'l) copies" and h h' x y
  assume "exact lib" "wf_status h (HStatus x)" "GPUHealth_DeepCopyInto lib x h = (y, h')"
  from GPUHealth_DeepCopyInto_spec [OF this]
  show "unchanged {} h h' \<and> refs (HStatus y) \<subseteq> {length h..<length h'} \<and> wf_status h' (HStatus y) \<and> gpu_value h' y = gpu_value h x"
    by (simp add: copied_def)
qed (simp_all add: status_frame gpu_frame wf_refs)

text \<open>
  The loop over the items of a list. After \<open>k\<close> rounds the first \<open>k\<close> elements of the new array are copies, beyond the
  address of the array and apart from each other.
\<close>

definition wf_items :: "('m, 'l) heap \<Rightarrow> slice option \<Rightarrow> bool" where
  "wf_items h sl \<longleftrightarrow> wf_slice OItems items_in h sl \<and> list_all (\<lambda>g. wf_status h (HStatus g)) (elems items_in h sl)"

definition item_copied :: "('m, 'l) heap \<Rightarrow> 'm hGPUHealth \<Rightarrow> ('m, 'l) heap \<Rightarrow> 'm hGPUHealth \<Rightarrow> bool" where
  "item_copied h g h' out \<longleftrightarrow> refs (HStatus out) \<subseteq> {Suc (length h)..<length h'} \<and> wf_status h' (HStatus out) \<and>
     gpu_value h' out = gpu_value h g \<and> HTypeMeta out = HTypeMeta g \<and> HMeta out = HMeta g"

definition items_copied :: "('m, 'l) heap \<Rightarrow> 'm hGPUHealth list \<Rightarrow> nat \<Rightarrow> ('m, 'l) heap \<Rightarrow> 'm hGPUHealth list \<Rightarrow> bool" where
  "items_copied h es k h' xs \<longleftrightarrow> unchanged {} h h' \<and> length h < length h' \<and> h' ! length h = OItems xs \<and> length xs = length es \<and>
     (\<forall>i < k. item_copied h (es ! i) h' (xs ! i)) \<and>
     (\<forall>i < k. \<forall>j < i. refs (HStatus (xs ! i)) \<inter> refs (HStatus (xs ! j)) = {})"

lemma item_copied_frame:
  assumes "item_copied h g h1 x" and "unchanged A h1 h2" and "A \<subseteq> {length h}"
  shows "item_copied h g h2 x"
proof -
  have x: "refs (HStatus x) \<subseteq> {Suc (length h)..<length h1}" using assms(1) by (simp add: item_copied_def)
  then have d: "refs (HStatus x) \<inter> A = {}" using assms(3) by fastforce
  have "refs (HStatus x) \<subseteq> {Suc (length h)..<length h2}"
    using assms(2) by (intro order_trans [OF x]) (simp add: unchanged_def)
  then show ?thesis using assms(1) status_frame(1) [OF assms(2) d] gpu_frame [OF assms(2) d] by (simp add: item_copied_def)
qed

lemma items_copied_step:
  assumes lib: "exact lib" and inv: "items_copied h es k g xs" and k: "k < length es" and wf: "wf_status h (HStatus (es ! k))"
    and cp: "GPUHealth_DeepCopyInto lib (es ! k) g = (v, g1)"
  shows "items_copied h es (Suc k) (g1[length h := OItems (xs[k := v])]) (xs[k := v])"
proof -
  let ?g2 = "g1[length h := OItems (xs[k := v])]"
  note i = inv [unfolded items_copied_def]
  have u: "unchanged {} h g" using i by blast
  have wg: "wf_status g (HStatus (es ! k))" and vg: "gpu_value g (es ! k) = gpu_value h (es ! k)"
    using status_frame(1) [OF u _ wf] gpu_frame [OF u _ wf] by simp_all
  note c = GPUHealth_DeepCopyInto_spec [OF lib wg cp]
  have u2: "unchanged {length h} g1 ?g2" by (simp add: unchanged_write)
  have u12: "unchanged {length h} g ?g2" using unchanged_trans [OF conjunct1 [OF c] u2] by simp
  have "unchanged ({} \<union> {length h}) h ?g2" by (rule unchanged_trans [OF u u12])
  then have uh: "unchanged {} h ?g2" by (rule unchanged_old) auto
  have lg: "length h < length g1" using i c by (simp add: unchanged_def)
  have new: "refs (HStatus v) \<subseteq> {length g..<length g1}" using c by (simp add: copied_def)
  have "item_copied h (es ! k) g1 v"
    using c vg order_trans [OF new, of "{Suc (length h)..<length g1}"] i by (simp add: item_copied_def copied_def)
  then have ck: "item_copied h (es ! k) ?g2 v" by (rule item_copied_frame [OF _ u2]) simp
  have cj: "item_copied h (es ! j) ?g2 (xs ! j)" if "j < k" for j
    using i that item_copied_frame [OF _ u12] by blast
  have dj: "refs (HStatus v) \<inter> refs (HStatus (xs ! j)) = {}" if "j < k" for j
  proof -
    have "refs (HStatus (xs ! j)) \<subseteq> {Suc (length h)..<length g}" using i that by (simp add: item_copied_def)
    then show ?thesis using new by (meson atLeastLessThan_iff disjoint_iff not_le subset_iff)
  qed
  have "item_copied h (es ! j) ?g2 (xs[k := v] ! j)" if "j < Suc k" for j
    using that ck cj [of j] i k by (cases "j = k") simp_all
  moreover have "refs (HStatus (xs[k := v] ! a)) \<inter> refs (HStatus (xs[k := v] ! b)) = {}" if "a < Suc k" "b < a" for a b
    using that dj [of b] i k by (cases "a = k") simp_all
  ultimately show ?thesis using uh lg i k by (simp add: items_copied_def)
qed

lemma copy_items:
  assumes "exact lib" and "wf_items h (Some s)"
    and "copy_slice OItems items_in zero (GPUHealth_DeepCopyInto lib) (Some s) h = (t, h')"
  shows "t = Some \<lparr>Arr = length h, Off = 0, Len = Len s\<rparr> \<and>
    (\<exists>xs. items_copied h (elems items_in h (Some s)) (Len s) h' xs)"
proof -
  let ?es = "elems items_in h (Some s)"
  let ?step = "\<lambda>i g. case GPUHealth_DeepCopyInto lib (items_in (g ! Arr s) ! (Off s + i)) g of
    (v, g) \<Rightarrow> g[length h := OItems ((items_in (g ! length h))[i := v])]"
  have w: "wf_slice OItems items_in h (Some s)" and all: "\<forall>g \<in> set ?es. wf_status h (HStatus g)"
    using assms(2) by (simp_all add: wf_items_def list_all_iff)
  have len: "length ?es = Len s" using length_elems [OF w] .
  have "\<exists>xs. items_copied h ?es k (fold ?step [0..<k] (h @ [OItems (replicate (Len s) zero)])) xs" if "k \<le> Len s" for k
    using that
  proof (induction k)
    case 0
    then show ?case using len by (simp add: items_copied_def)
  next
    case (Suc k)
    define g where "g = fold ?step [0..<k] (h @ [OItems (replicate (Len s) zero)])"
    from Suc obtain xs where xs: "items_copied h ?es k g xs" by (auto simp: g_def)
    then have "g ! Arr s = h ! Arr s" using w by (simp add: items_copied_def wf_slice_def unchanged_def)
    then have el: "items_in (g ! Arr s) ! (Off s + k) = ?es ! k" using elems_nth [OF w] Suc.prems by simp
    obtain v g1 where cp: "GPUHealth_DeepCopyInto lib (?es ! k) g = (v, g1)" by fastforce
    have wk: "wf_status h (HStatus (?es ! k))" using all len Suc.prems by simp
    have "wf_status g (HStatus (?es ! k))" using xs status_frame(1) [OF _ _ wk, of "{}" g] by (simp add: items_copied_def)
    then have "g1 ! length h = OItems xs"
      using xs GPUHealth_DeepCopyInto_spec [OF assms(1) _ cp] by (simp add: items_copied_def unchanged_def)
    then have "?step k g = g1[length h := OItems (xs[k := v])]" by (simp add: el cp)
    then show ?case using items_copied_step [OF assms(1) xs _ wk cp] Suc.prems len by (auto simp: g_def)
  qed
  from this [of "Len s"] show ?thesis using assms(3) by (auto simp: copy_slice_def alloc_def)
qed

section \<open>The merge on slices\<close>

abbreviation wf_findings :: "('m, 'l) heap \<Rightarrow> slice option \<Rightarrow> bool" where
  "wf_findings h sl \<equiv> wf_slice OFindings findings_in h sl"

abbreviation findings_of :: "('m, 'l) heap \<Rightarrow> slice option \<Rightarrow> CRFinding list" where
  "findings_of h sl \<equiv> elems findings_in h sl"

text \<open>An operation that turns one slice into another touches the array of the first, or new arrays.\<close>

definition slice_op :: "('m, 'l) heap \<Rightarrow> slice option \<Rightarrow> ('m, 'l) heap \<Rightarrow> slice option \<Rightarrow> bool" where
  "slice_op h sl h' t \<longleftrightarrow> unchanged (arrays sl) h h' \<and> arrays t \<subseteq> arrays sl \<union> {length h..<length h'} \<and> wf_findings h' t"

lemma slice_op_trans:
  assumes "slice_op h sl h1 t" and "slice_op h1 t h2 u"
  shows "slice_op h sl h2 u"
proof -
  note a = assms [unfolded slice_op_def]
  have "unchanged (arrays sl \<union> arrays t) h h2" using a unchanged_trans by blast
  then have "unchanged (arrays sl) h h2" by (rule unchanged_old) (use a in auto)
  moreover have "{length h..<length h1} \<union> {length h1..<length h2} = {length h..<length h2}"
    using a by (simp add: unchanged_def ivl_disj_un)
  then have "arrays u \<subseteq> arrays sl \<union> {length h..<length h2}" using a by blast
  ultimately show ?thesis using a by (simp add: slice_op_def)
qed

lemma elems_Some: "findings_of h (Some s) = take (Len s) (drop (Off s) (findings_in (h ! Arr s)))"
  by (simp add: elems_def)

lemma window_write: "k + n \<le> length fs \<Longrightarrow> take (n + length xs) (drop k (write_slice (k + n) xs fs)) = take n (drop k fs) @ xs"
  by (auto simp: write_slice_def take_add min_def)

lemma drop_window: "drop i (take n (drop k xs)) = take (n - i) (drop (k + i) xs)"
  by (simp add: drop_take add.commute)

lemma append_slice_spec:
  assumes "wf_findings h sl" and "append_slice room sl xs h = (t, h')"
  shows "slice_op h sl h' t" and "findings_of h' t = findings_of h sl @ xs"
proof -
  have "slice_op h sl h' t \<and> findings_of h' t = findings_of h sl @ xs"
  proof (cases sl)
    case None
    then show ?thesis using assms(2)
      by (auto simp: append_slice_def alloc_def slice_op_def arrays_def wf_slice_def elems_def split: if_splits)
  next
    case (Some s)
    define fs where "fs = findings_in (h ! Arr s)"
    have wf: "Arr s < length h" "Off s + Len s \<le> length fs" using assms(1) Some by (simp_all add: wf_slice_def fs_def)
    show ?thesis
    proof (cases "Off s + (Len s + length xs) \<le> length fs")
      case True
      then have t: "t = Some (s\<lparr>Len := Len s + length xs\<rparr>)" "h' = h[Arr s := OFindings (write_slice (Off s + Len s) xs fs)]"
        using assms(2) Some by (simp_all add: append_slice_def fs_def Let_def)
      have "take (Len s + length xs) (drop (Off s) (write_slice (Off s + Len s) xs fs)) = take (Len s) (drop (Off s) fs) @ xs"
        using wf(2) by (rule window_write)
      then show ?thesis using True wf Some t
        by (simp add: slice_op_def arrays_def unchanged_write wf_slice_def elems_Some fs_def [symmetric])
           (simp add: write_slice_def)
    next
      case False
      then show ?thesis using assms Some wf length_elems [of OFindings findings_in h s]
        by (auto simp: append_slice_def alloc_def slice_op_def arrays_def wf_slice_def elems_def fs_def Let_def)
    qed
  qed
  then show "slice_op h sl h' t" and "findings_of h' t = findings_of h sl @ xs" by blast+
qed

lemma wf_findings_Some:
  "wf_findings h (Some s) \<longleftrightarrow> Arr s < length h \<and> (\<exists>fs. h ! Arr s = OFindings fs \<and> Off s + Len s \<le> length fs)"
  by (cases "h ! Arr s") (simp_all add: wf_slice_def)

lemma upto_slice_spec:
  assumes "wf_findings h sl" and "i \<le> length (findings_of h sl)"
  shows "wf_findings h (upto_slice i sl)" and "findings_of h (upto_slice i sl) = take i (findings_of h sl)"
    and "arrays (upto_slice i sl) = arrays sl"
  using assms by (cases sl; auto simp: upto_slice_def wf_findings_Some elems_def arrays_def)+

lemma from_slice_spec:
  assumes "wf_findings h sl" and "i \<le> length (findings_of h sl)"
  shows "wf_findings h (from_slice i sl)" and "findings_of h (from_slice i sl) = drop i (findings_of h sl)"
    and "arrays (from_slice i sl) = arrays sl"
  using assms by (cases sl; auto simp: from_slice_def wf_findings_Some elems_def arrays_def drop_window)+

lemma merge_one_slice_spec:
  assumes wf: "wf_findings h sl" and "merge_one_slice room ts c (sl, h) = (t, h')"
  shows "slice_op h sl h' t" and "findings_of h' t = merge_one ts c (findings_of h sl)"
proof -
  let ?es = "findings_of h sl"
  have "slice_op h sl h' t \<and> findings_of h' t = merge_one ts c ?es"
  proof (cases "IndexFunc (\<lambda>f. Type f = Type c) ?es")
    case None
    then have "append_slice room sl [first_seen ts c] h = (t, h')" using assms(2) by (simp add: merge_one_slice_def)
    from append_slice_spec [OF wf this] show ?thesis using None by (simp add: merge_one_def)
  next
    case (Some i)
    then have i: "i < length ?es" using IndexFunc_Some by blast
    obtain u h1 where 1: "append_slice room (upto_slice i sl) (findings_of h (from_slice (Suc i) sl)) h = (u, h1)" by fastforce
    have 2: "append_slice room u [seen_again ts c (?es ! i)] h1 = (t, h')"
      using assms(2) Some 1 by (simp add: merge_one_slice_def Let_def)
    note cut = upto_slice_spec [OF wf less_imp_le [OF i]] from_slice_spec [OF wf Suc_leI [OF i]]
    note s1 = append_slice_spec [OF cut(1) 1]
    have op1: "slice_op h sl h1 u" using s1(1) cut(3) by (simp add: slice_op_def)
    note s2 = append_slice_spec [OF _ 2]
    show ?thesis using slice_op_trans [OF op1 s2(1)] s2(2) op1 s1(2) cut Some
      by (simp add: slice_op_def merge_one_def)
  qed
  then show "slice_op h sl h' t" and "findings_of h' t = merge_one ts c ?es" by blast+
qed

lemma slice_op_refl: "wf_findings h sl \<Longrightarrow> slice_op h sl h sl"
  by (simp add: slice_op_def)

lemma fold_merge_slice:
  assumes "wf_findings h sl" and "fold (merge_one_slice room ts) cs (sl, h) = (t, h')"
  shows "slice_op h sl h' t \<and> findings_of h' t = fold (merge_one ts) cs (findings_of h sl)"
  using assms
proof (induction cs arbitrary: sl h)
  case (Cons c cs)
  obtain u h1 where 1: "merge_one_slice room ts c (sl, h) = (u, h1)" by fastforce
  note s = merge_one_slice_spec [OF Cons.prems(1) 1]
  have "slice_op h1 u h' t \<and> findings_of h' t = fold (merge_one ts) cs (findings_of h1 u)"
    using Cons.IH [of h1 u] s(1) Cons.prems(2) 1 by (simp add: slice_op_def)
  then show ?case using s slice_op_trans by fastforce
qed (simp add: slice_op_refl)

lemma mergeFindings_slice_spec:
  assumes "wf_findings h sl" and "mergeFindings_slice room ts sl tel n h = (t, h')"
  shows "slice_op h sl h' t" and "findings_of h' t = mergeFindings ts (findings_of h sl) tel n"
proof -
  obtain u h1 where f: "fold (merge_one_slice room ts) (candidates tel) (sl, h) = (u, h1)" by fastforce
  note s = fold_merge_slice [OF assms(1) f]
  let ?k = "length (findings_of h1 u) - n"
  have "t = (if length (findings_of h1 u) > n then from_slice ?k u else u) \<and> h' = h1"
    using assms(2) f by (auto simp: mergeFindings_slice_def Let_def)
  moreover have "slice_op h sl h1 (from_slice ?k u)" "findings_of h1 (from_slice ?k u) = drop ?k (findings_of h1 u)"
    using s from_slice_spec [of h1 u ?k] by (simp_all add: slice_op_def)
  ultimately show "slice_op h sl h' t" and "findings_of h' t = mergeFindings ts (findings_of h sl) tel n"
    using s by (auto simp: mergeFindings_def Let_def)
qed

section \<open>Properties\<close>

lemma findings_apart:
  assumes "wf_status h st"
  shows "arrays (HFindings st) \<inter> (set_option (HReplacementStartedAt st) \<union> arrays (HConditions st) \<union> set_option (HLastTransitionTime st)) = {}"
proof -
  have "\<exists>fs. h ! a = OFindings fs" if "a \<in> arrays (HFindings st)" for a
    using assms that by (auto simp: wf_status_def wf_findings_Some arrays_def)
  moreover have "\<exists>cs. h ! a = OConditions cs" if "a \<in> arrays (HConditions st)" for a
    using assms that by (cases "HConditions st"; cases "h ! a") (auto simp: wf_status_def wf_slice_def arrays_def)
  moreover have "\<exists>t. h ! a = OTime t" if "a \<in> set_option (HReplacementStartedAt st) \<union> set_option (HLastTransitionTime st)" for a
    using assms that by (cases "h ! a") (auto simp: wf_status_def wf_time_def)
  ultimately show ?thesis by fastforce
qed

text \<open>Assigning the merged slice to a status changes its findings only.\<close>

lemma merge_status:
  assumes "wf_status h st" and "mergeFindings_slice room ts (HFindings st) tel n h = (fs, h')"
  shows "unchanged (arrays (HFindings st)) h h'" and "wf_status h' (st\<lparr>HFindings := fs\<rparr>)"
    and "status_value h' (st\<lparr>HFindings := fs\<rparr>) =
      (status_value h st)\<lparr>StatusFindings := mergeFindings ts (findings_of h (HFindings st)) tel n\<rparr>"
proof -
  note m = mergeFindings_slice_spec [OF _ assms(2)]
  note d = findings_apart [OF assms(1)]
  have op: "slice_op h (HFindings st) h' fs" using m(1) assms(1) by (simp add: wf_status_def)
  then show u: "unchanged (arrays (HFindings st)) h h'" by (simp add: slice_op_def)
  have "wf_status h (st\<lparr>HFindings := None\<rparr>)" using assms(1) by (simp add: wf_status_def wf_slice_def)
  moreover have "refs (st\<lparr>HFindings := None\<rparr>) \<inter> arrays (HFindings st) = {}" using d by (auto simp: refs_def arrays_def)
  ultimately have f: "wf_status h' (st\<lparr>HFindings := None\<rparr>)"
      "status_value h' (st\<lparr>HFindings := None\<rparr>) = status_value h (st\<lparr>HFindings := None\<rparr>)"
    using status_frame [OF u] by blast+
  show "wf_status h' (st\<lparr>HFindings := fs\<rparr>)" using f(1) op by (simp add: wf_status_def slice_op_def)
  show "status_value h' (st\<lparr>HFindings := fs\<rparr>) =
      (status_value h st)\<lparr>StatusFindings := mergeFindings ts (findings_of h (HFindings st)) tel n\<rparr>"
    using f(2) m(2) assms(1) by (simp add: status_value_def wf_status_def)
qed


definition demo_copies :: "(unit, unit) copies" where
  "demo_copies = \<lparr>copyTime = (\<lambda>t. t), copyCondition = (\<lambda>c. c), copyObjectMeta = (\<lambda>m. m), copyListMeta = (\<lambda>l. l)\<rparr>"

lemma demo_copies_exact: "exact demo_copies"
  by (simp add: exact_def demo_copies_def)

definition demo_finding :: "FindingType \<Rightarrow> CRFinding" where
  "demo_finding ty = \<lparr>Type = ty, CRSeverity = FindingSeverityCritical, Message = ''m'', Count = 1, ObservedAt = 7\<rparr>"

definition demo_heap :: "(unit, unit) heap" where
  "demo_heap = [OFindings [demo_finding FindingPowerCapped, demo_finding FindingGPUThermalThrottle], OTime 5]"

definition demo_object :: "unit hGPUHealth" where
  "demo_object = (zero_gpu \<lparr>MName = ''gpu-1'', MUID = ''u'', MResourceVersion = ''1'', MGeneration = 1, MRest = ()\<rparr>)
     \<lparr>HStatus := zero_status\<lparr>HFindings := Some \<lparr>Arr = 0, Off = 0, Len = 2\<rparr>, HLastTransitionTime := Some 1\<rparr>\<rparr>"

lemma demo_object_wf: "wf_status demo_heap (HStatus demo_object)"
  unfolding wf_status_def wf_slice_def wf_time_def
  by (simp add: demo_object_def demo_heap_def zero_gpu_def zero_status_def)


text \<open>
  A deep copy of a list of resources, as an object of the scheme, is nil exactly for a nil list. Otherwise it is a new list
  whose items have the values of the original's, in order; the items lie in new memory and share nothing with each other.
\<close>

theorem list_deep_copy:
  assumes "exact lib" and "case l of None \<Rightarrow> True | Some l \<Rightarrow> wf_items h (LItems l)"
    and "GPUHealthList_DeepCopyObject lib m0 l h = (x, h')"
  shows "unchanged {} h h' \<and>
    (case l of
       None \<Rightarrow> x = None \<and> h' = h
     | Some l \<Rightarrow> \<exists>a out. x = Some (GPUHealthListObject (Some a)) \<and> length h \<le> a \<and> h' ! a = OList out \<and>
         LTypeMeta out = LTypeMeta l \<and> LMeta out = LMeta l \<and> (LItems out = None \<longleftrightarrow> LItems l = None) \<and>
         arrays (LItems out) \<union> (\<Union>g \<in> set (elems items_in h' (LItems out)). refs (HStatus g)) \<subseteq> {length h..<length h'} \<and>
         map (gpu_value h') (elems items_in h' (LItems out)) = map (gpu_value h) (elems items_in h (LItems l)) \<and>
         (\<forall>i < length (elems items_in h' (LItems out)). \<forall>j < i.
            refs (HStatus (elems items_in h' (LItems out) ! i)) \<inter> refs (HStatus (elems items_in h' (LItems out) ! j)) = {}))"
proof (cases l)
  case None
  then show ?thesis using assms(3) by (simp add: GPUHealthList_DeepCopyObject_def GPUHealthList_DeepCopy_def)
next
  case (Some l')
  obtain t h1 where c: "copy_slice OItems items_in (zero_gpu m0) (GPUHealth_DeepCopyInto lib) (LItems l') h = (t, h1)" by fastforce
  let ?out = "l'\<lparr>LItems := t\<rparr>"
  have x: "x = Some (GPUHealthListObject (Some (length h1)))" "h' = h1 @ [OList ?out]"
    using assms(1,3) Some c
    by (simp_all add: GPUHealthList_DeepCopyObject_def GPUHealthList_DeepCopy_def GPUHealthList_DeepCopyInto_def alloc_def exact_def)
  show ?thesis
  proof (cases "LItems l'")
    case None
    then have "t = None" "h1 = h" using c by (simp_all add: copy_slice_def)
    then show ?thesis using Some x None by (simp add: arrays_def elems_def)
  next
    case it: (Some s)
    have wf: "wf_items h (Some s)" using assms(2) Some it by simp
    obtain xs where t: "t = Some \<lparr>Arr = length h, Off = 0, Len = Len s\<rparr>"
        and i: "items_copied h (elems items_in h (Some s)) (Len s) h1 xs"
      using copy_items [OF assms(1) wf, of "zero_gpu m0" t h1] c it by auto
    have len: "length (elems items_in h (Some s)) = Len s" using wf length_elems unfolding wf_items_def by blast
    have xs: "elems items_in h' t = xs" using i len by (simp add: t x elems_def items_copied_def nth_append)
    have u1: "unchanged {} h1 h'" by (simp add: x)
    have ic: "item_copied h (elems items_in h (Some s) ! k) h' (xs ! k)" if "k < Len s" for k
      using i that item_copied_frame [OF _ u1] by (simp add: items_copied_def)
    have "map (gpu_value h') xs = map (gpu_value h) (elems items_in h (Some s))"
      using i len ic by (intro nth_equalityI) (simp_all add: items_copied_def item_copied_def)
    moreover have "(\<Union>g \<in> set xs. refs (HStatus g)) \<subseteq> {length h..<length h'}"
      using i len ic by (fastforce simp: items_copied_def item_copied_def in_set_conv_nth)
    moreover have "arrays t \<subseteq> {length h..<length h'}" "length h \<le> length h1" "unchanged {} h h'"
      using i unchanged_steps [OF _ u1] by (auto simp: t x arrays_def items_copied_def)
    moreover have "\<forall>i < length xs. \<forall>j < i. refs (HStatus (xs ! i)) \<inter> refs (HStatus (xs ! j)) = {}"
      using i len by (simp add: items_copied_def)
    ultimately show ?thesis using Some x xs it t by simp
  qed
qed

definition demo_list_heap :: "(unit, unit) heap" where
  "demo_list_heap = demo_heap @ [OItems [demo_object, demo_object]]"

definition demo_list :: "unit hGPUHealthList" where
  "demo_list = \<lparr>LTypeMeta = (''GPUHealthList'', ''gpu.nvidia.com/v1alpha1''), LMeta = (), LItems = Some \<lparr>Arr = 2, Off = 0, Len = 2\<rparr>\<rparr>"

lemma demo_list_heap_facts:
  "unchanged {} demo_heap demo_list_heap" "length demo_list_heap = 3" "demo_list_heap ! 2 = OItems [demo_object, demo_object]"
  by (simp add: demo_list_heap_def) (simp_all add: demo_list_heap_def demo_heap_def)

lemma demo_list_wf: "wf_items demo_list_heap (LItems demo_list)"
  using status_frame(1) [OF demo_list_heap_facts(1) _ demo_object_wf]
  by (simp add: wf_items_def demo_list_def wf_slice_def elems_def demo_list_heap_facts)

lemma replicate_numeral_two: "replicate 2 x = [x, x]"
  by (simp add: numeral_2_eq_2)

theorem list_deep_copy_witness:
  "\<exists>a out h'. GPUHealthList_DeepCopyObject demo_copies (HMeta demo_object) (Some demo_list) demo_list_heap =
       (Some (GPUHealthListObject (Some a)), h') \<and> h' ! a = OList out \<and>
     map (gpu_value h') (elems items_in h' (LItems out)) = replicate 2 (gpu_value demo_heap demo_object)"
proof -
  obtain x h' where c: "GPUHealthList_DeepCopyObject demo_copies (HMeta demo_object) (Some demo_list) demo_list_heap = (x, h')" by fastforce
  have w: "case Some demo_list of None \<Rightarrow> True | Some l \<Rightarrow> wf_items demo_list_heap (LItems l)" using demo_list_wf by simp
  have "map (gpu_value demo_list_heap) (elems items_in demo_list_heap (LItems demo_list)) = replicate 2 (gpu_value demo_heap demo_object)"
    using gpu_frame [OF demo_list_heap_facts(1) _ demo_object_wf]
    by (simp add: demo_list_def elems_def demo_list_heap_facts replicate_numeral_two)
  moreover from list_deep_copy [OF demo_copies_exact w c] obtain a out where
    "x = Some (GPUHealthListObject (Some a))" "h' ! a = OList out"
    "map (gpu_value h') (elems items_in h' (LItems out)) = map (gpu_value demo_list_heap) (elems items_in demo_list_heap (LItems demo_list))"
    by auto
  ultimately show ?thesis using c by auto
qed

text \<open>
  C11. The merge of findings works in place, on the array of the slice it is given. Applied to a deep copy of a cached
  resource it refines the merge on values: the copy gets the merged findings and nothing else of it changes, and the cached
  resource keeps its value.
\<close>

theorem merge_into_copy:
  assumes "exact lib" and "wf_status h (HStatus cached)" and "GPUHealth_DeepCopyInto lib cached h = (g, h1)"
    and "mergeFindings_slice room ts (HFindings (HStatus g)) tel n h1 = (fs, h2)"
  shows "gpu_value h2 (g\<lparr>HStatus := (HStatus g)\<lparr>HFindings := fs\<rparr>\<rparr>) =
      set_findings (mergeFindings ts (StatusFindings (Status (gpu_value h cached))) tel n) (gpu_value h cached) \<and>
    wf_status h2 ((HStatus g)\<lparr>HFindings := fs\<rparr>) \<and> gpu_value h2 cached = gpu_value h cached"
proof -
  note s = GPUHealth_DeepCopyInto_spec [OF assms(1-3)]
  have wg: "wf_status h1 (HStatus g)" and r: "refs (HStatus g) \<subseteq> {length h..<length h1}" using s by (simp_all add: copied_def)
  note m = merge_status [OF wg assms(4)]
  have "gpu_value h2 (g\<lparr>HStatus := (HStatus g)\<lparr>HFindings := fs\<rparr>\<rparr>) =
      set_findings (mergeFindings ts (StatusFindings (Status (gpu_value h1 g))) tel n) (gpu_value h1 g)"
    using m(3) by (simp add: gpu_value_def set_findings_def status_value_def)
  moreover have "arrays (HFindings (HStatus g)) \<subseteq> {length h..}" using r by (fastforce simp: refs_def)
  then have "gpu_value h2 cached = gpu_value h cached" by (rule gpu_copy.original_kept [OF assms(1-3) m(1)])
  ultimately show ?thesis using m(2) s by simp
qed

theorem merge_into_copy_witness:
  "gpu_value (snd (mergeFindings_slice (\<lambda>n. n) 9 (HFindings (HStatus (fst (GPUHealth_DeepCopyInto demo_copies demo_object demo_heap))))
       (demo_health StatusCritical) 100 (snd (GPUHealth_DeepCopyInto demo_copies demo_object demo_heap)))) demo_object =
   gpu_value demo_heap demo_object"
proof -
  let ?c = "GPUHealth_DeepCopyInto demo_copies demo_object demo_heap"
  have c: "?c = (fst ?c, snd ?c)" by simp
  let ?m = "mergeFindings_slice (\<lambda>n. n) 9 (HFindings (HStatus (fst ?c))) (demo_health StatusCritical) 100 (snd ?c)"
  have m: "?m = (fst ?m, snd ?m)" by simp
  show ?thesis using merge_into_copy [OF demo_copies_exact demo_object_wf c m] by blast
qed

text \<open>
  The copy is needed: the same merge on the cached resource itself, with the result assigned to another variable, shows in the
  cached value, because the elements of its array have moved.
\<close>

theorem merge_without_copy:
  "map Type (StatusFindings (Status (gpu_value demo_heap demo_object))) = [FindingPowerCapped, FindingGPUThermalThrottle]"
  "map Type (StatusFindings (Status (gpu_value (snd (mergeFindings_slice (\<lambda>n. n) 9 (HFindings (HStatus demo_object))
     ((demo_health StatusCritical)\<lparr>Temp := (Temp (demo_health StatusCritical))\<lparr>GPUCoreCelsius := 20\<rparr>,
        Pow := (Pow (demo_health StatusCritical))\<lparr>PowerCapped := True\<rparr>\<rparr>) 100 demo_heap)) demo_object))) =
   [FindingGPUThermalThrottle, FindingPowerCapped]"
  by code_simp+

end
