(* ===== verification/History.thy ===== *)
theory History
  imports Cluster
begin

text \<open>
  The operator over time: the statuses that a sequence of reconcile runs of one resource stores, each run starting from the
  resource as the last one left it. The budget of remediation attempts, which theory \<open>Operator\<close> shows for one write, bounds
  how often a GPU is drained before it is healthy again or failed.
\<close>

section \<open>Histories\<close>

fun accepted_status :: "call \<Rightarrow> GPUHealthCR option" where
  "accepted_status (PutStatus c (Inr c')) = Some c'"
| "accepted_status (InSync c) = Some c"
| "accepted_status _ = None"

definition kept :: "call list \<Rightarrow> GPUHealthCR list" where
  "kept cs = List.map_filter accepted_status cs"

text \<open>The resource before the first run, the statuses stored since, and the resource after the last run.\<close>

inductive history :: "'w GPUHealthReconciler \<Rightarrow> GPUHealthCR \<Rightarrow> GPUHealthCR list \<Rightarrow> GPUHealthCR \<Rightarrow> bool" for r cr0 where
  created: "history r cr0 [] cr0"
| reconciled: "history r cr0 ds cr \<Longrightarrow> reconciles r cr cs x \<Longrightarrow> history r cr0 (ds @ kept cs) (stored cr cs)"

section \<open>The budget\<close>

definition count_drain :: "GPUHealthCR \<Rightarrow> nat \<Rightarrow> nat" where
  "count_drain d n = (if phase d = PhaseHealthy then 0 else if phase d = PhaseDraining then Suc n else n)"

definition limit :: "GPUHealthCR \<Rightarrow> int" where
  "limit c = sint (MaxRemediationAttempts (Spec c))"

definition budget :: "int \<Rightarrow> nat \<Rightarrow> GPUHealthCR \<Rightarrow> bool" where
  "budget m n c \<longleftrightarrow> limit c = m \<and> 1 \<le> m \<and> m \<le> 100 \<and> int n < m \<and> int n \<le> sint (attempts_of c) \<and> sint (attempts_of c) \<le> m \<and>
     (phase c \<noteq> PhaseFailed \<longrightarrow> sint (attempts_of c) < m) \<and> (spec_changed c \<longrightarrow> attempts_of c = 0)"

lemma budget_less: "budget m n c \<Longrightarrow> int n < m"
  by (simp add: budget_def)

lemma mstep_accepted:
  assumes "mstep r s c = Some s'"
  shows "case accepted_status c of None \<Rightarrow> cur s' = cur s | Some d' \<Rightarrow> cur s' = d' \<and> (\<exists>d. write_ok s d \<and> stored_as d d')"
proof (cases c)
  case (Http m url res)
  then show ?thesis using assms by (cases m) (auto split: if_splits)
next
  case (PutStatus d res)
  then show ?thesis using assms by (cases res) (auto split: if_splits)
next
  case (InSync d)
  then show ?thesis using assms stored_as_refl [of d] by (auto split: if_splits)
qed (use assms in \<open>auto split: if_splits sum.splits\<close>)

lemma counted_budget:
  assumes "budget m n (cur s)" and "counted s d" and "phase (cur s) \<noteq> PhaseFailed"
  shows "sint (attempts_of d) = sint (attempts_of (cur s)) + 1"
proof -
  have "sint (attempts_of (cur s) + 1) = sint (attempts_of (cur s)) + 1"
    using assms(1) by (intro sint_Suc32) (auto simp: budget_def)
  then show ?thesis using assms by (auto simp: counted_def budget_def)
qed

text \<open>One write: a count of zero on the way to Healthy, one more on the way to Draining, within the limit.\<close>

lemma write_counts:
  assumes "write_ok s d"
  shows "phase d = PhaseHealthy \<and> attempts_of d = 0 \<or> phase d \<notin> {PhaseHealthy, PhaseDraining} \<and> uncounted s d \<and> (phase d = PhaseFailed \<or> phase (cur s) \<noteq> PhaseFailed) \<or>
    phase d \<noteq> PhaseHealthy \<and> counted s d \<and> phase (cur s) \<noteq> PhaseFailed \<and> (\<not> exhausted d \<or> phase d = PhaseFailed)"
  using assms
proof (cases rule: write_ok_cases)
  case stamp
  then show ?thesis by (simp add: stamps_def)
next
  case phase
  then show ?thesis using needs_remedy_from [of s]
    by (cases "phase d") (auto simp: critical_from_def observing_def rejoining_overdue_def)
qed

lemma budget_write:
  assumes "budget m n (cur s)" and "write_ok s d" and "stored_as d d'"
  shows "budget m (count_drain d' n) d'"
proof -
  have same: "phase d' = phase d" "attempts_of d' = attempts_of d" "limit d' = limit d" "limit d = limit (cur s)" "\<not> spec_changed d'"
    "MaxRemediationAttempts (Spec d) = MaxRemediationAttempts (Spec (cur s))"
    using assms(2,3) by (auto simp: stored_as_def limit_def spec_changed_def write_ok_def same_object_def)
  consider (healthy) "phase d = PhaseHealthy" "attempts_of d = 0"
    | (kept) "phase d \<notin> {PhaseHealthy, PhaseDraining}" "uncounted s d" "phase d = PhaseFailed \<or> phase (cur s) \<noteq> PhaseFailed"
    | (counted) "phase d \<noteq> PhaseHealthy" "counted s d" "phase (cur s) \<noteq> PhaseFailed" "\<not> exhausted d \<or> phase d = PhaseFailed"
    using write_counts [OF assms(2)] by blast
  then show ?thesis
  proof cases
    case healthy
    then show ?thesis using assms(1) same by (simp add: budget_def count_drain_def)
  next
    case kept
    then show ?thesis using assms(1) same by (auto simp: budget_def count_drain_def uncounted_def)
  next
    case counted
    have "sint (attempts_of d) = sint (attempts_of (cur s)) + 1" by (rule counted_budget [OF assms(1) counted(2,3)])
    moreover have "phase d \<noteq> PhaseFailed \<Longrightarrow> sint (attempts_of d) < m"
      using counted(4) assms(1) same by (auto simp: exhausted_def word_sle_eq budget_def limit_def)
    ultimately show ?thesis using assms(1) counted same by (auto simp: budget_def count_drain_def)
  qed
qed

text \<open>A run: every status it stores is within the budget.\<close>

fun in_budget :: "int \<Rightarrow> nat \<Rightarrow> GPUHealthCR list \<Rightarrow> bool" where
  "in_budget m n [] = (int n < m)"
| "in_budget m n (d # ds) = (int n < m \<and> in_budget m (count_drain d n) ds)"

lemma in_budget_append: "in_budget m n (xs @ ys) \<longleftrightarrow> in_budget m n xs \<and> in_budget m (fold count_drain xs n) ys"
  by (induction xs arbitrary: n) (cases ys; auto)+

lemma budget_run:
  assumes "mrun r s cs = Some t" and "budget m n (cur s)"
  shows "in_budget m n (kept cs) \<and> budget m (fold count_drain (kept cs) n) (cur t)"
  using assms
proof (induction cs arbitrary: s n)
  case Nil
  then show ?case by (simp add: kept_def List.map_filter_simps budget_def)
next
  case (Cons c cs)
  obtain s1 where s1: "mstep r s c = Some s1" "mrun r s1 cs = Some t" using Cons.prems(1) by (auto split: option.splits)
  show ?case
  proof (cases "accepted_status c")
    case None
    then have "cur s1 = cur s" using mstep_accepted [OF s1(1)] by simp
    then show ?thesis using Cons.IH [OF s1(2)] Cons.prems(2) None by (simp add: kept_def List.map_filter_simps)
  next
    case (Some d')
    then obtain d where d: "cur s1 = d'" "write_ok s d" "stored_as d d'" using mstep_accepted [OF s1(1)] by auto
    have "budget m (count_drain d' n) d'" by (rule budget_write [OF Cons.prems(2) d(2,3)])
    then show ?thesis using Cons.IH [OF s1(2)] budget_less [OF Cons.prems(2)] d(1) Some by (simp add: kept_def List.map_filter_simps)
  qed
qed

lemma budget_history:
  assumes "lawful r" and "history r cr ds c" and "budget m n cr"
  shows "in_budget m n ds \<and> budget m (fold count_drain ds n) c"
  using assms(2)
proof (induction rule: history.induct)
  case created
  then show ?case using assms(3) by (simp add: budget_def)
next
  case (reconciled ds c cs x)
  obtain s where s: "mrun r (start c) cs = Some s" by (rule reconciles_accepted [OF assms(1) reconciled.hyps(2)])
  have "cur s = stored c cs" using mrun_stored [OF s] by (simp add: start_def)
  then show ?case using budget_run [OF s, of m] reconciled.IH by (simp add: in_budget_append start_def)
qed

lemma fold_count_drain:
  "\<forall>d \<in> set ds. phase d \<noteq> PhaseHealthy \<Longrightarrow> fold count_drain ds n = n + length (filter (\<lambda>d. phase d = PhaseDraining) ds)"
  by (induction ds arbitrary: n) (auto simp: count_drain_def)

lemma in_budget_last: "in_budget m n ds \<Longrightarrow> int (fold count_drain ds n) < m"
  by (induction ds arbitrary: n) auto

section \<open>Property\<close>

text \<open>
  C7. Automated remediation ends. For a resource that starts with no attempts, as long as its specification is not edited, the
  statuses stored by any number of reconcile runs contain fewer drains than the limit of attempts between one healthy status and the next: a GPU that does
  not get healthy is drained at most one time less than the limit.
\<close>

theorem remediation_bounded:
  assumes "lawful r" and "history r cr (pre @ seg @ post) c" and "attempts_of cr = 0" and "1 \<le> limit cr" and "limit cr \<le> 100"
    and "\<forall>d \<in> set seg. phase d \<noteq> PhaseHealthy"
  shows "int (length (filter (\<lambda>d. phase d = PhaseDraining) seg)) < limit cr"
proof -
  have "budget (limit cr) 0 cr" using assms(3-5) by (simp add: budget_def)
  from budget_history [OF assms(1,2) this] have "in_budget (limit cr) (fold count_drain pre 0) seg" by (simp add: in_budget_append)
  then have "int (fold count_drain seg (fold count_drain pre 0)) < limit cr" by (rule in_budget_last)
  then show ?thesis using fold_count_drain [OF assms(6)] by simp
qed

theorem remediation_bounded_witness:
  "int (length (filter (\<lambda>d. phase d = PhaseDraining)
     (kept (demo_calls (demo_cr RemediationPolicyDrain PhaseHealthy 0) False [] [ok_reply StatusCritical])))) < 3"
proof -
  let ?cr = "demo_cr RemediationPolicyDrain PhaseHealthy 0"
  let ?cs = "demo_calls ?cr False [] [ok_reply StatusCritical]"
  have h: "history demo_operator ?cr ([] @ kept ?cs @ []) (stored ?cr ?cs)"
    using reconciled [OF created [of demo_operator ?cr] demo_reconciles [of ?cr False "[]" "[ok_reply StatusCritical]"]] by simp
  have c: "attempts_of ?cr = 0" "1 \<le> limit ?cr" "limit ?cr \<le> 100" "\<forall>d \<in> set (kept ?cs). phase d \<noteq> PhaseHealthy" by code_simp+
  have "limit ?cr = 3" by code_simp
  with remediation_bounded [OF demo_lawful h c] show ?thesis by simp
qed

end
