(* ===== verification/Operator_Process.thy ===== *)
theory Operator_Process
  imports Kube Go_Fmt
begin

text \<open>
  The process of the operator (\<^verbatim>\<open>cmd/operator/main.go\<close>): its command line, the servers it configures, and the order
  in which it registers things with the controller manager before it starts it; with it \<^verbatim>\<open>SetupWithManager\<close> of the
  reconciler and the registration of the API group (\<^verbatim>\<open>api/v1alpha1/groupversion_info.go\<close>). The manager and the
  logging flags belong to libraries and are parameters. Log lines are left out.
\<close>

section \<open>The command line\<close>

record flags =
  telemetryURL :: string
  metricsAddr :: string
  metricsCertPath :: string
  metricsCertName :: string
  metricsCertKey :: string
  webhookCertPath :: string
  webhookCertName :: string
  webhookCertKey :: string
  enableLeaderElection :: bool
  probeAddr :: string
  secureMetrics :: bool
  enableHTTP2 :: bool

definition default_flags :: flags where
  "default_flags = \<lparr>telemetryURL = ''http://localhost:3000'', metricsAddr = ''0'', metricsCertPath = [], metricsCertName = ''tls.crt'',
     metricsCertKey = ''tls.key'', webhookCertPath = [], webhookCertName = ''tls.crt'', webhookCertKey = ''tls.key'',
     enableLeaderElection = False, probeAddr = '':8081'', secureMetrics = True, enableHTTP2 = False\<rparr>"

datatype flag_var = StringVar "string \<Rightarrow> flags \<Rightarrow> flags" | BoolVar "bool \<Rightarrow> flags \<Rightarrow> flags"

definition flag_vars :: "(string \<times> flag_var) list" where
  "flag_vars =
    [(''telemetry-url'', StringVar (\<lambda>v. telemetryURL_update (\<lambda>_. v))),
     (''metrics-bind-address'', StringVar (\<lambda>v. metricsAddr_update (\<lambda>_. v))),
     (''health-probe-bind-address'', StringVar (\<lambda>v. probeAddr_update (\<lambda>_. v))),
     (''leader-elect'', BoolVar (\<lambda>v. enableLeaderElection_update (\<lambda>_. v))),
     (''metrics-secure'', BoolVar (\<lambda>v. secureMetrics_update (\<lambda>_. v))),
     (''webhook-cert-path'', StringVar (\<lambda>v. webhookCertPath_update (\<lambda>_. v))),
     (''webhook-cert-name'', StringVar (\<lambda>v. webhookCertName_update (\<lambda>_. v))),
     (''webhook-cert-key'', StringVar (\<lambda>v. webhookCertKey_update (\<lambda>_. v))),
     (''metrics-cert-path'', StringVar (\<lambda>v. metricsCertPath_update (\<lambda>_. v))),
     (''metrics-cert-name'', StringVar (\<lambda>v. metricsCertName_update (\<lambda>_. v))),
     (''metrics-cert-key'', StringVar (\<lambda>v. metricsCertKey_update (\<lambda>_. v))),
     (''enable-http2'', BoolVar (\<lambda>v. enableHTTP2_update (\<lambda>_. v)))]"

text \<open>
  The package \<^verbatim>\<open>flag\<close>. A flag of a library (\<^verbatim>\<open>opts.BindFlags\<close>) is its name, whether it is Boolean, and what setting it does to the
  library's options \<open>'z\<close>. Parsing stops at the first argument that is not a flag, or after \<^verbatim>\<open>--\<close>.
\<close>

datatype parse_error =
  BadFlagSyntax string | NotDefined string | Help | InvalidValue string string | NeedsArgument string

type_synonym 'z lib_flags = "string \<Rightarrow> (bool \<times> (string \<Rightarrow> 'z \<Rightarrow> 'z option)) option"

definition ParseBool :: "string \<Rightarrow> bool option" where
  "ParseBool s =
     (if s \<in> set [''1'', ''t'', ''T'', ''TRUE'', ''true'', ''True''] then Some True
      else if s \<in> set [''0'', ''f'', ''F'', ''FALSE'', ''false'', ''False''] then Some False
      else None)"

definition is_bool_flag :: "'z lib_flags \<Rightarrow> string \<Rightarrow> bool option" where
  "is_bool_flag lib name =
     (case map_of flag_vars name of
        Some (BoolVar _) \<Rightarrow> Some True
      | Some (StringVar _) \<Rightarrow> Some False
      | None \<Rightarrow> map_option fst (lib name))"

definition set_flag :: "'z lib_flags \<Rightarrow> string \<Rightarrow> string \<Rightarrow> flags \<times> 'z \<Rightarrow> (flags \<times> 'z) option" where
  "set_flag lib name v = (\<lambda>(fl, z).
     case map_of flag_vars name of
       Some (BoolVar f) \<Rightarrow> map_option (\<lambda>b. (f b fl, z)) (ParseBool v)
     | Some (StringVar f) \<Rightarrow> Some (f v fl, z)
     | None \<Rightarrow> (case lib name of None \<Rightarrow> None | Some (_, put) \<Rightarrow> map_option (\<lambda>z. (fl, z)) (put v z)))"

fun split_value :: "string \<Rightarrow> string \<times> string option" where
  "split_value [] = ([], None)"
| "split_value (c # cs) =
     (if c = CHR ''='' then ([], Some cs) else case split_value cs of (n, v) \<Rightarrow> (c # n, v))"

definition flag_name :: "string \<Rightarrow> string" where
  "flag_name s = (if take 2 s = ''--'' then drop 2 s else drop 1 s)"

fun parse :: "'z lib_flags \<Rightarrow> string list \<Rightarrow> flags \<times> 'z \<Rightarrow> (parse_error, string list \<times> flags \<times> 'z) result" where
  "parse lib [] st = Inr ([], st)"
| "parse lib (s # args) st =
     (if length s < 2 \<or> take 1 s \<noteq> ''-'' then Inr (s # args, st)
      else if s = ''--'' then Inr (args, st)
      else let name = flag_name s
        in if name = [] \<or> hd name = CHR ''-'' \<or> hd name = CHR ''='' then Inl (BadFlagSyntax s)
           else (case split_value name of (name, value) \<Rightarrow>
             case is_bool_flag lib name of
               None \<Rightarrow> Inl (if name = ''help'' \<or> name = ''h'' then Help else NotDefined name)
             | Some True \<Rightarrow>
                 (let v = (case value of None \<Rightarrow> ''true'' | Some v \<Rightarrow> v)
                  in case set_flag lib name v st of
                       None \<Rightarrow> Inl (InvalidValue name v)
                     | Some st \<Rightarrow> parse lib args st)
             | Some False \<Rightarrow>
                 (case value of
                    Some v \<Rightarrow> (case set_flag lib name v st of None \<Rightarrow> Inl (InvalidValue name v) | Some st \<Rightarrow> parse lib args st)
                  | None \<Rightarrow>
                      (case args of
                         [] \<Rightarrow> Inl (NeedsArgument name)
                       | v # args \<Rightarrow> (case set_flag lib name v st of None \<Rightarrow> Inl (InvalidValue name v) | Some st \<Rightarrow> parse lib args st)))))"

section \<open>The servers\<close>

type_synonym tls_config = "string list"  \<comment> \<open>\<^verbatim>\<open>NextProtos\<close>, the field the program sets\<close>

record server_cert =
  CertDir :: string
  CertName :: string
  KeyName :: string

definition no_cert :: server_cert where
  "no_cert = \<lparr>CertDir = [], CertName = [], KeyName = []\<rparr>"

record WebhookOptions =
  WebhookTLSOpts :: "(tls_config \<Rightarrow> tls_config) list"
  WebhookCert :: server_cert

record MetricsOptions =
  BindAddress :: string
  SecureServing :: bool
  MetricsTLSOpts :: "(tls_config \<Rightarrow> tls_config) list"
  WithAuthenticationAndAuthorization :: bool  \<comment> \<open>the \<^verbatim>\<open>FilterProvider\<close> is set\<close>
  MetricsCert :: server_cert

definition disableHTTP2 :: "tls_config \<Rightarrow> tls_config" where
  "disableHTTP2 c = [''http/1.1'']"

definition tlsOpts :: "flags \<Rightarrow> (tls_config \<Rightarrow> tls_config) list" where
  "tlsOpts fl = (if \<not> enableHTTP2 fl then [disableHTTP2] else [])"

definition webhookServerOptions :: "flags \<Rightarrow> WebhookOptions" where
  "webhookServerOptions fl =
     (let o1 = \<lparr>WebhookTLSOpts = tlsOpts fl, WebhookCert = no_cert\<rparr>
      in if length (webhookCertPath fl) > 0
         then o1\<lparr>WebhookCert := \<lparr>CertDir = webhookCertPath fl, CertName = webhookCertName fl, KeyName = webhookCertKey fl\<rparr>\<rparr>
         else o1)"

definition metricsServerOptions :: "flags \<Rightarrow> MetricsOptions" where
  "metricsServerOptions fl =
     (let o1 = \<lparr>BindAddress = metricsAddr fl, SecureServing = secureMetrics fl, MetricsTLSOpts = tlsOpts fl,
                WithAuthenticationAndAuthorization = False, MetricsCert = no_cert\<rparr>;
          o2 = (if secureMetrics fl then o1\<lparr>WithAuthenticationAndAuthorization := True\<rparr> else o1)
      in if length (metricsCertPath fl) > 0
         then o2\<lparr>MetricsCert := \<lparr>CertDir = metricsCertPath fl, CertName = metricsCertName fl, KeyName = metricsCertKey fl\<rparr>\<rparr>
         else o2)"

section \<open>The scheme\<close>

type_synonym kind = "string \<times> string \<times> string"  \<comment> \<open>group, version, kind\<close>
type_synonym scheme = "kind list"

definition SchemeGroupVersion :: "string \<times> string" where
  "SchemeGroupVersion = (''gpu.nvidia.com'', ''v1alpha1'')"

definition AddKnownTypes :: "string \<times> string \<Rightarrow> string list \<Rightarrow> scheme \<Rightarrow> scheme" where
  "AddKnownTypes gv kinds s = s @ map (\<lambda>k. (fst gv, snd gv, k)) kinds"

text \<open>
  A builder is the list of its functions. The first comes with the package, the second is registered by the
  initialiser of \<^verbatim>\<open>gpuhealth_types.go\<close>; \<open>meta\<close> are the kinds that \<^verbatim>\<open>metav1.AddToGroupVersion\<close> adds.
\<close>

definition SchemeBuilder :: "string list \<Rightarrow> (scheme \<Rightarrow> scheme) list" where
  "SchemeBuilder meta = [AddKnownTypes SchemeGroupVersion meta, AddKnownTypes SchemeGroupVersion [''GPUHealth'', ''GPUHealthList'']]"

definition AddToScheme_v1alpha1 :: "string list \<Rightarrow> scheme \<Rightarrow> scheme" where
  "AddToScheme_v1alpha1 meta s = fold (\<lambda>f. f) (SchemeBuilder meta) s"

text \<open>
  \<^verbatim>\<open>init\<close>: the kinds of the Kubernetes client, then those of this program. Neither registration fails; an error would
  end the process before \<^verbatim>\<open>main\<close>.
\<close>

definition init_scheme :: "(scheme \<Rightarrow> scheme) \<Rightarrow> string list \<Rightarrow> scheme" where
  "init_scheme clientgo meta = AddToScheme_v1alpha1 meta (clientgo [])"

section \<open>The manager\<close>

record ManagerOptions =
  ManagerScheme :: scheme
  Metrics :: MetricsOptions
  WebhookServer :: WebhookOptions
  HealthProbeBindAddress :: string
  LeaderElection :: bool
  LeaderElectionID :: string

record controller_builder =
  ForKind :: kind
  GenerationChangedPredicate :: bool
  Named :: string
  ReconcilerURL :: string

text \<open>What a run asks of the manager, in order.\<close>

datatype mgr_call =
  NewManager ManagerOptions | IndexField string string | Complete controller_builder
| AddHealthzCheck string | AddReadyzCheck string | Start

record 'w manager_lib =
  lib_kinds :: "scheme \<Rightarrow> scheme"
  meta_kinds :: "string list"
  GetConfig :: "'w \<Rightarrow> bool \<times> 'w"  \<comment> \<open>\<^verbatim>\<open>GetConfigOrDie\<close>: whether there is a configuration\<close>
  perform :: "mgr_call \<Rightarrow> 'w \<Rightarrow> string option \<times> 'w"  \<comment> \<open>the error, if any\<close>

datatype exit_code = Exit nat

type_synonym 'w run = "(exit_code, unit) result \<times> mgr_call list \<times> 'w"

text \<open>One call whose error ends the process with code 1, and what follows it.\<close>

definition do_call :: "'w manager_lib \<Rightarrow> mgr_call \<Rightarrow> ('w \<Rightarrow> 'w run) \<Rightarrow> 'w \<Rightarrow> 'w run" where
  "do_call m c rest w =
     (case perform m c w of
        (Some _, w) \<Rightarrow> (Inl (Exit 1), [c], w)
      | (None, w) \<Rightarrow> (case rest w of (x, cs, w) \<Rightarrow> (x, c # cs, w)))"

text \<open>The function behind the index: the value of \<^verbatim>\<open>spec.nodeName\<close> of a pod.\<close>

definition index_node_name :: "'p \<times> string \<Rightarrow> string list" where
  "index_node_name o1 = [snd o1]"

definition gpuhealth_kind :: kind where
  "gpuhealth_kind = (fst SchemeGroupVersion, snd SchemeGroupVersion, ''GPUHealth'')"

definition SetupWithManager :: "'w manager_lib \<Rightarrow> string \<Rightarrow> ('w \<Rightarrow> 'w run) \<Rightarrow> 'w \<Rightarrow> 'w run" where
  "SetupWithManager m url =
     do_call m (Complete \<lparr>ForKind = gpuhealth_kind, GenerationChangedPredicate = True, Named = ''gpuhealth'', ReconcilerURL = url\<rparr>)"

definition manager_options :: "'w manager_lib \<Rightarrow> flags \<Rightarrow> ManagerOptions" where
  "manager_options m fl = \<lparr>ManagerScheme = init_scheme (lib_kinds m) (meta_kinds m), Metrics = metricsServerOptions fl,
     WebhookServer = webhookServerOptions fl, HealthProbeBindAddress = probeAddr fl, LeaderElection = enableLeaderElection fl,
     LeaderElectionID = ''fe693b35.gpu.nvidia.com''\<rparr>"

definition run_manager :: "'w manager_lib \<Rightarrow> flags \<Rightarrow> 'w \<Rightarrow> 'w run" where
  "run_manager m fl w =
     (case GetConfig m w of
        (False, w) \<Rightarrow> (Inl (Exit 1), [], w)
      | (True, w) \<Rightarrow>
          do_call m (NewManager (manager_options m fl))
         (do_call m (IndexField ''Pod'' ''spec.nodeName'')
         (SetupWithManager m (telemetryURL fl)
         (do_call m (AddHealthzCheck ''healthz'')
         (do_call m (AddReadyzCheck ''readyz'')
         (do_call m Start
         (\<lambda>w. (Inr (), [], w))))))) w)"

definition operator_main :: "'z lib_flags \<Rightarrow> 'z \<Rightarrow> 'w manager_lib \<Rightarrow> string list \<Rightarrow> 'w \<Rightarrow> 'w run" where
  "operator_main lib z m args w =
     (case parse lib args (default_flags, z) of
        Inl Help \<Rightarrow> (Inl (Exit 0), [], w)
      | Inl _ \<Rightarrow> (Inl (Exit 2), [], w)
      | Inr (_, fl, _) \<Rightarrow> run_manager m fl w)"

section \<open>Lemmas on the command line\<close>

definition print_bool :: "bool \<Rightarrow> string" where
  "print_bool b = (if b then ''true'' else ''false'')"

text \<open>A command line that gives every flag.\<close>

definition print_flags :: "flags \<Rightarrow> string list" where
  "print_flags fl = map (\<lambda>(n, v). ''--'' @ n @ ''='' @ v)
    [(''telemetry-url'', telemetryURL fl), (''metrics-bind-address'', metricsAddr fl), (''health-probe-bind-address'', probeAddr fl),
     (''leader-elect'', print_bool (enableLeaderElection fl)), (''metrics-secure'', print_bool (secureMetrics fl)),
     (''webhook-cert-path'', webhookCertPath fl), (''webhook-cert-name'', webhookCertName fl), (''webhook-cert-key'', webhookCertKey fl),
     (''metrics-cert-path'', metricsCertPath fl), (''metrics-cert-name'', metricsCertName fl), (''metrics-cert-key'', metricsCertKey fl),
     (''enable-http2'', print_bool (enableHTTP2 fl))]"

definition plain_name :: "string \<Rightarrow> bool" where
  "plain_name n \<longleftrightarrow> n \<noteq> [] \<and> hd n \<noteq> CHR ''-'' \<and> CHR ''='' \<notin> set n"

lemma split_value_eq: "CHR ''='' \<notin> set n \<Longrightarrow> split_value (n @ CHR ''='' # v) = (n, Some v)"
  by (induction n) auto

lemma split_value_none: "CHR ''='' \<notin> set n \<Longrightarrow> split_value n = (n, None)"
  by (induction n) auto

lemma ParseBool_print [simp]: "ParseBool (print_bool b) = Some b"
  by (simp add: ParseBool_def print_bool_def)

lemma flag_names_plain: "map_of flag_vars n \<noteq> None \<Longrightarrow> plain_name n"
proof -
  assume "map_of flag_vars n \<noteq> None"
  then have "n \<in> fst ` set flag_vars" by (simp add: map_of_eq_None_iff)
  then show "plain_name n" by (auto simp: flag_vars_def plain_name_def)
qed

lemma parse_value:
  assumes "plain_name n" and "map_of flag_vars n = Some k"
  shows "parse lib ((''--'' @ n @ ''='' @ v) # args) (fl, z) =
    (case k of
       StringVar f \<Rightarrow> parse lib args (f v fl, z)
     | BoolVar f \<Rightarrow> (case ParseBool v of None \<Rightarrow> Inl (InvalidValue n v) | Some b \<Rightarrow> parse lib args (f b fl, z)))"
proof -
  have "flag_name (''--'' @ n @ ''='' @ v) = n @ ''='' @ v" by (simp add: flag_name_def)
  moreover have "n @ ''='' @ v \<noteq> []" "hd (n @ ''='' @ v) \<noteq> CHR ''-''" "hd (n @ ''='' @ v) \<noteq> CHR ''=''"
    using assms(1) by (simp_all add: plain_name_def hd_append) (metis hd_in_set)
  moreover have "split_value (n @ ''='' @ v) = (n, Some v)" using assms(1) split_value_eq by (simp add: plain_name_def)
  ultimately show ?thesis using assms(2)
    by (cases k) (simp_all add: is_bool_flag_def set_flag_def split: option.split)
qed

lemma parse_print_step:
  assumes "map_of flag_vars n = Some (StringVar f)"
  shows "parse lib ((''--'' @ n @ ''='' @ v) # args) (fl, z) = parse lib args (f v fl, z)"
  by (subst parse_value [OF flag_names_plain assms]) (simp_all add: assms)

lemma parse_print_bool:
  assumes "map_of flag_vars n = Some (BoolVar f)"
  shows "parse lib ((''--'' @ n @ ''='' @ print_bool b) # args) (fl, z) = parse lib args (f b fl, z)"
  by (subst parse_value [OF flag_names_plain assms]) (simp_all add: assms)

section \<open>Lemmas on the start\<close>

definition startup :: "'w manager_lib \<Rightarrow> flags \<Rightarrow> mgr_call list" where
  "startup m fl = [NewManager (manager_options m fl), IndexField ''Pod'' ''spec.nodeName'',
     Complete \<lparr>ForKind = gpuhealth_kind, GenerationChangedPredicate = True, Named = ''gpuhealth'', ReconcilerURL = telemetryURL fl\<rparr>,
     AddHealthzCheck ''healthz'', AddReadyzCheck ''readyz'', Start]"

fun do_calls :: "'w manager_lib \<Rightarrow> mgr_call list \<Rightarrow> 'w \<Rightarrow> 'w run" where
  "do_calls m [] w = (Inr (), [], w)"
| "do_calls m (c # cs) w = do_call m c (do_calls m cs) w"

fun all_succeed :: "'w manager_lib \<Rightarrow> mgr_call list \<Rightarrow> 'w \<Rightarrow> 'w option" where
  "all_succeed m [] w = Some w"
| "all_succeed m (c # cs) w = (case perform m c w of (None, w) \<Rightarrow> all_succeed m cs w | (Some _, _) \<Rightarrow> None)"

lemma run_manager_eq:
  "run_manager m fl w =
     (case GetConfig m w of (False, w) \<Rightarrow> (Inl (Exit 1), [], w) | (True, w) \<Rightarrow> do_calls m (startup m fl) w)"
proof -
  have f: "do_calls m [] = (\<lambda>w. (Inr (), [], w))" "do_calls m (c # cs) = do_call m c (do_calls m cs)" for c cs
    by (simp_all add: fun_eq_iff)
  then show ?thesis unfolding run_manager_def startup_def SetupWithManager_def by metis
qed

definition failed_at :: "'w manager_lib \<Rightarrow> mgr_call list \<Rightarrow> 'w \<Rightarrow> bool" where
  "failed_at m cs w \<longleftrightarrow> cs \<noteq> [] \<and> (\<exists>w1 err w2. all_succeed m (butlast cs) w = Some w1 \<and> perform m (last cs) w1 = (Some err, w2))"

lemma failed_at_Nil [simp]: "\<not> failed_at m [] w"
  by (simp add: failed_at_def)

lemma failed_at_Cons: "perform m c w = (None, w1) \<Longrightarrow> failed_at m cs w1 \<Longrightarrow> failed_at m (c # cs) w"
  by (auto simp: failed_at_def)

lemma do_calls_cases:
  "do_calls m cs w = (x, ds, w') \<Longrightarrow>
   x = Inr () \<and> ds = cs \<and> all_succeed m cs w = Some w' \<or>
   x = Inl (Exit 1) \<and> (\<exists>k. ds = take k cs) \<and> failed_at m ds w"
proof (induction cs arbitrary: w ds)
  case (Cons c cs)
  show ?case
  proof (cases "perform m c w")
    case (Pair e w1)
    show ?thesis
    proof (cases e)
      case None
      obtain ds1 where ds: "ds = c # ds1" and r: "do_calls m cs w1 = (x, ds1, w')"
        using Cons.prems None Pair by (auto simp: do_call_def split: prod.splits)
      from Cons.IH [OF r] show ?thesis
        using None Pair ds failed_at_Cons [of m c w w1 ds1] by (auto intro: exI [of _ "Suc _"])
    next
      case (Some err)
      then have "x = Inl (Exit 1)" "ds = take 1 (c # cs)" "failed_at m ds w"
        using Cons.prems Pair by (auto simp: do_call_def failed_at_def)
      then show ?thesis by blast
    qed
  qed
qed simp

lemma startup_distinct: "Start \<in> set (take k (startup m fl)) \<Longrightarrow> take k (startup m fl) = startup m fl"
  by (cases "k < 6") (auto simp: startup_def less_Suc_eq numeral_eq_Suc take_Cons')

text \<open>What the flags say of the servers.\<close>

definition protos :: "(tls_config \<Rightarrow> tls_config) list \<Rightarrow> tls_config \<Rightarrow> tls_config" where
  "protos opts c = fold (\<lambda>f. f) opts c"

definition served :: "flags \<Rightarrow> ManagerOptions \<Rightarrow> bool" where
  "served fl opt \<longleftrightarrow>
     (\<forall>c. protos (MetricsTLSOpts (Metrics opt)) c = (if enableHTTP2 fl then c else [''http/1.1''])) \<and>
     (\<forall>c. protos (WebhookTLSOpts (WebhookServer opt)) c = (if enableHTTP2 fl then c else [''http/1.1''])) \<and>
     SecureServing (Metrics opt) = secureMetrics fl \<and> WithAuthenticationAndAuthorization (Metrics opt) = secureMetrics fl \<and>
     BindAddress (Metrics opt) = metricsAddr fl \<and> CertDir (MetricsCert (Metrics opt)) = metricsCertPath fl \<and>
     CertDir (WebhookCert (WebhookServer opt)) = webhookCertPath fl \<and>
     LeaderElection opt = enableLeaderElection fl \<and> HealthProbeBindAddress opt = probeAddr fl \<and>
     {gpuhealth_kind, (fst SchemeGroupVersion, snd SchemeGroupVersion, ''GPUHealthList'')} \<subseteq> set (ManagerScheme opt)"

lemma manager_options_served: "served fl (manager_options m fl)"
  by (simp add: served_def manager_options_def metricsServerOptions_def webhookServerOptions_def tlsOpts_def protos_def
      disableHTTP2_def Let_def no_cert_def init_scheme_def AddToScheme_v1alpha1_def SchemeBuilder_def AddKnownTypes_def gpuhealth_kind_def)

text \<open>A list by the index returns the pods of that node, which is what draining a node relies on.\<close>

lemma index_lookup: "filter (\<lambda>p. n \<in> set (index_node_name p)) ps = filter (\<lambda>p. snd p = n) ps"
  by (auto simp: index_node_name_def intro: filter_cong)

section \<open>Properties\<close>

text \<open>
  C40. The command line that spells out every flag of the program parses, with nothing left over, to exactly the values it
  was printed from, whatever characters they have and whatever flags the libraries add; the defaults are overwritten.
\<close>

theorem flags_roundtrip: "parse lib (print_flags fl) (fl0, z) = Inr ([], fl, z)"
  unfolding print_flags_def list.map prod.case
  by (subst parse_print_step parse_print_bool, simp add: flag_vars_def)+ simp

text \<open>
  C18. The operator process starts its manager only when everything is in place. A command line that does not parse ends it with
  code 2, a request for help with 0, before anything is done. Otherwise it makes a prefix of the calls of the start-up sequence, in order, and stops
  with code 1 at the first that fails; it starts the manager only after the field index, the controller and both probes were
  registered without an error, and ends normally only when the manager does. The servers are configured as the flags say, with
  HTTP/2 off unless it is asked for.
\<close>

theorem operator_start:
  assumes "operator_main lib z m args w = (x, cs, w')"
  shows "case parse lib args (default_flags, z) of
      Inl e \<Rightarrow> x = Inl (Exit (if e = Help then 0 else 2)) \<and> cs = [] \<and> w' = w
    | Inr (rest, fl, z') \<Rightarrow>
        (\<exists>k. cs = take k (startup m fl)) \<and> (Start \<in> set cs \<longrightarrow> cs = startup m fl) \<and>
        (\<forall>opt. NewManager opt \<in> set cs \<longrightarrow> served fl opt) \<and>
        (x = Inr () \<and> cs = startup m fl \<and> all_succeed m cs (snd (GetConfig m w)) = Some w' \<or>
         x = Inl (Exit 1) \<and> (if cs = [] then \<not> fst (GetConfig m w) else failed_at m cs (snd (GetConfig m w))))"
proof (cases "parse lib args (default_flags, z)")
  case (Inl e)
  then show ?thesis using assms by (cases e) (auto simp: operator_main_def)
next
  case (Inr a)
  obtain rest fl z' where a: "a = (rest, fl, z')" by (cases a) auto
  have r: "run_manager m fl w = (x, cs, w')" using assms Inr a by (simp add: operator_main_def)
  have opts: "NewManager opt \<in> set (take k (startup m fl)) \<Longrightarrow> served fl opt" for opt k
    using manager_options_served [of fl m] by (auto simp: startup_def dest: in_set_takeD)
  show ?thesis
  proof (cases "GetConfig m w")
    case (Pair ok w1)
    show ?thesis
    proof (cases ok)
      case False
      then have "x = Inl (Exit 1)" "cs = []" using r Pair by (simp_all add: run_manager_eq)
      then show ?thesis using Inr a Pair False by (auto intro: exI [of _ 0])
    next
      case True
      then have "do_calls m (startup m fl) w1 = (x, cs, w')" using r Pair by (simp add: run_manager_eq)
      from do_calls_cases [OF this] obtain k where k: "cs = take k (startup m fl)" and
          o1: "x = Inr () \<and> cs = startup m fl \<and> all_succeed m cs w1 = Some w' \<or> x = Inl (Exit 1) \<and> failed_at m cs w1"
        by (metis take_all_iff order_refl)
      have "Start \<in> set cs \<longrightarrow> cs = startup m fl" "\<forall>opt. NewManager opt \<in> set cs \<longrightarrow> served fl opt"
        using k startup_distinct opts by blast+
      moreover have "x = Inr () \<and> cs = startup m fl \<and> all_succeed m cs w1 = Some w' \<or>
          x = Inl (Exit 1) \<and> (if cs = [] then \<not> fst (GetConfig m w) else failed_at m cs w1)"
        using o1 by (cases "cs = []") auto
      moreover have "\<exists>k. cs = take k (startup m fl)" using k by blast
      ultimately show ?thesis unfolding Inr a sum.case prod.case Pair snd_conv fst_conv by blast
    qed
  qed
qed

definition demo_manager :: "mgr_call list \<Rightarrow> unit manager_lib" where
  "demo_manager bad = \<lparr>lib_kinds = (\<lambda>s. s), meta_kinds = [], GetConfig = (\<lambda>w. (True, w)),
     perform = (\<lambda>c w. (if \<exists>b \<in> set bad. b = c then Some ''error'' else None, w))\<rparr>"

theorem operator_start_witness:
  "\<exists>k fl. fst (snd (operator_main (\<lambda>_. None) () (demo_manager [AddReadyzCheck ''readyz'']) [''-leader-elect'', ''--metrics-secure=false''] ())) =
      take k (startup (demo_manager [AddReadyzCheck ''readyz'']) fl) \<and> enableLeaderElection fl \<and> \<not> secureMetrics fl"
proof -
  let ?args = "[''-leader-elect'', ''--metrics-secure=false'']"
  let ?fl = "default_flags\<lparr>enableLeaderElection := True, secureMetrics := False\<rparr>"
  obtain x cs w' where r: "operator_main (\<lambda>_. None) () (demo_manager [AddReadyzCheck ''readyz'']) ?args () = (x, cs, w')"
    by (metis prod_cases3)
  have p: "parse (\<lambda>_. None) ?args (default_flags, ()) = Inr ([], ?fl, ())" by (simp add: flag_name_def is_bool_flag_def set_flag_def flag_vars_def ParseBool_def)
  from operator_start [OF r] have "\<exists>k. cs = take k (startup (demo_manager [AddReadyzCheck ''readyz'']) ?fl)" unfolding p by simp
  then show ?thesis using r by (auto intro!: exI [of _ ?fl])
qed

end
