(* ===== verification/Closed_Loop.thy ===== *)
theory Closed_Loop
  imports Services Cluster
begin

text \<open>
  Operator and simulator together: the cluster of theory \<open>Cluster\<close> with the modelled telemetry service as
  its HTTP endpoint. The routes are those \<^verbatim>\<open>cmd/telemetry/main.go\<close> registers with its router.
\<close>

section \<open>The telemetry service as an endpoint\<close>

definition strip_prefix :: "string \<Rightarrow> string \<Rightarrow> string option" where
  "strip_prefix p s = (if take (length p) s = p then Some (drop (length p) s) else None)"

definition strip_suffix :: "string \<Rightarrow> string \<Rightarrow> string option" where
  "strip_suffix p s = map_option rev (strip_prefix (rev p) (rev s))"

definition reply_of :: "GPUHealth response \<Rightarrow> http_reply" where
  "reply_of resp = \<lparr>StatusCode = code resp, Body = (case resp of Json _ h \<Rightarrow> Some h | _ \<Rightarrow> None)\<rparr>"

definition telemetry_route :: "time \<Rightarrow> http_method \<Rightarrow> string \<Rightarrow> gpu_pkg \<Rightarrow> GPUHealth response \<times> gpu_pkg" where
  "telemetry_route t m path g =
     (case m of
        MethodGet \<Rightarrow> (case strip_prefix ''/v1/gpus/'' path of Some i \<Rightarrow> getGpuHandler t i g | None \<Rightarrow> (NotFound404, g))
      | MethodPut \<Rightarrow>
          (case strip_prefix ''/v1/simulation/gpus/'' path of
             None \<Rightarrow> (NotFound404, g)
           | Some rest \<Rightarrow>
               (case strip_suffix ''/recover'' rest of
                  Some i \<Rightarrow> recoverGPUHandler i g
                | None \<Rightarrow> (case strip_suffix ''/replace'' rest of Some i \<Rightarrow> replaceGPUHandler i g | None \<Rightarrow> (NotFound404, g)))))"

definition telemetry_http ::
  "string \<Rightarrow> time \<Rightarrow> http_method \<Rightarrow> string \<Rightarrow> gpu_pkg \<Rightarrow> (string, http_reply) result \<times> gpu_pkg" where
  "telemetry_http base t m url g =
     (case strip_prefix base url of
        None \<Rightarrow> (Inl ''no such host'', g)
      | Some path \<Rightarrow> (case telemetry_route t m path g of (resp, g') \<Rightarrow> (Inr (reply_of resp), g')))"

definition loop_operator :: "string \<Rightarrow> time \<Rightarrow> gpu_pkg cluster GPUHealthReconciler" where
  "loop_operator base t = cluster_operator (telemetry_http base t) base"

lemma strip_prefix_append [simp]: "strip_prefix p (p @ s) = Some s"
  by (simp add: strip_prefix_def)

lemma strip_suffix_append [simp]: "strip_suffix p (s @ p) = Some s"
  by (simp add: strip_suffix_def)

lemma strip_suffix_other: "strip_suffix ''/recover'' (i @ ''/replace'') = None"
  by (simp add: strip_suffix_def strip_prefix_def)

lemma telemetry_get:
  "telemetry_http base t MethodGet (base @ ''/v1/gpus/'' @ i) g =
     (case getGpuHandler t i g of (resp, g') \<Rightarrow> (Inr (reply_of resp), g'))"
  by (simp add: telemetry_http_def telemetry_route_def del: append.simps)

lemma telemetry_recover:
  "telemetry_http base t MethodPut (base @ ''/v1/simulation/gpus/'' @ i @ ''/recover'') g =
     (case recoverGPUHandler i g of (resp, g') \<Rightarrow> (Inr (reply_of resp), g'))"
  by (simp add: telemetry_http_def telemetry_route_def del: append.simps)

lemma telemetry_replace:
  "telemetry_http base t MethodPut (base @ ''/v1/simulation/gpus/'' @ i @ ''/replace'') g =
     (case replaceGPUHandler i g of (resp, g') \<Rightarrow> (Inr (reply_of resp), g'))"
  by (simp add: telemetry_http_def telemetry_route_def strip_suffix_other del: append.simps)

section \<open>What the operator learns and does\<close>

abbreviation the_gpu :: "'t cluster \<Rightarrow> string" where
  "the_gpu w \<equiv> SpecGPUID (Spec (cresource w))"

abbreviation gpu_state :: "gpu_pkg cluster \<Rightarrow> gpuState option" where
  "gpu_state w \<equiv> gstate (ctel w) (the_gpu w)"

lemmas cluster_exec = cluster_operator_def cluster_kube_def bindE_def tried_def wrap_def ret_def fail_def emit_def
  getCR_def getNode_def listPods_def putStatus_def putNode_def httpDo_def timeNow_def SetStatusCondition_def

lemma recoverGPU_loop:
  "recoverGPU (loop_operator base t) cr w =
     (let (resp, g) = recoverGPUHandler (SpecGPUID (Spec cr)) (ctel w)
      in (if code resp = 409 then Inl (GPUUnrecoverable (SpecGPUID (Spec cr)))
          else if code resp \<noteq> 204 then Inl (UnexpectedCode (SpecGPUID (Spec cr)) (code resp)) else Inr (),
          [Http MethodPut (recover_url (loop_operator base t) cr) (Inr (reply_of resp))], w\<lparr>ctel := g\<rparr>))"
  by (simp add: recoverGPU_def loop_operator_def cluster_exec recover_url_def telemetry_recover reply_of_def Let_def
      del: append.simps split: prod.split)

lemma replaceGPU_loop:
  "replaceGPU (loop_operator base t) cr w =
     (let (resp, g) = replaceGPUHandler (SpecGPUID (Spec cr)) (ctel w)
      in (if code resp \<noteq> 204 then Inl (UnexpectedCode (SpecGPUID (Spec cr)) (code resp)) else Inr (),
          [Http MethodPut (replace_url (loop_operator base t) cr) (Inr (reply_of resp))], w\<lparr>ctel := g\<rparr>))"
  by (simp add: replaceGPU_def loop_operator_def cluster_exec replace_url_def telemetry_replace reply_of_def Let_def
      del: append.simps split: prod.split)

lemma fetchTelemetry_loop:
  assumes "GetHealth t (SpecGPUID (Spec cr)) (ctel w) = (Inr h, g)"
  shows "fetchTelemetry (loop_operator base t) cr w =
     (Inr h, [Http MethodGet (telemetry_url (loop_operator base t) cr) (Inr (reply_of (Json 200 h)))], w\<lparr>ctel := g\<rparr>)"
  using assms
  by (simp add: fetchTelemetry_def loop_operator_def cluster_exec telemetry_url_def telemetry_get reply_of_def
      getGpuHandler_def Let_def del: append.simps)

definition in_place :: "'t cluster \<Rightarrow> bool" where
  "in_place w \<longleftrightarrow> NodeNm (cnode w) = NodeName (Spec (cresource w))"

definition settled :: "GPUHealthCR \<Rightarrow> 't cluster \<Rightarrow> 't cluster \<Rightarrow> bool" where
  "settled cr w w' \<longleftrightarrow> Name (cresource w') = Name (cresource w) \<and> Spec (cresource w') = Spec (cresource w) \<and>
     phase (cresource w') = phase cr \<and> attempts_of (cresource w') = attempts_of cr \<and>
     ReplacementStartedAt (Status (cresource w')) = ReplacementStartedAt (Status cr) \<and>
     cnode w' = cnode w \<and> ctel w' = ctel w \<and> cpods w' = cpods w"

lemma cordon_loop:
  assumes "in_place w" and "Spec cr = Spec (cresource w)"
  shows "\<exists>cs. cordonNode (cluster_operator tel base) cr w = (Inr (), cs, w\<lparr>cnode := (cnode w)\<lparr>Unschedulable := True\<rparr>\<rparr>)"
  using assms by (cases "Unschedulable (cnode w)") (auto simp: cordonNode_def set_unschedulable_def cluster_exec in_place_def)

lemma uncordon_loop:
  assumes "in_place w" and "Spec cr = Spec (cresource w)"
  shows "\<exists>cs. uncordonNode (cluster_operator tel base) cr w = (Inr (), cs, w\<lparr>cnode := (cnode w)\<lparr>Unschedulable := False\<rparr>\<rparr>)"
  using assms by (cases "Unschedulable (cnode w)") (auto simp: uncordonNode_def set_unschedulable_def cluster_exec in_place_def)

lemma sync_loop:
  assumes "Name cr = Name (cresource w)" and "Spec cr = Spec (cresource w)"
  shows "\<exists>c cs w'. syncStatus (cluster_operator tel base) cr w = (Inr c, cs, w') \<and> settled cr w w'"
proof -
  have "settled cr w w" if "Status (cresource w) = Status (set_observed (Generation cr) cr)"
    using that by (simp add: settled_def set_observed_def)
  then show ?thesis using assms by (auto simp: syncStatus_def cluster_exec Let_def settled_def)
qed

lemma sync_wrapped_loop:
  assumes "Name cr = Name (cresource w)" and "Spec cr = Spec (cresource w)"
  shows "\<exists>c cs w'. sync_wrapped (cluster_operator tel base) cr w = (Inr c, cs, w') \<and> settled cr w w'"
  using sync_loop [OF assms, of tel base] by (fastforce simp: sync_wrapped_def wrap_def)

lemma drain_loop:
  assumes "in_place w" and "Spec cr = Spec (cresource w)" and "\<forall>p \<in> set (cpods w). left_alone p"
  shows "\<exists>cs. drainNode (cluster_operator tel base) cr w = (Inr False, cs, w\<lparr>cnode := (cnode w)\<lparr>Unschedulable := True\<rparr>\<rparr>)"
proof -
  obtain cs where c: "cordonNode (cluster_operator tel base) cr w = (Inr (), cs, w\<lparr>cnode := (cnode w)\<lparr>Unschedulable := True\<rparr>\<rparr>)"
    using cordon_loop [OF assms(1,2)] by blast
  have "filter (\<lambda>p. \<not> left_alone p) (cpods w) = []" using assms(3) by (simp add: filter_empty_conv)
  then show ?thesis using c by (simp add: drainNode_def bindE_def cluster_operator_def cluster_kube_def listPods_def ret_def)
qed

text \<open>Running the rest of a handler after a step whose outcome is known.\<close>

lemma bindE_step: "m w = (Inr a, cs, w1) \<Longrightarrow> f a w1 = (x, cs', w') \<Longrightarrow> bindE m f w = (x, cs @ cs', w')"
  by (simp add: bindE_def)

lemma set_condition_loop:
  "\<exists>cs. SetStatusCondition (Client (cluster_operator tel base)) c cr w = (Inr (set_conditions cs cr), [], w)"
  by (auto simp: SetStatusCondition_def cluster_operator_def cluster_kube_def)

lemma conditions_simps [simp]:
  "Name (set_conditions cs c) = Name c" "Spec (set_conditions cs c) = Spec c" "phase (set_conditions cs c) = phase c"
  "attempts_of (set_conditions cs c) = attempts_of c"
  "ReplacementStartedAt (Status (set_conditions cs c)) = ReplacementStartedAt (Status c)"
  by (simp_all add: set_conditions_def)

lemma leave_loop:
  assumes "Name cr = Name (cresource w)" and "Spec cr = Spec (cresource w)"
  shows "\<exists>cs w'. bindE (SetStatusCondition (Client (cluster_operator tel base)) c cr) (\<lambda>cr.
      bindE (sync_wrapped (cluster_operator tel base) cr) (\<lambda>_. ret (requeue 30))) w = (Inr (requeue 30), cs, w') \<and> settled cr w w'"
    and "\<exists>cs w'. bindE (SetStatusCondition (Client (cluster_operator tel base)) c cr) (\<lambda>cr.
      bindE (syncStatus (cluster_operator tel base) cr) (\<lambda>_. ret (requeue 30))) w = (Inr (requeue 30), cs, w') \<and> settled cr w w'"
proof -
  obtain cs where s: "SetStatusCondition (Client (cluster_operator tel base)) c cr w = (Inr (set_conditions cs cr), [], w)"
    using set_condition_loop by blast
  have st: "settled (set_conditions cs cr) w w' = settled cr w w'" for w' by (simp add: settled_def)
  obtain d1 cs1 w1 where "sync_wrapped (cluster_operator tel base) (set_conditions cs cr) w = (Inr d1, cs1, w1)" "settled cr w w1"
    using sync_wrapped_loop [of "set_conditions cs cr" w tel base] assms by (auto simp: st)
  then show "\<exists>cs w'. bindE (SetStatusCondition (Client (cluster_operator tel base)) c cr) (\<lambda>cr.
      bindE (sync_wrapped (cluster_operator tel base) cr) (\<lambda>_. ret (requeue 30))) w = (Inr (requeue 30), cs, w') \<and> settled cr w w'"
    by (auto simp: bindE_def s ret_def)
  obtain d2 cs2 w2 where "syncStatus (cluster_operator tel base) (set_conditions cs cr) w = (Inr d2, cs2, w2)" "settled cr w w2"
    using sync_loop [of "set_conditions cs cr" w tel base] assms by (auto simp: st)
  then show "\<exists>cs w'. bindE (SetStatusCondition (Client (cluster_operator tel base)) c cr) (\<lambda>cr.
      bindE (syncStatus (cluster_operator tel base) cr) (\<lambda>_. ret (requeue 30))) w = (Inr (requeue 30), cs, w') \<and> settled cr w w'"
    by (auto simp: bindE_def s ret_def)
qed

section \<open>The runs that bring back a critical GPU\<close>

lemma reconcile_loop:
  "reconcile_phase (cluster_operator tel base) (cresource w) w = (x, cs, w') \<Longrightarrow>
    \<exists>cs. Reconcile (cluster_operator tel base) (Name (cresource w)) w = (x, cs, w')"
  by (simp add: Reconcile_eq cluster_operator_def cluster_kube_def)

lemma count_attempt_object [simp]:
  "Name (count_attempt cr) = Name cr" "Spec (count_attempt cr) = Spec cr"
  by (simp_all add: count_attempt_def Let_def set_attempts_def)

lemma findings_simps [simp]:
  "Name (set_findings fs cr) = Name cr" "Spec (set_findings fs cr) = Spec cr" "Generation (set_findings fs cr) = Generation cr"
  "attempts_of (set_findings fs cr) = attempts_of cr" "ObservedGeneration (Status (set_findings fs cr)) = ObservedGeneration (Status cr)"
  "ReplacementStartedAt (Status (set_findings fs cr)) = ReplacementStartedAt (Status cr)"
  by (simp_all add: set_findings_def)

lemma spec_changed_findings [simp]: "spec_changed (set_findings fs cr) = spec_changed cr"
  by (simp add: spec_changed_def)

lemma count_attempt_started [simp]: "ReplacementStartedAt (Status (count_attempt cr)) = ReplacementStartedAt (Status cr)"
  by (simp add: count_attempt_def Let_def set_attempts_def)

lemma observing_critical:
  assumes "in_place w" and "phase (cresource w) \<in> set observingPhases" and "policy (cresource w) = RemediationPolicyDrain"
    and "\<forall>p \<in> set (cpods w). left_alone p" and "attempts_of (count_attempt (cresource w)) <s MaxRemediationAttempts (Spec (cresource w))"
    and "1 \<le> n" "n \<le> 10000" "the_gpu w = gpu_id n" and "gpu_state w = Some st" "state_ok st" "status st = StatusCritical"
  shows "\<exists>cs w' fs g. Reconcile (loop_operator base t) (Name (cresource w)) w = (Inr (requeue 30), cs, w') \<and>
    settled (set_phase PhaseDraining (count_attempt (set_findings fs (cresource w))))
      (w\<lparr>cnode := (cnode w)\<lparr>Unschedulable := True\<rparr>, ctel := g\<rparr>) w' \<and> gstate g = gstate (ctel w)"
proof -
  let ?r = "loop_operator base t" and ?cr = "cresource w"
  obtain h g where g: "GetHealth t (the_gpu w) (ctel w) = (Inr h, g)" "snapshot_ok n st h" "DefaultStore g = DefaultStore (ctel w)"
    using GetHealth_snapshot [OF assms(6,7), of "ctel w" st t] assms(8-10) by auto
  then have hh: "Health h = StatusCritical" using assms(11) by (simp add: snapshot_ok_def)
  obtain cs1 where f: "fetchTelemetry ?r ?cr w = (Inr h, cs1, w\<lparr>ctel := g\<rparr>)" using fetchTelemetry_loop [OF g(1)] by blast
  let ?w1 = "w\<lparr>ctel := g, cclock := cclock w + second\<rparr>"
  have t: "timeNow (Client ?r) (w\<lparr>ctel := g\<rparr>) = (Inr (cclock w), [ReadClock (cclock w)], ?w1)"
    by (simp add: loop_operator_def cluster_exec)
  let ?fs = "mergeFindings (cclock w) (StatusFindings (Status ?cr)) h 100"
  let ?c = "set_findings ?fs ?cr"
  have "in_place ?w1" "Spec ?c = Spec (cresource ?w1)" "\<forall>p \<in> set (cpods ?w1). left_alone p" using assms(1,4) by (simp_all add: in_place_def)
  from drain_loop [OF this, of "telemetry_http base t" base]
  obtain cs2 where d: "drainNode ?r ?c ?w1 = (Inr False, cs2, ?w1\<lparr>cnode := (cnode w)\<lparr>Unschedulable := True\<rparr>\<rparr>)"
    unfolding loop_operator_def by (elim exE) simp
  let ?w2 = "?w1\<lparr>cnode := (cnode w)\<lparr>Unschedulable := True\<rparr>\<rparr>"
  obtain cs3 w' where l: "bindE (SetStatusCondition (Client ?r)
       (condition ConditionRemediationInProgress True reasonGPUCritical ''GPU is experiencing critical errors and requires draining'' (count_attempt ?c))
       (set_phase PhaseDraining (count_attempt ?c))) (\<lambda>cr. bindE (sync_wrapped ?r cr) (\<lambda>_. ret (requeue 30))) ?w2 = (Inr (requeue 30), cs3, w')"
    "settled (set_phase PhaseDraining (count_attempt ?c)) ?w2 w'"
    using leave_loop(1) [of "set_phase PhaseDraining (count_attempt ?c)" ?w2] unfolding loop_operator_def by (simp, blast)
  have left: "\<not> MaxRemediationAttempts (Spec ?cr) \<le>s attempts_of (count_attempt ?cr)" using assms(5) by (simp add: word_sle_eq word_sless_alt)
  have a: "after_attempt ?r PhaseDraining ''GPU is experiencing critical errors and requires draining'' ?c ?w2 = (Inr (requeue 30), cs3, w')"
    using l(1) left by (cases "spec_changed ?cr") (simp_all add: after_attempt_def Let_def del: append.simps)
  have "handleRemediation ?r ?c ?w1 = (Inr (requeue 30), cs2 @ cs3, w')"
    using assms(3) d a by (simp add: handleRemediation_def handleRemediationPolicyDrain_def bindE_def)
  then have "reconcile_phase ?r ?cr w = (Inr (requeue 30), cs1 @ [ReadClock (cclock w)] @ cs2 @ cs3, w')"
    using assms(2) hh f t by (simp add: reconcile_phase_def handleObserving_def bindE_def)
  then obtain cs where "Reconcile ?r (Name ?cr) w = (Inr (requeue 30), cs, w')" using reconcile_loop unfolding loop_operator_def by blast
  moreover have "settled (set_phase PhaseDraining (count_attempt ?c)) (w\<lparr>cnode := (cnode w)\<lparr>Unschedulable := True\<rparr>, ctel := g\<rparr>) w'"
    using l(2) by (simp add: settled_def)
  moreover have "gstate g = gstate (ctel w)" using g(3) by simp
  ultimately show ?thesis by blast
qed

lemma Recover_double:
  "gstate g i = Some st \<Longrightarrow> failureType st = FailureTypeECCDouble \<Longrightarrow> recoverGPUHandler i g = (resp, g') \<Longrightarrow> code resp = 409 \<and> g' = g"
  by (auto simp: recoverGPUHandler_def Recover_def GetState_Some split: prod.splits)

lemma draining_double:
  assumes "in_place w" and "phase (cresource w) = PhaseDraining" and "\<forall>p \<in> set (cpods w). left_alone p"
    and "gpu_state w = Some st" and "failureType st = FailureTypeECCDouble"
  shows "\<exists>cs w'. Reconcile (loop_operator base t) (Name (cresource w)) w = (Inr (requeue 30), cs, w') \<and>
    settled (set_phase PhaseReplacing (cresource w)) (w\<lparr>cnode := (cnode w)\<lparr>Unschedulable := True\<rparr>\<rparr>) w'"
proof -
  let ?r = "loop_operator base t" and ?cr = "cresource w" and ?w1 = "w\<lparr>cnode := (cnode w)\<lparr>Unschedulable := True\<rparr>\<rparr>"
  obtain cs1 where d: "drainNode ?r ?cr w = (Inr False, cs1, ?w1)"
    using drain_loop [OF assms(1) refl assms(3)] unfolding loop_operator_def by blast
  obtain resp g where h: "recoverGPUHandler (the_gpu w) (ctel w) = (resp, g)" by fastforce
  have resp: "code resp = 409" "g = ctel w" using Recover_double [OF assms(4,5) h] by auto
  obtain cs2 where r: "tried (recoverGPU ?r ?cr) ?w1 = (Inr (Inl (GPUUnrecoverable (the_gpu w))), cs2, ?w1)"
    using h resp by (simp add: tried_def recoverGPU_loop)
  obtain cs3 w' where l: "bindE (SetStatusCondition (Client ?r)
       (condition ConditionRemediationInProgress True reasonGPUCritical
          ''GPU drain revealed unrecoverable hardware failure, escalating to replacement'' ?cr) (set_phase PhaseReplacing ?cr)) (\<lambda>cr.
      bindE (sync_wrapped ?r cr) (\<lambda>_. ret (requeue 30))) ?w1 = (Inr (requeue 30), cs3, w')"
    "settled (set_phase PhaseReplacing ?cr) ?w1 w'"
    using leave_loop(1) [of "set_phase PhaseReplacing ?cr" ?w1] unfolding loop_operator_def by (simp, blast)
  have "reconcile_phase ?r ?cr w = (Inr (requeue 30), cs1 @ cs2 @ cs3, w')"
    using assms(2) l(1) by (simp add: reconcile_phase_def observingPhases_def handleDraining_def bindE_def d r del: append.simps)
  then show ?thesis using l(2) reconcile_loop unfolding loop_operator_def by blast
qed

lemma Recover_thermal:
  assumes "gstate g i = Some st" and "state_ok st" and "failureType st \<in> {FailureTypeThermal, FailureTypePower}" and "recoverGPUHandler i g = (resp, g')"
  shows "code resp = 204" and "\<exists>st'. gstate g' i = Some st' \<and> state_ok st' \<and> status st' \<noteq> StatusCritical"
proof -
  show "code resp = 204" using recover_handler_code [of i g] assms(1,3,4) by auto
  have "g' = snd (Recover i g)" using recover_handler_state [of i g] assms(4) by simp
  then show "\<exists>st'. gstate g' i = Some st' \<and> state_ok st' \<and> status st' \<noteq> StatusCritical"
    using assms(1-3) by (auto simp: Recover_def GetState_Some state_ok_def split: prod.splits)
qed

lemma draining_recovers:
  assumes "in_place w" and "phase (cresource w) = PhaseDraining" and "\<forall>p \<in> set (cpods w). left_alone p"
    and "gpu_state w = Some st" and "state_ok st" and "failureType st \<in> {FailureTypeThermal, FailureTypePower}"
  shows "\<exists>cs w' g. Reconcile (loop_operator base t) (Name (cresource w)) w = (Inr (requeue 30), cs, w') \<and>
    settled (set_phase PhaseRecovering (cresource w)) (w\<lparr>cnode := (cnode w)\<lparr>Unschedulable := True\<rparr>, ctel := g\<rparr>) w' \<and>
    (\<exists>st'. gstate g (the_gpu w) = Some st' \<and> state_ok st' \<and> status st' \<noteq> StatusCritical)"
proof -
  let ?r = "loop_operator base t" and ?cr = "cresource w" and ?w1 = "w\<lparr>cnode := (cnode w)\<lparr>Unschedulable := True\<rparr>\<rparr>"
  obtain cs1 where d: "drainNode ?r ?cr w = (Inr False, cs1, ?w1)"
    using drain_loop [OF assms(1) refl assms(3)] unfolding loop_operator_def by blast
  obtain resp g where h: "recoverGPUHandler (the_gpu w) (ctel w) = (resp, g)" by fastforce
  note rec = Recover_thermal [OF assms(4-6) h]
  let ?w2 = "w\<lparr>cnode := (cnode w)\<lparr>Unschedulable := True\<rparr>, ctel := g\<rparr>"
  obtain cs2 where r: "tried (recoverGPU ?r ?cr) ?w1 = (Inr (Inr ()), cs2, ?w2)"
    using h rec(1) by (simp add: tried_def recoverGPU_loop)
  obtain cs3 w' where l: "bindE (SetStatusCondition (Client ?r)
       (condition ConditionRemediationInProgress True reasonGPURecovering ''GPU node drain complete, entering recovery'' ?cr)
       (set_phase PhaseRecovering ?cr)) (\<lambda>cr. bindE (sync_wrapped ?r cr) (\<lambda>_. ret (requeue 30))) ?w2 = (Inr (requeue 30), cs3, w')"
    "settled (set_phase PhaseRecovering ?cr) ?w2 w'"
    using leave_loop(1) [of "set_phase PhaseRecovering ?cr" ?w2] unfolding loop_operator_def by (simp, blast)
  have "reconcile_phase ?r ?cr w = (Inr (requeue 30), cs1 @ cs2 @ cs3, w')"
    using assms(2) l(1) by (simp add: reconcile_phase_def observingPhases_def handleDraining_def bindE_def d r del: append.simps)
  then show ?thesis using l(2) reconcile_loop rec(2) unfolding loop_operator_def by blast
qed

lemma Replace_result:
  assumes "gstate g i = Some st" and "replaceGPUHandler i g = (resp, g')"
  shows "code resp = 204" and "\<exists>st'. gstate g' i = Some st' \<and> state_ok st' \<and> failureType st' \<noteq> FailureTypeECCDouble"
proof -
  obtain r g1 f g2 where d: "Float64 g = (r, g1)" and w: "randomWarningFailure g1 = (f, g2)" by fastforce
  show "code resp = 204" using replace_handler_code [of i g] assms by simp
  show "\<exists>st'. gstate g' i = Some st' \<and> state_ok st' \<and> failureType st' \<noteq> FailureTypeECCDouble"
    using assms d w randomWarningFailure_range [OF w]
    by (auto simp: replaceGPUHandler_def Replace_def GetState_Some state_ok_def split: prod.splits if_splits)
qed

lemma replacing_ready:
  assumes "in_place w" and "phase (cresource w) = PhaseReplacing" and "ReplacementStartedAt (Status (cresource w)) = None"
    and "node_ready (cnode w)" and "gpu_state w = Some st"
  shows "\<exists>cs w' g. Reconcile (loop_operator base t) (Name (cresource w)) w = (Inr (requeue 30), cs, w') \<and>
    settled (set_phase PhaseRejoining (cresource w)) (w\<lparr>cnode := (cnode w)\<lparr>Unschedulable := True\<rparr>, ctel := g\<rparr>) w' \<and>
    (\<exists>st'. gstate g (the_gpu w) = Some st' \<and> state_ok st' \<and> failureType st' \<noteq> FailureTypeECCDouble)"
proof -
  let ?r = "loop_operator base t" and ?cr = "cresource w" and ?w1 = "w\<lparr>cnode := (cnode w)\<lparr>Unschedulable := True\<rparr>\<rparr>"
  obtain cs1 where c: "cordonNode ?r ?cr w = (Inr (), cs1, ?w1)"
    using cordon_loop [OF assms(1) refl] unfolding loop_operator_def by blast
  obtain cs2 where n: "isNodeReady ?r ?cr ?w1 = (Inr True, cs2, ?w1)"
    using assms(1,4) by (auto simp: isNodeReady_def loop_operator_def cluster_exec in_place_def node_ready_def list_ex_iff)
  obtain resp g where h: "replaceGPUHandler (the_gpu w) (ctel w) = (resp, g)" by fastforce
  let ?w2 = "w\<lparr>cnode := (cnode w)\<lparr>Unschedulable := True\<rparr>, ctel := g\<rparr>"
  obtain y cs3 where r: "tried (replaceGPU ?r ?cr) ?w1 = (Inr y, cs3, ?w2)"
    using h by (simp add: tried_def replaceGPU_loop)
  obtain cs4 w' where l: "bindE (SetStatusCondition (Client ?r)
       (condition ConditionRemediationInProgress True reasonGPURejoining ''GPU hardware replaced, rejoining fleet'' ?cr)
       (set_phase PhaseRejoining ?cr)) (\<lambda>cr. bindE (syncStatus ?r cr) (\<lambda>_. ret (requeue 30))) ?w2 = (Inr (requeue 30), cs4, w')"
    "settled (set_phase PhaseRejoining ?cr) ?w2 w'"
    using leave_loop(2) [of "set_phase PhaseRejoining ?cr" ?w2] unfolding loop_operator_def by (simp, blast)
  have "reconcile_phase ?r ?cr w = (Inr (requeue 30), cs1 @ cs2 @ cs3 @ cs4, w')"
    using assms(2,3) l(1)
    by (simp add: reconcile_phase_def observingPhases_def handleReplacing_def bindE_def c n r del: append.simps)
  then show ?thesis using l(2) reconcile_loop Replace_result [OF assms(5) h] unfolding loop_operator_def by blast
qed

text \<open>The two phases that wait for a healthy reading end in the same way.\<close>

lemma waiting_healthy:
  assumes "in_place w" and "phase (cresource w) \<in> {PhaseRecovering, PhaseRejoining}" and "1 \<le> n" "n \<le> 10000" "the_gpu w = gpu_id n"
    and "gpu_state w = Some st" and "state_ok st" and "status st = StatusHealthy"
  shows "\<exists>cs w' g. Reconcile (loop_operator base t) (Name (cresource w)) w = (Inr (requeue 30), cs, w') \<and>
    settled (set_attempts 0 (set_phase PhaseHealthy (cresource w)))
      (w\<lparr>cnode := (cnode w)\<lparr>Unschedulable := False\<rparr>, ctel := g\<rparr>) w' \<and> gstate g = gstate (ctel w)"
proof -
  let ?r = "loop_operator base t" and ?cr = "cresource w"
  obtain h g where g: "GetHealth t (the_gpu w) (ctel w) = (Inr h, g)" "snapshot_ok n st h" "DefaultStore g = DefaultStore (ctel w)"
    using GetHealth_snapshot [OF assms(3,4), of "ctel w" st t] assms(5-7) by auto
  then have hh: "Health h = StatusHealthy" using assms(8) by (simp add: snapshot_ok_def)
  let ?w1 = "w\<lparr>ctel := g\<rparr>"
  let ?w2 = "w\<lparr>cnode := (cnode w)\<lparr>Unschedulable := False\<rparr>, ctel := g\<rparr>"
  obtain cs1 where f: "fetchTelemetry ?r ?cr w = (Inr h, cs1, ?w1)" using fetchTelemetry_loop [OF g(1)] by blast
  have "in_place ?w1" "Spec ?cr = Spec (cresource ?w1)" using assms(1) by (simp_all add: in_place_def)
  from uncordon_loop [OF this, of "telemetry_http base t" base]
  obtain cs2 where u: "uncordonNode ?r ?cr ?w1 = (Inr (), cs2, ?w2)" unfolding loop_operator_def by (elim exE) simp
  have l: "\<exists>cs3 w'. bindE (SetStatusCondition (Client ?r) c (set_attempts 0 (set_phase PhaseHealthy ?cr)))
      (\<lambda>cr. bindE (syncStatus ?r cr) (\<lambda>_. ret (requeue 30))) ?w2 = (Inr (requeue 30), cs3, w') \<and>
    settled (set_attempts 0 (set_phase PhaseHealthy ?cr)) ?w2 w'" for c
    unfolding loop_operator_def by (rule leave_loop(2)) simp_all
  have "\<exists>cs w'. reconcile_phase ?r ?cr w = (Inr (requeue 30), cs, w') \<and> settled (set_attempts 0 (set_phase PhaseHealthy ?cr)) ?w2 w'"
  proof (cases "phase ?cr = PhaseRecovering")
    case True
    obtain cs3 w' where "bindE (SetStatusCondition (Client ?r) (condition ConditionGPUHealthy True reasonGPUHealthy ''GPU is Healthy'' ?cr)
        (set_attempts 0 (set_phase PhaseHealthy ?cr))) (\<lambda>cr. bindE (syncStatus ?r cr) (\<lambda>_. ret (requeue 30))) ?w2 = (Inr (requeue 30), cs3, w')"
      "settled (set_attempts 0 (set_phase PhaseHealthy ?cr)) ?w2 w'" using l by blast
    then show ?thesis using True hh
      by (simp add: reconcile_phase_def observingPhases_def handleRecovering_def bindE_def f u del: append.simps)
  next
    case False
    obtain cs3 w' where "bindE (SetStatusCondition (Client ?r)
        (condition ConditionGPUHealthy True reasonGPUHealthy ''GPU is operating within normal parameters'' ?cr)
        (set_attempts 0 (set_phase PhaseHealthy ?cr))) (\<lambda>cr. bindE (syncStatus ?r cr) (\<lambda>_. ret (requeue 30))) ?w2 = (Inr (requeue 30), cs3, w')"
      "settled (set_attempts 0 (set_phase PhaseHealthy ?cr)) ?w2 w'" using l by blast
    moreover have "phase ?cr = PhaseRejoining" using False assms(2) by simp
    ultimately show ?thesis using hh
      by (simp add: reconcile_phase_def observingPhases_def handleRejoining_def bindE_def f u del: append.simps)
  qed
  then obtain cs w' where "Reconcile ?r (Name ?cr) w = (Inr (requeue 30), cs, w')" "settled (set_attempts 0 (set_phase PhaseHealthy ?cr)) ?w2 w'"
    using reconcile_loop unfolding loop_operator_def by blast
  moreover have "gstate g = gstate (ctel w)" using g(3) by simp
  ultimately show ?thesis by blast
qed

section \<open>Where the loops start\<close>

text \<open>
  A critical GPU that the operator observes under the policy Drain, with attempts left and only pods on its node that draining leaves alone,
  and one successful reconciliation of the resource.
\<close>

definition remediable :: "gpu_pkg cluster \<Rightarrow> nat \<Rightarrow> gpuState \<Rightarrow> bool" where
  "remediable w n st \<longleftrightarrow> in_place w \<and> phase (cresource w) \<in> set observingPhases \<and> policy (cresource w) = RemediationPolicyDrain \<and>
     (\<forall>p \<in> set (cpods w). left_alone p) \<and> attempts_of (count_attempt (cresource w)) <s MaxRemediationAttempts (Spec (cresource w)) \<and>
     1 \<le> n \<and> n \<le> 10000 \<and> the_gpu w = gpu_id n \<and> gpu_state w = Some st \<and> state_ok st \<and> status st = StatusCritical"

definition reconciled :: "string \<Rightarrow> time \<Rightarrow> gpu_pkg cluster \<Rightarrow> gpu_pkg cluster \<Rightarrow> bool" where
  "reconciled base t w w' \<longleftrightarrow> (\<exists>cs. Reconcile (loop_operator base t) (Name (cresource w)) w = (Inr (requeue 30), cs, w'))"

text \<open>What each of the runs above leaves behind.\<close>

lemma first_run:
  assumes "remediable w n st"
  obtains w1 where "reconciled base t w w1" and "in_place w1" and "phase (cresource w1) = PhaseDraining" and "\<forall>p \<in> set (cpods w1). left_alone p"
    and "the_gpu w1 = gpu_id n" and "gpu_state w1 = Some st" and "Unschedulable (cnode w1)" and "NodeConditions (cnode w1) = NodeConditions (cnode w)"
    and "ReplacementStartedAt (Status (cresource w1)) = ReplacementStartedAt (Status (cresource w))"
    and "attempts_of (cresource w1) = attempts_of (count_attempt (cresource w))"
proof -
  obtain w1 fs g where "reconciled base t w w1" and
    s: "settled (set_phase PhaseDraining (count_attempt (set_findings fs (cresource w)))) (w\<lparr>cnode := (cnode w)\<lparr>Unschedulable := True\<rparr>, ctel := g\<rparr>) w1"
       "gstate g = gstate (ctel w)"
    using observing_critical [of w n st base t] assms unfolding remediable_def reconciled_def by blast
  then show thesis using that [of w1] assms by (auto simp: settled_def remediable_def in_place_def)
qed

lemma last_run:
  assumes "in_place w" and "phase (cresource w) \<in> {PhaseRecovering, PhaseRejoining}" and "1 \<le> n" "n \<le> 10000" "the_gpu w = gpu_id n"
    and "gpu_state w = Some st" and "state_ok st" and "status st = StatusHealthy"
  shows "\<exists>w'. reconciled base t w w' \<and> phase (cresource w') = PhaseHealthy \<and> attempts_of (cresource w') = 0 \<and>
    \<not> Unschedulable (cnode w') \<and> gpu_state w' = Some st"
proof -
  obtain w' g where "reconciled base t w w'" and
    s: "settled (set_attempts 0 (set_phase PhaseHealthy (cresource w))) (w\<lparr>cnode := (cnode w)\<lparr>Unschedulable := False\<rparr>, ctel := g\<rparr>) w'"
       "gstate g = gstate (ctel w)"
    using waiting_healthy [OF assms, of base t] unfolding reconciled_def by blast
  moreover have "phase (cresource w') = PhaseHealthy \<and> attempts_of (cresource w') = 0 \<and> \<not> Unschedulable (cnode w') \<and> gpu_state w' = Some st"
    using s assms(6) by (simp add: settled_def)
  ultimately show ?thesis by blast
qed

end
