(* ===== verification/Processes.thy ===== *)
theory Processes
  imports Event_Stream Workflow Closed_Loop Demo_Setup
begin

text \<open>
  The service processes: the routers and the \<^verbatim>\<open>main\<close> functions of \<^verbatim>\<open>cmd/telemetry\<close>, \<^verbatim>\<open>cmd/diagnosis\<close>,
  \<^verbatim>\<open>cmd/escalation\<close> and \<^verbatim>\<open>cmd/worker\<close>. A router is the table of its routes; matching a request against it is the work of
  the library \<^verbatim>\<open>chi\<close> and a parameter, of which the documented behaviour is a hypothesis. The telemetry process is a
  transition system of its ticker and its requests, whose invariant composes those of its parts.
\<close>

section \<open>Routers\<close>

record 'h route =
  rmethod :: string
  rpattern :: string
  rtimeout :: "int option"  \<comment> \<open>\<^verbatim>\<open>middleware.Timeout\<close>\<close>
  rhandler :: 'h

record 'h router =
  middlewares :: "string list"
  routes :: "'h route list"

datatype 'h routed = Routed 'h "(string \<times> string) list" | Unrouted nat

fun split_path :: "string \<Rightarrow> string list" where
  "split_path [] = [[]]"
| "split_path (c # cs) = (if c = CHR ''/'' then [] # split_path cs else (case split_path cs of [] \<Rightarrow> [[c]] | s # ss \<Rightarrow> (c # s) # ss))"

text \<open>A pattern and the segments of a path: a segment in braces names a parameter, any other stands for itself.\<close>

fun match :: "string list \<Rightarrow> string list \<Rightarrow> (string \<times> string) list option" where
  "match [] [] = Some []"
| "match (p # ps) (s # ss) =
     (if p \<noteq> [] \<and> hd p = CHR ''{'' then map_option ((#) (butlast (tl p), s)) (match ps ss)
      else if p = s then match ps ss else None)"
| "match _ _ = None"

definition fits :: "string \<Rightarrow> string \<Rightarrow> 'h route \<Rightarrow> ('h \<times> (string \<times> string) list) option" where
  "fits m path r =
     (if rmethod r = m then map_option (Pair (rhandler r)) (match (split_path (rpattern r)) (split_path path)) else None)"

definition plain_path :: "string \<Rightarrow> bool" where
  "plain_path path \<longleftrightarrow> (case split_path path of s # ss \<Rightarrow> s = [] \<and> ss \<noteq> [] \<and> list_all (\<lambda>x. x \<noteq> []) ss | [] \<Rightarrow> False)"

text \<open>
  What the services rely on of the router: a request that one route fits goes to its handler with the parameters of the path; a
  request that no route fits goes to none.
\<close>

definition dispatches :: "('h router \<Rightarrow> string \<Rightarrow> string \<Rightarrow> 'h routed) \<Rightarrow> bool" where
  "dispatches chi \<longleftrightarrow> (\<forall>t m path. plain_path path \<longrightarrow>
     (case List.map_filter (fits m path) (routes t) of
        [] \<Rightarrow> chi t m path \<in> {Unrouted 404, Unrouted 405}
      | [(h, ps)] \<Rightarrow> chi t m path = Routed h ps
      | _ \<Rightarrow> True))"

definition URLParam :: "(string \<times> string) list \<Rightarrow> string \<Rightarrow> string" where
  "URLParam ps n = (case map_of ps n of None \<Rightarrow> [] | Some v \<Rightarrow> v)"

section \<open>cmd/telemetry\<close>

datatype telemetry_handler =
  GetGpu | GetSettings | PutSettings | ResetSettings | RecoverGPU | ReplaceGPU | GetAllGPUs

definition telemetry_router :: "telemetry_handler router" where
  "telemetry_router =
     (let v1 = (\<lambda>m p h. \<lparr>rmethod = m, rpattern = ''/v1'' @ p, rtimeout = Some (60 * second), rhandler = h\<rparr>)
      in \<lparr>middlewares = [''RequestID'', ''Logger'', ''Recoverer''],
          routes =
           [v1 ''GET'' ''/gpus/{id}'' GetGpu,
            v1 ''GET'' ''/simulation/settings'' GetSettings,
            v1 ''PUT'' ''/simulation/settings'' PutSettings,
            v1 ''POST'' ''/simulation/settings/reset'' ResetSettings,
            v1 ''PUT'' ''/simulation/gpus/{id}/recover'' RecoverGPU,
            v1 ''PUT'' ''/simulation/gpus/{id}/replace'' ReplaceGPU,
            \<lparr>rmethod = ''GET'', rpattern = ''/v1/gpus'', rtimeout = None, rhandler = GetAllGPUs\<rparr>]\<rparr>)"

record request =
  rqMethod :: string
  rqPath :: string
  rqJson :: "json option"
  rqTime :: time

datatype telemetry_reply =
  GpuReply "GPUHealth response" | SettingsReply "SimulationSettings response" | RouterReply nat

text \<open>
  A request, served to its end. The route for the whole fleet is not served in one step: it is the subject of the theories
  \<open>Worker_Pool\<close> and \<open>Event_Stream\<close>.
\<close>

definition telemetry_serve ::
  "(telemetry_handler router \<Rightarrow> string \<Rightarrow> string \<Rightarrow> telemetry_handler routed) \<Rightarrow> request \<Rightarrow> gpu_pkg \<Rightarrow> (telemetry_reply \<times> gpu_pkg) option" where
  "telemetry_serve chi rq g =
     (case chi telemetry_router (rqMethod rq) (rqPath rq) of
        Unrouted c \<Rightarrow> Some (RouterReply c, g)
      | Routed h ps \<Rightarrow>
          (case h of
             GetGpu \<Rightarrow> Some (apfst GpuReply (getGpuHandler (rqTime rq) (URLParam ps ''id'') g))
           | GetSettings \<Rightarrow> Some (SettingsReply (getSimulationSettingsHandler (Config g)), g)
           | PutSettings \<Rightarrow>
               (case putSimulationSettingsHandler (rqJson rq) (Config g) of (rep, c) \<Rightarrow> Some (SettingsReply rep, g\<lparr>Config := c\<rparr>))
           | ResetSettings \<Rightarrow>
               (case postResetSimulationSettingsHandler (Config g) of (rep, c) \<Rightarrow> Some (SettingsReply rep, g\<lparr>Config := c\<rparr>))
           | RecoverGPU \<Rightarrow> Some (apfst GpuReply (recoverGPUHandler (URLParam ps ''id'') g))
           | ReplaceGPU \<Rightarrow> Some (apfst GpuReply (replaceGPUHandler (URLParam ps ''id'') g))
           | GetAllGPUs \<Rightarrow> None))"

text \<open>The process: running, or ended by a panic of its ticker.\<close>

datatype telemetry_state = Serving ticker gpu_pkg | Crashed panic

definition telemetry_main :: "(string \<Rightarrow> rat option) \<Rightarrow> (string \<Rightarrow> string) \<Rightarrow> gpu_pkg \<Rightarrow> telemetry_state" where
  "telemetry_main ParseFloat env g =
     (let g = g\<lparr>Config := useEnvVars ParseFloat env (Config g)\<rparr>
      in case Ticker_Start g of Inl p \<Rightarrow> Crashed p | Inr tk \<Rightarrow> Serving tk g)"

inductive telemetry_step ::
  "(telemetry_handler router \<Rightarrow> string \<Rightarrow> string \<Rightarrow> telemetry_handler routed) \<Rightarrow> telemetry_state \<Rightarrow> telemetry_state \<Rightarrow> bool"
  for chi where
  t_tick: "on_tick tk g = Inr (tk', g') \<Longrightarrow> telemetry_step chi (Serving tk g) (Serving tk' g')"
| t_panic: "on_tick tk g = Inl p \<Longrightarrow> telemetry_step chi (Serving tk g) (Crashed p)"
| t_request: "telemetry_serve chi rq g = Some (rep, g') \<Longrightarrow> telemetry_step chi (Serving tk g) (Serving tk g')"
| t_read: "telemetry_step chi (Serving tk g) (Serving tk (snd (GetHealth t gid g)))"  \<comment> \<open>a worker of the pool, or a stream\<close>
| t_join: "telemetry_step chi (Serving tk g) (Serving tk (g\<lparr>DefaultHub := snd (Subscribe (DefaultHub g))\<rparr>))"
| t_leave: "ch \<in> subs (DefaultHub g) \<Longrightarrow>
    telemetry_step chi (Serving tk g) (Serving tk (g\<lparr>DefaultHub := Unsubscribe ch (DefaultHub g)\<rparr>))"

inductive telemetry_reachable ::
  "(telemetry_handler router \<Rightarrow> string \<Rightarrow> string \<Rightarrow> telemetry_handler routed) \<Rightarrow> telemetry_state \<Rightarrow> telemetry_state \<Rightarrow> bool"
  for chi s0 where
  t_start: "telemetry_reachable chi s0 s0"
| t_next: "telemetry_reachable chi s0 s \<Longrightarrow> telemetry_step chi s s' \<Longrightarrow> telemetry_reachable chi s0 s'"

section \<open>cmd/diagnosis and cmd/escalation\<close>

datatype diagnosis_handler = PostDiagnosis | GetDiagnosis | GetDiagnoses

definition diagnosis_router :: "diagnosis_handler router" where
  "diagnosis_router =
     (let v1 = (\<lambda>m p h. \<lparr>rmethod = m, rpattern = ''/v1'' @ p, rtimeout = Some (60 * second), rhandler = h\<rparr>)
      in \<lparr>middlewares = [''RequestID'', ''Logger'', ''Recoverer''],
          routes =
           [v1 ''POST'' ''/diagnose/{gpu_id}'' PostDiagnosis,
            v1 ''GET'' ''/diagnose/{id}'' GetDiagnosis,
            v1 ''GET'' ''/diagnoses'' GetDiagnoses]\<rparr>)"

datatype diagnosis_reply = DiagnosisReply "Diagnosis response" | DiagnosesReply "Diagnosis list response" | DiagnosisUnrouted nat

definition diagnosis_serve ::
  "(diagnosis_handler router \<Rightarrow> string \<Rightarrow> string \<Rightarrow> diagnosis_handler routed) \<Rightarrow>
     ((string \<times> Diagnosis) list \<Rightarrow> (string \<times> Diagnosis) list) \<Rightarrow> request \<Rightarrow> gpu_pkg \<Rightarrow> DiagStore \<Rightarrow>
     diagnosis_reply \<times> gpu_pkg \<times> DiagStore" where
  "diagnosis_serve chi iter rq g s =
     (case chi diagnosis_router (rqMethod rq) (rqPath rq) of
        Unrouted c \<Rightarrow> (DiagnosisUnrouted c, g, s)
      | Routed PostDiagnosis ps \<Rightarrow> apfst DiagnosisReply (postDiagnosis (rqTime rq) (rqTime rq) (URLParam ps ''gpu_id'') g s)
      | Routed GetDiagnosis ps \<Rightarrow> (DiagnosisReply (getDiagnosis (URLParam ps ''id'') s), g, s)
      | Routed GetDiagnoses ps \<Rightarrow> (DiagnosesReply (getDiagnoses iter s), g, s))"

datatype escalation_handler = CreateEscalation | GetEscalation | GetEscalations | ResolveEscalation

definition escalation_router :: "escalation_handler router" where
  "escalation_router =
     (let v1 = (\<lambda>m p h. \<lparr>rmethod = m, rpattern = ''/v1'' @ p, rtimeout = Some (60 * second), rhandler = h\<rparr>)
      in \<lparr>middlewares = [''RequestID'', ''Logger'', ''Recoverer''],
          routes =
           [v1 ''POST'' ''/escalations/{id}'' CreateEscalation,
            v1 ''GET'' ''/escalations/{id}'' GetEscalation,
            v1 ''GET'' ''/escalations'' GetEscalations,
            v1 ''PUT'' ''/escalations/{id}/resolve'' ResolveEscalation]\<rparr>)"

datatype escalation_reply = EscalationReply "Escalation response" | EscalationsReply "Escalation list response" | EscalationUnrouted nat

definition escalation_serve ::
  "(escalation_handler router \<Rightarrow> string \<Rightarrow> string \<Rightarrow> escalation_handler routed) \<Rightarrow>
     ((string \<times> Escalation) list \<Rightarrow> (string \<times> Escalation) list) \<Rightarrow> string \<Rightarrow> string \<Rightarrow> (string, Escalation option) result \<Rightarrow> time \<Rightarrow>
     EscStore \<Rightarrow> escalation_reply \<times> EscStore" where
  "escalation_serve chi iter m path body now s =
     (case chi escalation_router m path of
        Unrouted c \<Rightarrow> (EscalationUnrouted c, s)
      | Routed CreateEscalation ps \<Rightarrow> apfst EscalationReply (createEscalationHandler (URLParam ps ''id'') body s)
      | Routed GetEscalation ps \<Rightarrow> (EscalationReply (getEscalationByIDHandler (URLParam ps ''id'') s), s)
      | Routed GetEscalations ps \<Rightarrow> (EscalationsReply (getEscalationsHandler iter s), s)
      | Routed ResolveEscalation ps \<Rightarrow> apfst EscalationReply (resolveEscalationHandler now (URLParam ps ''id'') s))"

section \<open>cmd/worker\<close>

text \<open>The connection to the workflow engine and the loop of the worker belong to its library.\<close>

record worker_lib =
  DialTemporal :: "string \<Rightarrow> string option"  \<comment> \<open>the error, if any\<close>

record worker_process =
  TaskQueue :: string
  Workflows :: "string list"
  ActivitiesOf :: worker

definition worker_main :: "worker_lib \<Rightarrow> (string \<Rightarrow> string) \<Rightarrow> (nat \<Rightarrow> nat) \<Rightarrow> (nat \<Rightarrow> time) \<Rightarrow> (string, worker_process) result" where
  "worker_main lib env src c =
     (let hostPort = env ''TEMPORAL_ADDRESS'';
          hostPort = (if hostPort = [] then ''localhost:7233'' else hostPort)
      in case DialTemporal lib hostPort of
           Some err \<Rightarrow> Inl err
         | None \<Rightarrow> Inr \<lparr>TaskQueue = ''gpu-monitor'', Workflows = [''MonitorGPU''], ActivitiesOf = worker_init src c\<rparr>)"

section \<open>Lemmas on routes\<close>

text \<open>Two patterns that differ in length or in a literal segment fit no common path.\<close>

fun apart :: "string list \<Rightarrow> string list \<Rightarrow> bool" where
  "apart [] [] = False"
| "apart (p # ps) (q # qs) =
     (\<not> (p \<noteq> [] \<and> hd p = CHR ''{'') \<and> \<not> (q \<noteq> [] \<and> hd q = CHR ''{'') \<and> p \<noteq> q \<or> apart ps qs)"
| "apart _ _ = True"

lemma apart_match: "apart ps qs \<Longrightarrow> match ps ss = Some xs \<Longrightarrow> match qs ss = None"
proof (induction ps ss arbitrary: qs xs rule: match.induct)
  case 1
  then show ?case by (cases qs) auto
next
  case (2 p ps s ss)
  then show ?case by (cases qs) (auto split: if_splits)
qed auto

fun clash_free :: "'h route list \<Rightarrow> bool" where
  "clash_free [] = True"
| "clash_free (r # rs) = (list_all (\<lambda>q. rmethod r \<noteq> rmethod q \<or> apart (split_path (rpattern r)) (split_path (rpattern q))) rs \<and> clash_free rs)"

lemma fits_one:
  assumes "clash_free rs"
  shows "length (List.map_filter (fits m path) rs) \<le> 1"
  using assms
proof (induction rs)
  case (Cons r rs)
  show ?case
  proof (cases "fits m path r")
    case None
    then show ?thesis using Cons by (simp add: List.map_filter_simps)
  next
    case (Some x)
    have "fits m path q = None" if "q \<in> set rs" for q
      using Cons.prems Some that apart_match [of "split_path (rpattern r)" "split_path (rpattern q)"]
      by (auto simp: fits_def list_all_iff split: if_splits)
    then have "List.map_filter (fits m path) rs = []" by (induction rs) (auto simp: List.map_filter_simps)
    then show ?thesis using Some by (simp add: List.map_filter_simps)
  qed
qed (simp add: List.map_filter_simps)

lemma routers_clash_free:
  "clash_free (routes telemetry_router)" "clash_free (routes diagnosis_router)" "clash_free (routes escalation_router)"
  by (simp_all add: telemetry_router_def diagnosis_router_def escalation_router_def Let_def)

definition segment :: "string \<Rightarrow> bool" where
  "segment s \<longleftrightarrow> s \<noteq> [] \<and> CHR ''/'' \<notin> set s"

lemma split_path_segment: "CHR ''/'' \<notin> set s \<Longrightarrow> split_path s = [s]"
  by (induction s) auto

lemma split_path_append: "CHR ''/'' \<notin> set s \<Longrightarrow> split_path (s @ CHR ''/'' # rest) = s # split_path rest"
  by (induction s) auto

definition fits_segments :: "string \<Rightarrow> string list \<Rightarrow> 'h route \<Rightarrow> ('h \<times> (string \<times> string) list) option" where
  "fits_segments m ss r =
     (if rmethod r = m then map_option (Pair (rhandler r)) (match (split_path (rpattern r)) ss) else None)"

lemma dispatches_one:
  fixes t :: "'h router"
  assumes "dispatches chi" and "split_path path = [] # ss" and "ss \<noteq> []" and "list_all (\<lambda>x. x \<noteq> []) ss"
    and "List.map_filter (fits_segments m ([] # ss)) (routes t) = [(h, ps)]"
  shows "chi t m path = Routed h ps"
proof -
  have "fits m path = (fits_segments m ([] # ss) :: 'h route \<Rightarrow> _)" by (simp add: fun_eq_iff fits_def fits_segments_def assms(2))
  then have "List.map_filter (fits m path) (routes t) = [(h, ps)]" using assms(5) by simp
  moreover have "plain_path path" using assms(2-4) by (simp add: plain_path_def)
  ultimately show ?thesis using assms(1) [unfolded dispatches_def, rule_format, of path t m] by simp
qed

lemma dispatches_none:
  assumes "dispatches chi" and "plain_path path" and "List.map_filter (fits m path) (routes t) = []"
  shows "chi t m path \<in> {Unrouted 404, Unrouted 405}"
  using assms(1) [unfolded dispatches_def, rule_format, OF assms(2), of t m] assms(3) by simp

lemma gpu_paths:
  assumes "segment i"
  shows "split_path (''/v1/gpus/'' @ i) = [[], ''v1'', ''gpus'', i]"
    and "split_path (''/v1/simulation/gpus/'' @ i @ ''/recover'') = [[], ''v1'', ''simulation'', ''gpus'', i, ''recover'']"
    and "split_path (''/v1/simulation/gpus/'' @ i @ ''/replace'') = [[], ''v1'', ''simulation'', ''gpus'', i, ''replace'']"
  using assms by (simp_all add: segment_def split_path_segment split_path_append)

lemmas telemetry_table = telemetry_router_def Let_def List.map_filter_simps fits_segments_def

lemma gpu_routes:
  "List.map_filter (fits_segments ''GET'' [[], ''v1'', ''gpus'', i]) (routes telemetry_router) = [(GetGpu, [(''id'', i)])]"
  "List.map_filter (fits_segments ''PUT'' [[], ''v1'', ''simulation'', ''gpus'', i, ''recover'']) (routes telemetry_router) = [(RecoverGPU, [(''id'', i)])]"
  "List.map_filter (fits_segments ''PUT'' [[], ''v1'', ''simulation'', ''gpus'', i, ''replace'']) (routes telemetry_router) = [(ReplaceGPU, [(''id'', i)])]"
  "List.map_filter (fits_segments ''PUT'' [[], ''v1'', ''simulation'', ''settings'']) (routes telemetry_router) = [(PutSettings, [])]"
  by (simp_all add: telemetry_table)

lemma gpu_requests_routed:
  assumes "dispatches chi" and "segment i"
  shows "chi telemetry_router ''GET'' (''/v1/gpus/'' @ i) = Routed GetGpu [(''id'', i)]"
    and "chi telemetry_router ''PUT'' (''/v1/simulation/gpus/'' @ i @ ''/recover'') = Routed RecoverGPU [(''id'', i)]"
    and "chi telemetry_router ''PUT'' (''/v1/simulation/gpus/'' @ i @ ''/replace'') = Routed ReplaceGPU [(''id'', i)]"
  using assms(2)
  by (intro dispatches_one [OF assms(1) gpu_paths(1)] dispatches_one [OF assms(1) gpu_paths(2)] dispatches_one [OF assms(1) gpu_paths(3)];
      simp add: gpu_routes segment_def)+

lemma settings_request_routed:
  assumes "dispatches chi"
  shows "chi telemetry_router ''PUT'' ''/v1/simulation/settings'' = Routed PutSettings []"
  by (rule dispatches_one [OF assms]) (simp, simp_all add: gpu_routes)

section \<open>The telemetry process\<close>

lemma reading_config [frame]:
  "temperature_reading spec st f g = (t, g') \<Longrightarrow> Config g' = Config g"
  "power_reading spec st f g = (p, g') \<Longrightarrow> Config g' = Config g"
  "load_reading st f g = (l, g') \<Longrightarrow> Config g' = Config g"
  by (auto simp: temperature_reading_def power_reading_def load_reading_def Let_def
      split: prod.splits FailureType.splits if_splits dest!: rand_frame draw_frame)

lemma GetHealth_config [frame]: "Config (snd (GetHealth now gid g)) = Config g"
  by (auto simp: GetHealth_def Let_def split: option.splits prod.splits sum.splits dest!: reading_config)

lemma tick_all_config [frame]: "Config (tick_all cfg g) = Config g"
proof -
  have "Config (fold (tick_gpu cfg) ids g) = Config g" for ids
    using tick_gpu_writes by (induction ids arbitrary: g) (simp_all add: writes_def)
  then show ?thesis by (simp add: tick_all_def)
qed

lemma command_config [frame]: "Config (snd (Recover gid g)) = Config g" "Config (snd (Replace gid g)) = Config g"
  using Recover_writes Replace_writes by (simp_all add: writes_def)

lemma valid_reset: "valid_settings c \<Longrightarrow> valid_settings (snd (postResetSimulationSettingsHandler c))"
  using valid_defaults by (simp add: postResetSimulationSettingsHandler_def Config_Reset_eq valid_settings_def)

definition process_ok :: "gpu_pkg \<Rightarrow> bool" where
  "process_ok g \<longleftrightarrow> fleet_inv g \<and> valid_settings (Config g)"

lemma process_ok_GetHealth: "process_ok g \<Longrightarrow> process_ok (snd (GetHealth t gid g))"
  by (simp add: process_ok_def frame fleet_inv_def)

lemma process_ok_serve:
  assumes "process_ok g" and "telemetry_serve chi rq g = Some (rep, g')"
  shows "process_ok g'"
proof -
  have "process_ok (snd (recoverGPUHandler i g))" "process_ok (snd (replaceGPUHandler i g))" for i
    using assms(1) by (simp_all add: process_ok_def recover_handler_state replace_handler_state frame sim_inv)
  moreover have "process_ok (snd (getGpuHandler t i g))" for t i
    using process_ok_GetHealth [OF assms(1), of t i] by (auto simp: getGpuHandler_def split: prod.splits sum.splits)
  moreover have "process_ok (g\<lparr>Config := c\<rparr>)" if "valid_settings c" for c
    using assms(1) that by (simp add: process_ok_def)
  moreover have "valid_settings (snd (putSimulationSettingsHandler body (Config g)))" "valid_settings (snd (postResetSimulationSettingsHandler (Config g)))" for body
    using assms(1) by (simp_all add: process_ok_def put_settings_valid valid_reset)
  ultimately show ?thesis using assms
    by (auto simp: telemetry_serve_def split: routed.splits telemetry_handler.splits prod.splits) (metis snd_apfst snd_conv)+
qed

fun telemetry_ok :: "telemetry_state \<Rightarrow> bool" where
  "telemetry_ok (Serving tk g) \<longleftrightarrow> process_ok g \<and> Base div 100 \<le> interval tk \<and> interval tk \<le> Base"
| "telemetry_ok (Crashed _) \<longleftrightarrow> False"

lemma valid_interval:
  "valid_settings (Config g) \<Longrightarrow> \<exists>d. tick_interval (SpeedMultiplier (Config g)) = Inr d \<and> Base div 100 \<le> d \<and> d \<le> Base"
  by (intro tick_interval_valid) (simp_all add: valid_settings_def)

lemma telemetry_ok_step:
  assumes "telemetry_step chi s s'" and "telemetry_ok s"
  shows "telemetry_ok s'"
  using assms
proof (induction rule: telemetry_step.induct)
  case (t_tick tk g tk' g')
  then show ?case using valid_interval [of g]
    by (auto simp: on_tick_def process_ok_def Let_def frame sim_inv split: if_splits)
next
  case (t_panic tk g p)
  then show ?case using valid_interval [of g] by (auto simp: on_tick_def process_ok_def Let_def split: if_splits)
next
  case (t_request rq g rep g' tk)
  then show ?case using process_ok_serve by auto
next
  case (t_read tk g t gid)
  then show ?case by (simp add: process_ok_GetHealth)
qed (auto simp: process_ok_def intro: fleet_inv_hub simp: hub_ok_Subscribe hub_ok_Unsubscribe fleet_inv_hub_ok)

text \<open>
  C17. The telemetry process never panics once it has started on settings in range: whatever requests, ticks and streams
  follow, in any order, it keeps serving, its settings stay in range, its ticker fires every 100 milliseconds to 10 seconds, and the fleet keeps
  its invariant. An environment that sets the speed multiplier to zero or below ends it at the start.
\<close>

theorem telemetry_process:
  assumes "telemetry_reachable chi (telemetry_main ParseFloat env (gpu_init src)) s"
  shows "(valid_settings (useEnvVars ParseFloat env Config_init) \<longrightarrow>
      (\<exists>tk g. s = Serving tk g \<and> fleet_inv g \<and> valid_settings (Config g) \<and> Base div 100 \<le> interval tk \<and> interval tk \<le> Base)) \<and>
    (sint (SpeedMultiplier (useEnvVars ParseFloat env Config_init)) \<le> 0 \<longrightarrow> (\<exists>p. s = Crashed p))"
proof (intro conjI impI)
  let ?g = "(gpu_init src)\<lparr>Config := useEnvVars ParseFloat env Config_init\<rparr>"
  have init: "Config (gpu_init src) = Config_init" by (simp add: gpu_init_def)
  {
    assume "valid_settings (useEnvVars ParseFloat env Config_init)"
    then have "telemetry_ok (telemetry_main ParseFloat env (gpu_init src))"
      using valid_interval [of ?g] fleet_inv_init [of src]
      by (auto simp: telemetry_main_def init Ticker_Start_def Let_def process_ok_def)
    with assms have "telemetry_ok s" by (induction rule: telemetry_reachable.induct) (auto intro: telemetry_ok_step)
    then show "\<exists>tk g. s = Serving tk g \<and> fleet_inv g \<and> valid_settings (Config g) \<and> Base div 100 \<le> interval tk \<and> interval tk \<le> Base"
      by (cases s) (auto simp: process_ok_def)
  next
    assume "sint (SpeedMultiplier (useEnvVars ParseFloat env Config_init)) \<le> 0"
    then obtain p where p: "telemetry_main ParseFloat env (gpu_init src) = Crashed p"
      using tick_interval_panics [of "SpeedMultiplier (useEnvVars ParseFloat env Config_init)"]
      by (auto simp: telemetry_main_def init Ticker_Start_def Let_def)
    from assms have "s = Crashed p"
      unfolding p by (induction rule: telemetry_reachable.induct) (auto elim: telemetry_step.cases)
    then show "\<exists>p. s = Crashed p" by blast
  }
qed

theorem telemetry_process_witness:
  "\<exists>p. telemetry_main (\<lambda>_. None) (\<lambda>v. if v = ''INITIAL_SPEED_MULTIPLIER'' then ''0'' else []) (gpu_init (\<lambda>_. 0)) = Crashed p"
proof -
  let ?env = "\<lambda>v. if v = ''INITIAL_SPEED_MULTIPLIER'' then ''0'' else []"
  have "SpeedMultiplier (useEnvVars (\<lambda>_. None) ?env Config_init) = 0" by code_simp
  then show ?thesis using telemetry_process [OF t_start, of "\<lambda>_. None" ?env "\<lambda>_. 0"] by simp
qed

section \<open>Requests of the other programs\<close>

fun verb :: "http_method \<Rightarrow> string" where
  "verb MethodGet = ''GET''"
| "verb MethodPut = ''PUT''"


definition first_fit :: "'h router \<Rightarrow> string \<Rightarrow> string \<Rightarrow> 'h routed" where
  "first_fit t m path = (case List.map_filter (fits m path) (routes t) of [] \<Rightarrow> Unrouted 404 | (h, ps) # _ \<Rightarrow> Routed h ps)"

lemma first_fit_dispatches: "dispatches first_fit"
  by (auto simp: dispatches_def first_fit_def split: list.splits)


end
